theory Spec2Isabelle
  imports Complex_Main "HOL-Library.Word" "HOL-Library.AList"
begin

unbundle bit_operations_syntax

section \<open>JavaScript values\<close>

text \<open>
  The server of \<^verbatim>\<open>src/server.js\<close> works on values that come out of \<^verbatim>\<open>JSON.parse\<close>
  (request bodies, token payloads, the three collection files) and on \<^verbatim>\<open>undefined\<close>
  (an absent property).

  A string is a byte list: the UTF-8 encoding of the JavaScript string.

  A number is an exact rational, \<^verbatim>\<open>NaN\<close> or one of the two infinities. The rounding of
  IEEE doubles, their overflow and underflow and the sign of zero are not represented:
  the model and JavaScript agree on the integers of magnitude up to \<open>2 ^ 53\<close> (where
  \<^verbatim>\<open>id + 1\<close> and \<^verbatim>\<open>Date.now() + 24 * 60 * 60 * 1000\<close> are exact) and on the decimal
  fractions that are doubles. The statements below that depend on arithmetic are about
  such integers.
\<close>

datatype jsnum = Fin rat | NaN | PosInf | NegInf

datatype jsval =
    JUndefined
  | JNull
  | JBool bool
  | JNum jsnum
  | JStr string
  | JArr "jsval list"
  | JObj "(string \<times> jsval) list"

type_synonym obj = "(string \<times> jsval) list"

text \<open>\<^verbatim>\<open>!x\<close> is \<open>\<not> truthy x\<close>.\<close>

fun truthy :: "jsval \<Rightarrow> bool" where
  "truthy JUndefined = False"
| "truthy JNull = False"
| "truthy (JBool b) = b"
| "truthy (JNum (Fin q)) = (q \<noteq> 0)"
| "truthy (JNum NaN) = False"
| "truthy (JNum PosInf) = True"
| "truthy (JNum NegInf) = True"
| "truthy (JStr s) = (s \<noteq> [])"
| "truthy (JArr xs) = True"
| "truthy (JObj fs) = True"

text \<open>
  \<^verbatim>\<open>a === b\<close>. Every comparison of the server is between values that come from
  different \<^verbatim>\<open>JSON.parse\<close> calls, so two arrays or two objects are never the same
  reference and never equal.
\<close>

fun strict_eq :: "jsval \<Rightarrow> jsval \<Rightarrow> bool" where
  "strict_eq JUndefined JUndefined = True"
| "strict_eq JNull JNull = True"
| "strict_eq (JBool a) (JBool b) = (a = b)"
| "strict_eq (JNum a) (JNum b) = (a \<noteq> NaN \<and> a = b)"
| "strict_eq (JStr a) (JStr b) = (a = b)"
| "strict_eq _ _ = False"

text \<open>\<^verbatim>\<open>o.k\<close> on a record of a collection (always an object).\<close>

definition field :: "obj \<Rightarrow> string \<Rightarrow> jsval" where
  "field fs k = (case map_of fs k of Some v \<Rightarrow> v | None \<Rightarrow> JUndefined)"

text \<open>
  \<^verbatim>\<open>v.k\<close> and the destructuring \<^verbatim>\<open>const { k } = v\<close> on any value: a \<^verbatim>\<open>TypeError\<close>
  (\<open>None\<close>) on \<^verbatim>\<open>null\<close> and \<^verbatim>\<open>undefined\<close>, the property of an object, and
  \<^verbatim>\<open>undefined\<close> on the other values (none of the property names the server reads is
  an index or \<^verbatim>\<open>length\<close>).
\<close>

fun get_prop :: "jsval \<Rightarrow> string \<Rightarrow> jsval option" where
  "get_prop JUndefined k = None"
| "get_prop JNull k = None"
| "get_prop (JObj fs) k = Some (field fs k)"
| "get_prop _ k = Some JUndefined"

subsection \<open>Numbers and strings\<close>

definition digit_char :: "nat \<Rightarrow> char" where
  "digit_char d = char_of (48 + d)"

fun nat_digits :: "nat \<Rightarrow> string" where
  "nat_digits n = (if n < 10 then [digit_char n] else nat_digits (n div 10) @ [digit_char (n mod 10)])"

declare nat_digits.simps [simp del]

text \<open>The digits after the decimal point of \<open>q\<close> with \<open>0 \<le> q < 1\<close>, at most \<open>fuel\<close> of them.\<close>

fun frac_digits :: "nat \<Rightarrow> rat \<Rightarrow> string" where
  "frac_digits 0 q = []"
| "frac_digits (Suc fuel) q =
     (if q = 0 then []
      else digit_char (nat \<lfloor>q * 10\<rfloor>) # frac_digits fuel (q * 10 - of_int \<lfloor>q * 10\<rfloor>))"

text \<open>
  \<^verbatim>\<open>Number.prototype.toString\<close> in positional decimal notation. Every finite number of the
  model is a decimal fraction (it comes from a decimal literal or from adding 1), and a
  decimal fraction with denominator \<open>d\<close> has fewer than \<open>d\<close> digits after the point.
  JavaScript changes to exponent notation from \<^verbatim>\<open>1e21\<close> up and below \<^verbatim>\<open>1e-6\<close>; the
  model keeps positional notation there, which \<^verbatim>\<open>JSON.parse\<close> reads back as the same number.
\<close>

definition num_to_str :: "jsnum \<Rightarrow> string" where
  "num_to_str x = (case x of
       NaN \<Rightarrow> ''NaN''
     | PosInf \<Rightarrow> ''Infinity''
     | NegInf \<Rightarrow> ''-Infinity''
     | Fin q \<Rightarrow>
         (let a = \<bar>q\<bar>; ip = \<lfloor>a\<rfloor>; fp = a - of_int ip
          in (if q < 0 then ''-'' else '''') @ nat_digits (nat ip) @
             (if fp = 0 then '''' else ''.'' @ frac_digits (nat (snd (quotient_of a))) fp)))"

definition is_digit :: "char \<Rightarrow> bool" where
  "is_digit c = (48 \<le> (of_char c :: nat) \<and> (of_char c :: nat) \<le> 57)"

definition digit_val :: "char \<Rightarrow> nat" where
  "digit_val c = of_char c - 48"

definition digits_val :: "string \<Rightarrow> nat" where
  "digits_val ds = foldl (\<lambda>a c. 10 * a + digit_val c) 0 ds"

text \<open>
  An optional exponent part \<^verbatim>\<open>[eE][+-]?[0-9]+\<close> at the head of the input: the exponent and the rest.
  An \<^verbatim>\<open>e\<close> that no digit follows is not an exponent part and is left in the rest.
\<close>

definition scan_exp :: "string \<Rightarrow> int \<times> string" where
  "scan_exp s = (case s of
       [] \<Rightarrow> (0, s)
     | c # t \<Rightarrow>
         if c = CHR ''e'' \<or> c = CHR ''E'' then
           (let neg = (t \<noteq> [] \<and> hd t = CHR ''-'');
                t' = (if t \<noteq> [] \<and> (hd t = CHR ''-'' \<or> hd t = CHR ''+'') then tl t else t);
                ds = takeWhile is_digit t'
            in if ds = [] then (0, s)
               else ((if neg then - int (digits_val ds) else int (digits_val ds)), dropWhile is_digit t'))
         else (0, s))"

text \<open>
  Digits, an optional fraction and an optional exponent at the head of the input:
  the integer digits, whether there is a point, the fraction digits, the exponent, the rest.
\<close>

definition scan_decimal :: "string \<Rightarrow> string \<times> bool \<times> string \<times> int \<times> string" where
  "scan_decimal s =
     (let ip = takeWhile is_digit s; r1 = dropWhile is_digit s;
          dot = (r1 \<noteq> [] \<and> hd r1 = CHR ''.'');
          fp = (if dot then takeWhile is_digit (tl r1) else []);
          r2 = (if dot then dropWhile is_digit (tl r1) else r1);
          (e, r3) = scan_exp r2
      in (ip, dot, fp, e, r3))"

definition pow10 :: "int \<Rightarrow> rat" where
  "pow10 e = (if 0 \<le> e then 10 ^ nat e else 1 / 10 ^ nat (- e))"

definition decimal_value :: "string \<Rightarrow> string \<Rightarrow> int \<Rightarrow> rat" where
  "decimal_value ip fp e =
     (of_nat (digits_val ip) + of_nat (digits_val fp) / 10 ^ length fp) * pow10 e"

text \<open>
  The white space that \<^verbatim>\<open>String.prototype.trim\<close>, \<^verbatim>\<open>Number\<close> and \<^verbatim>\<open>parseInt\<close> strip
  (the \<^verbatim>\<open>WhiteSpace\<close> and \<^verbatim>\<open>LineTerminator\<close> characters of ECMAScript), each by its UTF-8
  bytes: U+0009 to U+000D, U+0020, U+00A0, U+1680, U+2000 to U+200A, U+2028, U+2029,
  U+202F, U+205F, U+3000 and U+FEFF.
\<close>

definition js_spaces :: "string list" where
  "js_spaces =
     [[CHR 0x09], [CHR 0x0A], [CHR 0x0B], [CHR 0x0C], [CHR 0x0D], [CHR 0x20],
      [CHR 0xC2, CHR 0xA0], [CHR 0xE1, CHR 0x9A, CHR 0x80],
      [CHR 0xE2, CHR 0x80, CHR 0x80], [CHR 0xE2, CHR 0x80, CHR 0x81], [CHR 0xE2, CHR 0x80, CHR 0x82],
      [CHR 0xE2, CHR 0x80, CHR 0x83], [CHR 0xE2, CHR 0x80, CHR 0x84], [CHR 0xE2, CHR 0x80, CHR 0x85],
      [CHR 0xE2, CHR 0x80, CHR 0x86], [CHR 0xE2, CHR 0x80, CHR 0x87], [CHR 0xE2, CHR 0x80, CHR 0x88],
      [CHR 0xE2, CHR 0x80, CHR 0x89], [CHR 0xE2, CHR 0x80, CHR 0x8A],
      [CHR 0xE2, CHR 0x80, CHR 0xA8], [CHR 0xE2, CHR 0x80, CHR 0xA9], [CHR 0xE2, CHR 0x80, CHR 0xAF],
      [CHR 0xE2, CHR 0x81, CHR 0x9F], [CHR 0xE3, CHR 0x80, CHR 0x80], [CHR 0xEF, CHR 0xBB, CHR 0xBF]]"

text \<open>The number of bytes of the white-space character at the head of the input, 0 when there is none.\<close>

definition space_len :: "string list \<Rightarrow> string \<Rightarrow> nat" where
  "space_len ws s = (case find (\<lambda>w. take (length w) s = w) ws of Some w \<Rightarrow> length w | None \<Rightarrow> 0)"

fun strip :: "string list \<Rightarrow> string \<Rightarrow> string" where
  "strip ws [] = []"
| "strip ws (c # s) =
     (if space_len ws (c # s) = 0 then c # s else strip ws (drop (space_len ws (c # s) - 1) s))"

definition trimStart :: "string \<Rightarrow> string" where
  "trimStart s = strip js_spaces s"

definition trim :: "string \<Rightarrow> string" where
  "trim s = rev (strip (map rev js_spaces) (rev (strip js_spaces s)))"

definition radix_digit :: "char \<Rightarrow> nat option" where
  "radix_digit c =
     (let n = (of_char c :: nat)
      in if 48 \<le> n \<and> n \<le> 57 then Some (n - 48)
         else if 97 \<le> n \<and> n \<le> 102 then Some (n - 87)
         else if 65 \<le> n \<and> n \<le> 70 then Some (n - 55)
         else None)"

definition radix_value :: "nat \<Rightarrow> string \<Rightarrow> jsnum" where
  "radix_value b ds =
     (if ds \<noteq> [] \<and> (\<forall>c \<in> set ds. case radix_digit c of Some d \<Rightarrow> d < b | None \<Rightarrow> False)
      then Fin (of_nat (foldl (\<lambda>a c. b * a + the (radix_digit c)) 0 ds))
      else NaN)"

definition unsigned_decimal :: "string \<Rightarrow> jsnum" where
  "unsigned_decimal s =
     (if s = ''Infinity'' then PosInf
      else (case scan_decimal s of (ip, dot, fp, e, r) \<Rightarrow>
              if r = [] \<and> (ip \<noteq> [] \<or> fp \<noteq> []) then Fin (decimal_value ip fp e) else NaN))"

definition num_neg :: "jsnum \<Rightarrow> jsnum" where
  "num_neg x = (case x of Fin q \<Rightarrow> Fin (- q) | NaN \<Rightarrow> NaN | PosInf \<Rightarrow> NegInf | NegInf \<Rightarrow> PosInf)"

text \<open>The conversion of a string to a number (\<^verbatim>\<open>Number(s)\<close>, and \<^verbatim>\<open>s < n\<close> for a number \<^verbatim>\<open>n\<close>).\<close>

definition str_to_num :: "string \<Rightarrow> jsnum" where
  "str_to_num s0 =
     (let s = trim s0
      in if s = [] then Fin 0
         else if take 2 s = ''0x'' \<or> take 2 s = ''0X'' then radix_value 16 (drop 2 s)
         else if take 2 s = ''0o'' \<or> take 2 s = ''0O'' then radix_value 8 (drop 2 s)
         else if take 2 s = ''0b'' \<or> take 2 s = ''0B'' then radix_value 2 (drop 2 s)
         else if hd s = CHR ''-'' then num_neg (unsigned_decimal (tl s))
         else if hd s = CHR ''+'' then unsigned_decimal (tl s)
         else unsigned_decimal s)"

fun intersperse :: "'a list \<Rightarrow> 'a list list \<Rightarrow> 'a list" where
  "intersperse sep [] = []"
| "intersperse sep [x] = x"
| "intersperse sep (x # y # ys) = x @ sep @ intersperse sep (y # ys)"

text \<open>
  \<^verbatim>\<open>String(v)\<close>: an array is the join of its elements by a comma, with \<^verbatim>\<open>null\<close> and
  \<^verbatim>\<open>undefined\<close> elements empty; a plain object is \<^verbatim>\<open>[object Object]\<close>.
\<close>

fun to_str :: "jsval \<Rightarrow> string" where
  "to_str JUndefined = ''undefined''"
| "to_str JNull = ''null''"
| "to_str (JBool b) = (if b then ''true'' else ''false'')"
| "to_str (JNum x) = num_to_str x"
| "to_str (JStr s) = s"
| "to_str (JArr xs) =
     intersperse '','' (map (\<lambda>x. if x = JUndefined \<or> x = JNull then [] else to_str x) xs)"
| "to_str (JObj fs) = ''[object Object]''"

text \<open>\<^verbatim>\<open>ToPrimitive\<close>: arrays and objects become their string.\<close>

fun to_prim :: "jsval \<Rightarrow> jsval" where
  "to_prim (JArr xs) = JStr (to_str (JArr xs))"
| "to_prim (JObj fs) = JStr (to_str (JObj fs))"
| "to_prim v = v"

text \<open>\<^verbatim>\<open>Number(v)\<close>.\<close>

fun prim_to_num :: "jsval \<Rightarrow> jsnum" where
  "prim_to_num JUndefined = NaN"
| "prim_to_num JNull = Fin 0"
| "prim_to_num (JBool b) = (if b then Fin 1 else Fin 0)"
| "prim_to_num (JNum x) = x"
| "prim_to_num (JStr s) = str_to_num s"
| "prim_to_num v = NaN"

definition to_number :: "jsval \<Rightarrow> jsnum" where
  "to_number v = prim_to_num (to_prim v)"

fun num_add :: "jsnum \<Rightarrow> jsnum \<Rightarrow> jsnum" where
  "num_add (Fin a) (Fin b) = Fin (a + b)"
| "num_add NaN _ = NaN"
| "num_add _ NaN = NaN"
| "num_add PosInf NegInf = NaN"
| "num_add NegInf PosInf = NaN"
| "num_add PosInf _ = PosInf"
| "num_add _ PosInf = PosInf"
| "num_add NegInf _ = NegInf"
| "num_add _ NegInf = NegInf"

fun is_str :: "jsval \<Rightarrow> bool" where
  "is_str (JStr s) = True"
| "is_str _ = False"

text \<open>\<^verbatim>\<open>a + b\<close>: concatenation when either primitive is a string, addition of numbers otherwise.\<close>

definition js_add :: "jsval \<Rightarrow> jsval \<Rightarrow> jsval" where
  "js_add a b =
     (let pa = to_prim a; pb = to_prim b
      in if is_str pa \<or> is_str pb then JStr (to_str pa @ to_str pb)
         else JNum (num_add (prim_to_num pa) (prim_to_num pb)))"

text \<open>\<^verbatim>\<open>x < n\<close> for numbers; a comparison with \<^verbatim>\<open>NaN\<close> is false.\<close>

fun num_less :: "jsnum \<Rightarrow> jsnum \<Rightarrow> bool" where
  "num_less NaN _ = False"
| "num_less _ NaN = False"
| "num_less (Fin a) (Fin b) = (a < b)"
| "num_less NegInf NegInf = False"
| "num_less NegInf _ = True"
| "num_less _ NegInf = False"
| "num_less PosInf _ = False"
| "num_less _ PosInf = True"

text \<open>\<^verbatim>\<open>v < n\<close> where the right operand is a number: the left operand is converted to a number.\<close>

definition js_less_num :: "jsval \<Rightarrow> jsnum \<Rightarrow> bool" where
  "js_less_num v n = num_less (to_number v) n"

section \<open>Runtime library\<close>

subsection \<open>SHA-256 and hexadecimal digests\<close>

type_synonym w32 = "32 word"

definition rotr :: "nat \<Rightarrow> w32 \<Rightarrow> w32" where
  "rotr n x = word_rotr n x"

definition Ch :: "w32 \<Rightarrow> w32 \<Rightarrow> w32 \<Rightarrow> w32" where
  "Ch x y z = (x AND y) XOR (NOT x AND z)"

definition Maj :: "w32 \<Rightarrow> w32 \<Rightarrow> w32 \<Rightarrow> w32" where
  "Maj x y z = (x AND y) XOR (x AND z) XOR (y AND z)"

definition bsig0 :: "w32 \<Rightarrow> w32" where
  "bsig0 x = rotr 2 x XOR rotr 13 x XOR rotr 22 x"

definition bsig1 :: "w32 \<Rightarrow> w32" where
  "bsig1 x = rotr 6 x XOR rotr 11 x XOR rotr 25 x"

definition ssig0 :: "w32 \<Rightarrow> w32" where
  "ssig0 x = rotr 7 x XOR rotr 18 x XOR drop_bit 3 x"

definition ssig1 :: "w32 \<Rightarrow> w32" where
  "ssig1 x = rotr 17 x XOR rotr 19 x XOR drop_bit 10 x"

text \<open>
  The round constants (the first 32 bits of the fractional parts of the cube roots of the
  first 64 primes) and the initial hash value (of the square roots of the first 8 primes).
\<close>

definition sha_K :: "w32 list" where
  "sha_K = [1116352408, 1899447441, 3049323471, 3921009573, 961987163, 1508970993, 2453635748, 2870763221,
     3624381080, 310598401, 607225278, 1426881987, 1925078388, 2162078206, 2614888103, 3248222580,
     3835390401, 4022224774, 264347078, 604807628, 770255983, 1249150122, 1555081692, 1996064986,
     2554220882, 2821834349, 2952996808, 3210313671, 3336571891, 3584528711, 113926993, 338241895,
     666307205, 773529912, 1294757372, 1396182291, 1695183700, 1986661051, 2177026350, 2456956037,
     2730485921, 2820302411, 3259730800, 3345764771, 3516065817, 3600352804, 4094571909, 275423344,
     430227734, 506948616, 659060556, 883997877, 958139571, 1322822218, 1537002063, 1747873779,
     1955562222, 2024104815, 2227730452, 2361852424, 2428436474, 2756734187, 3204031479, 3329325298]"

definition sha_H0 :: "w32 list" where
  "sha_H0 = [1779033703, 3144134277, 1013904242, 2773480762, 1359893119, 2600822924, 528734635, 1541459225]"

text \<open>The message, the byte \<open>0x80\<close>, zero bytes up to 56 modulo 64, and the bit length in 8 bytes.\<close>

definition sha_pad :: "string \<Rightarrow> nat list" where
  "sha_pad m =
     (let l = length m
      in map of_char m @ [128] @ replicate ((119 - l mod 64) mod 64) 0 @
         map (\<lambda>i. (8 * l) div 256 ^ i mod 256) (rev [0..<8]))"

fun be_words :: "nat list \<Rightarrow> w32 list" where
  "be_words (a # b # c # d # r) = word_of_nat (((a * 256 + b) * 256 + c) * 256 + d) # be_words r"
| "be_words _ = []"

fun sha_extend :: "nat \<Rightarrow> w32 list \<Rightarrow> w32 list" where
  "sha_extend 0 ws = ws"
| "sha_extend (Suc n) ws =
     (let l = length ws
      in sha_extend n (ws @ [ssig1 (ws ! (l - 2)) + ws ! (l - 7) + ssig0 (ws ! (l - 15)) + ws ! (l - 16)]))"

type_synonym sha_state = "w32 \<times> w32 \<times> w32 \<times> w32 \<times> w32 \<times> w32 \<times> w32 \<times> w32"

fun sha_round :: "sha_state \<Rightarrow> w32 \<times> w32 \<Rightarrow> sha_state" where
  "sha_round (a, b, c, d, e, f, g, h) (k, w) =
     (let t1 = h + bsig1 e + Ch e f g + k + w; t2 = bsig0 a + Maj a b c
      in (t1 + t2, a, b, c, d + t1, e, f, g))"

fun sha_block :: "sha_state \<Rightarrow> w32 list \<Rightarrow> sha_state" where
  "sha_block (a, b, c, d, e, f, g, h) ws =
     (case foldl sha_round (a, b, c, d, e, f, g, h) (zip sha_K (sha_extend 48 ws)) of
        (a', b', c', d', e', f', g', h') \<Rightarrow>
          (a + a', b + b', c + c', d + d', e + e', f + f', g + g', h + h'))"

fun sha_blocks :: "sha_state \<Rightarrow> w32 list \<Rightarrow> sha_state" where
  "sha_blocks st ws = (if length ws < 16 then st else sha_blocks (sha_block st (take 16 ws)) (drop 16 ws))"

declare sha_blocks.simps [simp del]

definition sha256 :: "string \<Rightarrow> w32 list" where
  "sha256 m =
     (case sha_blocks (sha_H0 ! 0, sha_H0 ! 1, sha_H0 ! 2, sha_H0 ! 3, sha_H0 ! 4, sha_H0 ! 5, sha_H0 ! 6, sha_H0 ! 7)
             (be_words (sha_pad m)) of
        (a, b, c, d, e, f, g, h) \<Rightarrow> [a, b, c, d, e, f, g, h])"

definition hex_digit :: "nat \<Rightarrow> char" where
  "hex_digit n = (if n < 10 then char_of (48 + n) else char_of (87 + n))"

definition hex32 :: "w32 \<Rightarrow> string" where
  "hex32 w = map (\<lambda>i. hex_digit (unat w div 16 ^ i mod 16)) (rev [0..<8])"

text \<open>\<^verbatim>\<open>crypto.createHash('sha256').update(s).digest('hex')\<close>\<close>

definition sha256_hex :: "string \<Rightarrow> string" where
  "sha256_hex s = concat (map hex32 (sha256 s))"

subsection \<open>Base64\<close>

definition b64_char :: "nat \<Rightarrow> char" where
  "b64_char n =
     (if n < 26 then char_of (65 + n)
      else if n < 52 then char_of (71 + n)
      else if n < 62 then char_of (n - 4)
      else if n = 62 then CHR ''+'' else CHR ''/'')"

text \<open>\<^verbatim>\<open>Buffer.from(s).toString('base64')\<close>: the standard alphabet, padded with \<^verbatim>\<open>=\<close>.\<close>

fun base64_encode :: "string \<Rightarrow> string" where
  "base64_encode (a # b # c # r) =
     (let x = of_char a :: nat; y = of_char b :: nat; z = of_char c :: nat
      in b64_char (x div 4) # b64_char ((x mod 4) * 16 + y div 16) #
         b64_char ((y mod 16) * 4 + z div 64) # b64_char (z mod 64) # base64_encode r)"
| "base64_encode [a, b] =
     (let x = of_char a :: nat; y = of_char b :: nat
      in [b64_char (x div 4), b64_char ((x mod 4) * 16 + y div 16), b64_char ((y mod 16) * 4), CHR ''=''])"
| "base64_encode [a] =
     (let x = of_char a :: nat
      in [b64_char (x div 4), b64_char ((x mod 4) * 16), CHR ''='', CHR ''=''])"
| "base64_encode [] = []"

text \<open>
  The value of a Base64 character. The decoder of \<^verbatim>\<open>Buffer.from(s, 'base64')\<close> also takes
  the URL-safe characters \<^verbatim>\<open>-\<close> and \<^verbatim>\<open>_\<close>.
\<close>

definition unbase64 :: "char \<Rightarrow> nat option" where
  "unbase64 c =
     (let n = (of_char c :: nat)
      in if 65 \<le> n \<and> n \<le> 90 then Some (n - 65)
         else if 97 \<le> n \<and> n \<le> 122 then Some (n - 71)
         else if 48 \<le> n \<and> n \<le> 57 then Some (n + 4)
         else if c = CHR ''+'' \<or> c = CHR ''-'' then Some 62
         else if c = CHR ''/'' \<or> c = CHR ''_'' then Some 63
         else None)"

fun sextets_bytes :: "nat list \<Rightarrow> string" where
  "sextets_bytes (p # q # r # s # rest) =
     char_of (p * 4 + q div 16) # char_of ((q mod 16) * 16 + r div 4) # char_of ((r mod 4) * 64 + s) #
     sextets_bytes rest"
| "sextets_bytes [p, q, r] = [char_of (p * 4 + q div 16), char_of ((q mod 16) * 16 + r div 4)]"
| "sextets_bytes [p, q] = [char_of (p * 4 + q div 16)]"
| "sextets_bytes _ = []"

text \<open>
  \<^verbatim>\<open>Buffer.from(s, 'base64')\<close> never fails: it stops at the first \<^verbatim>\<open>=\<close>, skips every
  character outside the alphabet and decodes what is left.
\<close>

definition base64_decode :: "string \<Rightarrow> string" where
  "base64_decode s = sextets_bytes (List.map_filter unbase64 (takeWhile (\<lambda>c. c \<noteq> CHR ''='') s))"

subsection \<open>JSON text\<close>

definition hex4 :: "nat \<Rightarrow> string" where
  "hex4 n = [hex_digit (n div 4096 mod 16), hex_digit (n div 256 mod 16), hex_digit (n div 16 mod 16), hex_digit (n mod 16)]"

definition quote_char :: "char \<Rightarrow> string" where
  "quote_char c =
     (let n = (of_char c :: nat)
      in if n = 34 then [CHR 0x5C, CHR 0x22]
         else if n = 92 then [CHR 0x5C, CHR 0x5C]
         else if n = 8 then [CHR 0x5C, CHR ''b'']
         else if n = 12 then [CHR 0x5C, CHR ''f'']
         else if n = 10 then [CHR 0x5C, CHR ''n'']
         else if n = 13 then [CHR 0x5C, CHR ''r'']
         else if n = 9 then [CHR 0x5C, CHR ''t'']
         else if n < 32 then [CHR 0x5C, CHR ''u''] @ hex4 n
         else [c])"

definition quote :: "string \<Rightarrow> string" where
  "quote s = CHR 0x22 # concat (map quote_char s) @ [CHR 0x22]"

text \<open>
  \<^verbatim>\<open>JSON.stringify(v)\<close> for a value that is not \<^verbatim>\<open>undefined\<close> (the server serialises
  objects and arrays only): a property whose value is \<^verbatim>\<open>undefined\<close> is left out, an
  \<^verbatim>\<open>undefined\<close> element of an array and a number that is not finite are \<^verbatim>\<open>null\<close>.
\<close>

fun stringify :: "jsval \<Rightarrow> string" where
  "stringify JUndefined = []"
| "stringify JNull = ''null''"
| "stringify (JBool b) = (if b then ''true'' else ''false'')"
| "stringify (JNum x) = (case x of Fin q \<Rightarrow> num_to_str x | _ \<Rightarrow> ''null'')"
| "stringify (JStr s) = quote s"
| "stringify (JArr xs) =
     ''['' @ intersperse '','' (map (\<lambda>x. if x = JUndefined then ''null'' else stringify x) xs) @ '']''"
| "stringify (JObj fs) =
     ''{'' @ intersperse '','' (map (\<lambda>kv. quote (fst kv) @ '':'' @ stringify (snd kv))
                                  (filter (\<lambda>kv. snd kv \<noteq> JUndefined) fs)) @ ''}''"

text \<open>White space of JSON text.\<close>

definition is_ws :: "char \<Rightarrow> bool" where
  "is_ws c = ((of_char c :: nat) \<in> {9, 10, 13, 32})"

definition skip_ws :: "string \<Rightarrow> string" where
  "skip_ws s = dropWhile is_ws s"

text \<open>
  A number literal at the head of the input: \<^verbatim>\<open>-? (0 | [1-9][0-9]*) (. [0-9]+)? ([eE] [+-]? [0-9]+)?\<close>.
\<close>

definition parse_number :: "string \<Rightarrow> (jsval \<times> string) option" where
  "parse_number s =
     (let neg = (s \<noteq> [] \<and> hd s = CHR ''-'');
          u = (if neg then tl s else s)
      in case scan_decimal u of (ip, dot, fp, e, r) \<Rightarrow>
           if ip = [] \<or> (hd ip = CHR ''0'' \<and> length ip > 1) \<or> (dot \<and> fp = []) then None
           else Some (JNum (Fin ((if neg then - 1 else 1) * decimal_value ip fp e)), r))"

text \<open>The UTF-8 bytes of a code point.\<close>

definition utf8 :: "nat \<Rightarrow> string" where
  "utf8 n =
     (if n < 128 then [char_of n]
      else if n < 2048 then [char_of (192 + n div 64), char_of (128 + n mod 64)]
      else if n < 65536 then
        [char_of (224 + n div 4096), char_of (128 + n div 64 mod 64), char_of (128 + n mod 64)]
      else [char_of (240 + n div 262144), char_of (128 + n div 4096 mod 64),
            char_of (128 + n div 64 mod 64), char_of (128 + n mod 64)])"

text \<open>
  The characters of a string literal: a byte of the text, or the code unit of a \<^verbatim>\<open>\u\<close> escape.
\<close>

datatype str_item = Raw char | Unit nat

definition hex4_val :: "string \<Rightarrow> nat option" where
  "hex4_val ds =
     (if length ds = 4 \<and> (\<forall>c \<in> set ds. radix_digit c \<noteq> None)
      then Some (foldl (\<lambda>a c. 16 * a + the (radix_digit c)) 0 ds) else None)"

definition unescape :: "char \<Rightarrow> char option" where
  "unescape e =
     (if e = CHR 0x22 \<or> e = CHR 0x5C \<or> e = CHR ''/'' then Some e
      else if e = CHR ''b'' then Some (CHR 0x08)
      else if e = CHR ''f'' then Some (CHR 0x0C)
      else if e = CHR ''n'' then Some (CHR 0x0A)
      else if e = CHR ''r'' then Some (CHR 0x0D)
      else if e = CHR ''t'' then Some (CHR 0x09)
      else None)"

text \<open>The input after the opening quote: the items up to the closing quote, and the rest.\<close>

fun parse_chars :: "str_item list \<Rightarrow> string \<Rightarrow> (str_item list \<times> string) option" where
  "parse_chars acc [] = None"
| "parse_chars acc (c # r) =
     (if c = CHR 0x22 then Some (rev acc, r)
      else if c = CHR 0x5C then
        (case r of
           [] \<Rightarrow> None
         | e # r' \<Rightarrow>
             if e = CHR ''u'' then
               (case hex4_val (take 4 r') of
                  None \<Rightarrow> None
                | Some n \<Rightarrow> parse_chars (Unit n # acc) (drop 4 r'))
             else (case unescape e of
                     None \<Rightarrow> None
                   | Some x \<Rightarrow> parse_chars (Raw x # acc) r'))
      else if (of_char c :: nat) < 32 then None
      else parse_chars (Raw c # acc) r)"

text \<open>
  The bytes of the items: a high surrogate followed by a low surrogate is one code point.
\<close>

fun encode_items :: "str_item list \<Rightarrow> string" where
  "encode_items [] = []"
| "encode_items (Raw c # xs) = c # encode_items xs"
| "encode_items (Unit h # Unit l # xs) =
     (if 55296 \<le> h \<and> h < 56320 \<and> 56320 \<le> l \<and> l < 57344
      then utf8 (65536 + (h - 55296) * 1024 + (l - 56320)) @ encode_items xs
      else utf8 h @ encode_items (Unit l # xs))"
| "encode_items (Unit u # xs) = utf8 u @ encode_items xs"

definition parse_string :: "string \<Rightarrow> (string \<times> string) option" where
  "parse_string s = (case parse_chars [] s of None \<Rightarrow> None | Some (us, r) \<Rightarrow> Some (encode_items us, r))"

text \<open>
  A value at the head of the input, and the rest. \<open>parse_elems\<close> reads the elements of an
  array after \<^verbatim>\<open>[\<close> or after a comma, \<open>parse_members\<close> the members of an object after
  \<^verbatim>\<open>{\<close> or after a comma. A member whose key is there already replaces the value
  (the last one wins). The tests on the length of the rest hold always
  (\<open>parse_value_shorter\<close>); they make the recursion well-founded by construction.
\<close>

function (sequential) parse_value :: "string \<Rightarrow> (jsval \<times> string) option"
  and parse_elems :: "jsval list \<Rightarrow> string \<Rightarrow> (jsval \<times> string) option"
  and parse_members :: "obj \<Rightarrow> string \<Rightarrow> (jsval \<times> string) option"
where
  "parse_value s =
     (case skip_ws s of
        [] \<Rightarrow> None
      | c # r \<Rightarrow>
          if c = CHR ''{'' then
            (case skip_ws r of
               [] \<Rightarrow> None
             | d # r' \<Rightarrow> if d = CHR ''}'' then Some (JObj [], r') else parse_members [] r)
          else if c = CHR ''['' then
            (case skip_ws r of
               [] \<Rightarrow> None
             | d # r' \<Rightarrow> if d = CHR '']'' then Some (JArr [], r') else parse_elems [] r)
          else if c = CHR 0x22 then
            (case parse_string r of None \<Rightarrow> None | Some (t, r') \<Rightarrow> Some (JStr t, r'))
          else if take 4 (c # r) = ''true'' then Some (JBool True, drop 4 (c # r))
          else if take 5 (c # r) = ''false'' then Some (JBool False, drop 5 (c # r))
          else if take 4 (c # r) = ''null'' then Some (JNull, drop 4 (c # r))
          else parse_number (c # r))"
| "parse_elems acc s =
     (case parse_value s of
        None \<Rightarrow> None
      | Some (v, r) \<Rightarrow>
          (case skip_ws r of
             [] \<Rightarrow> None
           | c # r' \<Rightarrow>
               if c = CHR '','' then (if length r' < length s then parse_elems (acc @ [v]) r' else None)
               else if c = CHR '']'' then Some (JArr (acc @ [v]), r')
               else None))"
| "parse_members acc s =
     (case skip_ws s of
        [] \<Rightarrow> None
      | q # r \<Rightarrow>
          if q \<noteq> CHR 0x22 then None
          else (case parse_string r of
                  None \<Rightarrow> None
                | Some (k, r1) \<Rightarrow>
                    (case skip_ws r1 of
                       [] \<Rightarrow> None
                     | c # r2 \<Rightarrow>
                         if c \<noteq> CHR '':'' \<or> \<not> length r2 < length s then None
                         else (case parse_value r2 of
                                 None \<Rightarrow> None
                               | Some (v, r3) \<Rightarrow>
                                   (case skip_ws r3 of
                                      [] \<Rightarrow> None
                                    | d # r4 \<Rightarrow>
                                        if d = CHR '','' then
                                          (if length r4 < length s
                                           then parse_members (AList.update k v acc) r4 else None)
                                        else if d = CHR ''}'' then Some (JObj (AList.update k v acc), r4)
                                        else None)))))"
  by pat_completeness auto
termination
proof (relation "measure (\<lambda>x. case x of
          Inl s \<Rightarrow> 2 * length s
        | Inr (Inl (acc, s)) \<Rightarrow> 2 * length s + 1
        | Inr (Inr (acc, s)) \<Rightarrow> 2 * length s + 1)", goal_cases)
  case 1
  show ?case by simp
next
  case (2 s c r d r')
  have "length (skip_ws s) \<le> length s"
    by (simp add: skip_ws_def length_dropWhile_le)
  with 2 show ?case by simp
next
  case (3 s c r d r')
  have "length (skip_ws s) \<le> length s"
    by (simp add: skip_ws_def length_dropWhile_le)
  with 3 show ?case by simp
qed simp_all

declare parse_value.simps [simp del] parse_elems.simps [simp del] parse_members.simps [simp del]

text \<open>\<^verbatim>\<open>JSON.parse(s)\<close>: \<open>None\<close> is the \<^verbatim>\<open>SyntaxError\<close>.\<close>

definition JSON_parse :: "string \<Rightarrow> jsval option" where
  "JSON_parse s =
     (case parse_value s of
        None \<Rightarrow> None
      | Some (v, r) \<Rightarrow> if skip_ws r = [] then Some v else None)"

subsection \<open>String and array methods\<close>

text \<open>\<^verbatim>\<open>s.split(c)\<close> for a one-character separator.\<close>

fun split :: "char \<Rightarrow> string \<Rightarrow> string list" where
  "split c [] = [[]]"
| "split c (x # xs) =
     (if x = c then [] # split c xs
      else (let ps = split c xs in (x # hd ps) # tl ps))"

text \<open>\<^verbatim>\<open>s.replace(pat, rep)\<close> for a string pattern: the first occurrence only.\<close>

fun replace :: "string \<Rightarrow> string \<Rightarrow> string \<Rightarrow> string" where
  "replace pat rep [] = (if pat = [] then rep else [])"
| "replace pat rep (x # xs) =
     (if take (length pat) (x # xs) = pat then rep @ drop (length pat) (x # xs)
      else x # replace pat rep xs)"

definition startsWith :: "string \<Rightarrow> string \<Rightarrow> bool" where
  "startsWith s p = (take (length p) s = p)"

text \<open>\<^verbatim>\<open>parseInt(s, 10)\<close>\<close>

definition parseInt :: "string \<Rightarrow> jsnum" where
  "parseInt s0 =
     (let s = trimStart s0;
          neg = (s \<noteq> [] \<and> hd s = CHR ''-'');
          u = (if s \<noteq> [] \<and> (hd s = CHR ''-'' \<or> hd s = CHR ''+'') then tl s else s);
          ds = takeWhile is_digit u
      in if ds = [] then NaN
         else Fin (of_int ((if neg then - 1 else 1) * int (digits_val ds))))"

text \<open>\<^verbatim>\<open>xs.findIndex(p)\<close>: \<open>None\<close> is \<^verbatim>\<open>-1\<close>.\<close>

fun findIndex :: "('a \<Rightarrow> bool) \<Rightarrow> 'a list \<Rightarrow> nat option" where
  "findIndex p [] = None"
| "findIndex p (x # xs) =
     (if p x then Some 0 else (case findIndex p xs of None \<Rightarrow> None | Some i \<Rightarrow> Some (Suc i)))"

text \<open>
  The characters of a string as JavaScript counts them (UTF-16 code units), each as a
  string: a character of one, two or three bytes is one code unit, a character of four
  bytes is a pair of surrogates.
\<close>

definition surrogates :: "string \<Rightarrow> string list" where
  "surrogates bs =
     (let b = map (of_char :: char \<Rightarrow> nat) bs;
          cp = (b ! 0 mod 8) * 262144 + (b ! 1 mod 64) * 4096 + (b ! 2 mod 64) * 64 + b ! 3 mod 64
      in if length bs = 4 \<and> 65536 \<le> cp
         then [utf8 (55296 + (cp - 65536) div 1024), utf8 (56320 + (cp - 65536) mod 1024)]
         else [bs])"

fun code_units :: "string \<Rightarrow> string list" where
  "code_units [] = []"
| "code_units (c # s) =
     (let n = (of_char c :: nat)
      in if n < 192 then [c] # code_units s
         else if n < 224 then (c # take 1 s) # code_units (drop 1 s)
         else if n < 240 then (c # take 2 s) # code_units (drop 2 s)
         else surrogates (c # take 3 s) @ code_units (drop 3 s))"

text \<open>
  The own enumerable properties of a value, which the spread \<^verbatim>\<open>{ ...v }\<close> copies: the
  properties of an object, the indexed elements of an array and the indexed characters
  of a string; nothing for the other values.
\<close>

fun own_props :: "jsval \<Rightarrow> obj" where
  "own_props (JObj fs) = fs"
| "own_props (JArr xs) = zip (map nat_digits [0..<length xs]) xs"
| "own_props (JStr s) = zip (map nat_digits [0..<length (code_units s)]) (map JStr (code_units s))"
| "own_props _ = []"

text \<open>
  \<^verbatim>\<open>{ ...a, ...b }\<close>: the properties of \<open>a\<close>, each property of \<open>b\<close> replacing the value
  of the same key or coming after.
\<close>

definition spread :: "obj \<Rightarrow> obj \<Rightarrow> obj" where
  "spread a b = foldl (\<lambda>acc kv. AList.update (fst kv) (snd kv) acc) a b"

section \<open>The server\<close>

definition SECRET :: string where
  "SECRET = ''change_this_secret_in_production''"

subsection \<open>The collection files\<close>

text \<open>
  A collection file is represented by the array that \<open>readJson\<close> returns for it: the empty
  array when the file is absent or is not a JSON array, the parsed records otherwise.
  Every record the server writes is an object. \<open>writeJson\<close> serialises with
  \<^verbatim>\<open>JSON.stringify\<close>, so what a later \<open>readJson\<close> returns is the JSON view of the written
  data: a property that is \<^verbatim>\<open>undefined\<close> is gone, a number that is not finite is \<^verbatim>\<open>null\<close>.
\<close>

fun file_val :: "jsval \<Rightarrow> jsval" where
  "file_val (JNum x) = (case x of Fin q \<Rightarrow> JNum x | _ \<Rightarrow> JNull)"
| "file_val (JArr xs) = JArr (map (\<lambda>x. if x = JUndefined then JNull else file_val x) xs)"
| "file_val (JObj fs) =
     JObj (map (\<lambda>kv. (fst kv, file_val (snd kv))) (filter (\<lambda>kv. snd kv \<noteq> JUndefined) fs))"
| "file_val v = v"

definition file_obj :: "obj \<Rightarrow> obj" where
  "file_obj fs = map (\<lambda>kv. (fst kv, file_val (snd kv))) (filter (\<lambda>kv. snd kv \<noteq> JUndefined) fs)"

definition writeJson :: "obj list \<Rightarrow> obj list" where
  "writeJson data = map file_obj data"

record files =
  usersFile :: "obj list"
  expensesFile :: "obj list"
  goalsFile :: "obj list"

subsection \<open>Passwords and tokens\<close>

text \<open>
  \<open>hashPassword\<close>: the digest of \<^verbatim>\<open>password + salt\<close>. \<^verbatim>\<open>update\<close> takes a string and throws
  a \<^verbatim>\<open>TypeError\<close> (\<open>None\<close>) on a number, which the sum is when neither operand is a
  string, an array or an object.
\<close>

definition hashPassword :: "jsval \<Rightarrow> jsval \<Rightarrow> string option" where
  "hashPassword password salt =
     (case js_add password salt of JStr s \<Rightarrow> Some (sha256_hex s) | _ \<Rightarrow> None)"

text \<open>\<open>generateToken\<close>, with the value of \<^verbatim>\<open>Date.now()\<close> as \<open>now\<close>.\<close>

definition generateToken :: "int \<Rightarrow> jsval \<Rightarrow> string" where
  "generateToken now userId =
     (let payload = JObj [(''userId'', userId), (''exp'', JNum (Fin (of_int (now + 24 * 60 * 60 * 1000))))];
          payloadString = stringify payload;
          base64Payload = base64_encode payloadString;
          signature = sha256_hex (base64Payload @ SECRET)
      in base64Payload @ ''.'' @ signature)"

text \<open>
  \<open>verifyToken\<close>: \<open>JNull\<close> is the \<^verbatim>\<open>null\<close> of a rejection. The \<^verbatim>\<open>try\<close> block catches the
  \<^verbatim>\<open>SyntaxError\<close> of \<^verbatim>\<open>JSON.parse\<close> and the \<^verbatim>\<open>TypeError\<close> of \<^verbatim>\<open>payload.exp\<close> on \<^verbatim>\<open>null\<close>.
\<close>

definition verifyToken :: "int \<Rightarrow> string \<Rightarrow> jsval" where
  "verifyToken now token =
     (if token = [] then JNull
      else (let parts = split (CHR ''.'') token
            in if length parts \<noteq> 2 then JNull
               else (let base64Payload = parts ! 0; signature = parts ! 1;
                         expectedSig = sha256_hex (base64Payload @ SECRET)
                     in if signature \<noteq> expectedSig then JNull
                        else (let payloadString = base64_decode base64Payload
                              in case JSON_parse payloadString of
                                   None \<Rightarrow> JNull
                                 | Some payload \<Rightarrow>
                                     (case get_prop payload ''exp'' of
                                        None \<Rightarrow> JNull
                                      | Some expiry \<Rightarrow>
                                          if js_less_num expiry (Fin (of_int now)) then JNull
                                          else payload)))))"

subsection \<open>Requests\<close>

text \<open>\<open>parseBody\<close>, on the text of the request body.\<close>

definition parseBody :: "string \<Rightarrow> jsval" where
  "parseBody body = (case JSON_parse (if body = [] then ''{}'' else body) of Some parsed \<Rightarrow> parsed | None \<Rightarrow> JObj [])"

datatype response = Response nat jsval | NoBody nat

text \<open>What a route handler does: it throws, or it replies and leaves a collection behind.\<close>

datatype 'a result = TypeError | Reply response 'a

definition error_body :: "string \<Rightarrow> jsval" where
  "error_body msg = JObj [(''error'', JStr msg)]"

text \<open>
  The identifier of a new record,
  \<^verbatim>\<open>xs.length ? xs[xs.length - 1].id + 1 : 1\<close> (lines 220, 280 and 493).
\<close>

definition nextId :: "obj list \<Rightarrow> jsval" where
  "nextId xs = (if xs \<noteq> [] then js_add (field (last xs) ''id'') (JNum (Fin 1)) else JNum (Fin 1))"

text \<open>\<^verbatim>\<open>POST /api/register\<close>; \<open>salt\<close> is \<^verbatim>\<open>crypto.randomBytes(16).toString('hex')\<close>.\<close>

definition post_register :: "string \<Rightarrow> jsval \<Rightarrow> obj list \<Rightarrow> (obj list) result" where
  "post_register salt body users =
     (case (get_prop body ''username'', get_prop body ''password'') of
        (Some username, Some password) \<Rightarrow>
          if \<not> truthy username \<or> \<not> truthy password then
            Reply (Response 400 (error_body ''Username and password are required'')) users
          else if list_ex (\<lambda>u. strict_eq (field u ''username'') username) users then
            Reply (Response 409 (error_body ''Username already exists'')) users
          else (case hashPassword password (JStr salt) of
                  None \<Rightarrow> TypeError
                | Some hashed \<Rightarrow>
                    (let user = [(''id'', nextId users), (''username'', username),
                                 (''salt'', JStr salt), (''hashed'', JStr hashed)]
                     in Reply (Response 201 (JObj [(''message'', JStr ''User registered successfully'')]))
                          (writeJson (users @ [user]))))
      | _ \<Rightarrow> TypeError)"

text \<open>\<^verbatim>\<open>POST /api/login\<close>\<close>

definition post_login :: "int \<Rightarrow> jsval \<Rightarrow> obj list \<Rightarrow> (obj list) result" where
  "post_login now body users =
     (case (get_prop body ''username'', get_prop body ''password'') of
        (Some username, Some password) \<Rightarrow>
          (case find (\<lambda>u. strict_eq (field u ''username'') username) users of
             None \<Rightarrow> Reply (Response 401 (error_body ''Invalid username or password'')) users
           | Some user \<Rightarrow>
               (case hashPassword password (field user ''salt'') of
                  None \<Rightarrow> TypeError
                | Some hashed \<Rightarrow>
                    if \<not> strict_eq (JStr hashed) (field user ''hashed'') then
                      Reply (Response 401 (error_body ''Invalid username or password'')) users
                    else Reply (Response 200 (JObj [(''token'', JStr (generateToken now (field user ''id'')))]))
                           users))
      | _ \<Rightarrow> TypeError)"

text \<open>
  The session gate (lines 252 to 261): the reply to a request without a valid token, or
  the user identifier of the payload.
\<close>

definition bearer :: "string option \<Rightarrow> string" where
  "bearer authorization =
     (let authHeader = (case authorization of None \<Rightarrow> [] | Some h \<Rightarrow> h)
      in trim (replace ''Bearer '' [] authHeader))"

definition session_gate :: "int \<Rightarrow> string option \<Rightarrow> response + jsval" where
  "session_gate now authorization =
     (let payload = verifyToken now (bearer authorization)
      in case (if \<not> truthy payload then None else get_prop payload ''userId'') of
           None \<Rightarrow> Inl (Response 401 (error_body ''Unauthorized''))
         | Some userId \<Rightarrow> Inr userId)"

text \<open>\<^verbatim>\<open>GET /api/expenses\<close> and \<^verbatim>\<open>GET /api/goals\<close>\<close>

definition list_records :: "jsval \<Rightarrow> obj list \<Rightarrow> obj list" where
  "list_records userId records = filter (\<lambda>e. strict_eq (field e ''userId'') userId) records"

definition get_records :: "jsval \<Rightarrow> obj list \<Rightarrow> (obj list) result" where
  "get_records userId records = Reply (Response 200 (JArr (map JObj (list_records userId records)))) records"

text \<open>\<^verbatim>\<open>POST /api/expenses\<close>; \<open>nowIso\<close> is \<^verbatim>\<open>new Date().toISOString()\<close>.\<close>

definition post_expenses :: "string \<Rightarrow> jsval \<Rightarrow> jsval \<Rightarrow> obj list \<Rightarrow> (obj list) result" where
  "post_expenses nowIso userId body expenses =
     (case (get_prop body ''category'', get_prop body ''amount'', get_prop body ''date'') of
        (Some category, Some amount, Some date) \<Rightarrow>
          if \<not> truthy category \<or> \<not> truthy amount then
            Reply (Response 400 (error_body ''Category and amount are required'')) expenses
          else (let expense = [(''id'', nextId expenses), (''userId'', userId), (''category'', category),
                               (''amount'', JNum (to_number amount)),
                               (''date'', if truthy date then date else JStr nowIso)]
                in Reply (Response 201 (JObj expense)) (writeJson (expenses @ [expense])))
      | _ \<Rightarrow> TypeError)"

text \<open>\<^verbatim>\<open>POST /api/goals\<close>\<close>

definition post_goals :: "jsval \<Rightarrow> jsval \<Rightarrow> obj list \<Rightarrow> (obj list) result" where
  "post_goals userId body goals =
     (case (get_prop body ''title'', get_prop body ''target'', get_prop body ''frequency'') of
        (Some title, Some target, Some frequency) \<Rightarrow>
          if \<not> truthy title \<or> \<not> truthy target then
            Reply (Response 400 (error_body ''Title and target are required'')) goals
          else (let goal = [(''id'', nextId goals), (''userId'', userId), (''title'', title),
                            (''target'', JNum (to_number target)),
                            (''frequency'', if truthy frequency then frequency else JStr ''monthly'')]
                in Reply (Response 201 (JObj goal)) (writeJson (goals @ [goal])))
      | _ \<Rightarrow> TypeError)"

text \<open>
  \<^verbatim>\<open>PUT /api/expenses/:id\<close> and \<^verbatim>\<open>PUT /api/goals/:id\<close>, the same code up to the message
  of the 404 reply; \<open>rid\<close> is the \<^verbatim>\<open>parseInt\<close> of the last segment of the path.
\<close>

definition updateById :: "string \<Rightarrow> jsval \<Rightarrow> jsnum \<Rightarrow> jsval \<Rightarrow> obj list \<Rightarrow> (obj list) result" where
  "updateById msg userId rid updates records =
     (case findIndex (\<lambda>e. strict_eq (field e ''id'') (JNum rid) \<and> strict_eq (field e ''userId'') userId) records of
        None \<Rightarrow> Reply (Response 404 (error_body msg)) records
      | Some index \<Rightarrow>
          (let records' = records[index := spread (records ! index) (own_props updates)]
           in Reply (Response 200 (JObj (records' ! index))) (writeJson records')))"

text \<open>\<^verbatim>\<open>DELETE /api/expenses/:id\<close> and \<^verbatim>\<open>DELETE /api/goals/:id\<close>\<close>

definition deleteById :: "string \<Rightarrow> jsval \<Rightarrow> jsnum \<Rightarrow> obj list \<Rightarrow> (obj list) result" where
  "deleteById msg userId rid records =
     (case findIndex (\<lambda>e. strict_eq (field e ''id'') (JNum rid) \<and> strict_eq (field e ''userId'') userId) records of
        None \<Rightarrow> Reply (Response 404 (error_body msg)) records
      | Some index \<Rightarrow>
          (let removed = records ! index
           in Reply (Response 200 (JObj removed)) (writeJson (take index records @ drop (Suc index) records))))"


subsection \<open>The dispatcher\<close>

record request =
  httpMethod :: string
  pathname :: string
  authorization :: "string option"
  body :: string

text \<open>
  What the handler reads from its environment: \<^verbatim>\<open>Date.now()\<close>,
  \<^verbatim>\<open>new Date().toISOString()\<close> and \<^verbatim>\<open>crypto.randomBytes(16).toString('hex')\<close>.
\<close>

record env =
  dateNow :: int
  dateIso :: string
  randomHex :: string

text \<open>
  The outcome of \<open>handleApi\<close>: the request is not under \<^verbatim>\<open>/api\<close> (the function returns
  \<^verbatim>\<open>false\<close>), the handler throws, the route is one of those outside this development
  (summary, advice, AI advice, profile), or there is a reply and the files are as given.
\<close>

datatype outcome = NotApi | Threw | Outside | Replied response files

definition on_users :: "files \<Rightarrow> (obj list) result \<Rightarrow> outcome" where
  "on_users fs r = (case r of TypeError \<Rightarrow> Threw | Reply rsp xs \<Rightarrow> Replied rsp (fs\<lparr>usersFile := xs\<rparr>))"

definition on_expenses :: "files \<Rightarrow> (obj list) result \<Rightarrow> outcome" where
  "on_expenses fs r = (case r of TypeError \<Rightarrow> Threw | Reply rsp xs \<Rightarrow> Replied rsp (fs\<lparr>expensesFile := xs\<rparr>))"

definition on_goals :: "files \<Rightarrow> (obj list) result \<Rightarrow> outcome" where
  "on_goals fs r = (case r of TypeError \<Rightarrow> Threw | Reply rsp xs \<Rightarrow> Replied rsp (fs\<lparr>goalsFile := xs\<rparr>))"

definition path_id :: "string \<Rightarrow> jsnum" where
  "path_id p = parseInt (last (split (CHR ''/'') p))"

definition handleApi :: "env \<Rightarrow> files \<Rightarrow> request \<Rightarrow> outcome" where
  "handleApi ev fs req =
     (let m = httpMethod req; p = pathname req
      in if \<not> startsWith p ''/api'' then NotApi
         else if m = ''OPTIONS'' then Replied (NoBody 204) fs
         else if m = ''POST'' \<and> p = ''/api/register'' then
           on_users fs (post_register (randomHex ev) (parseBody (body req)) (usersFile fs))
         else if m = ''POST'' \<and> p = ''/api/login'' then
           on_users fs (post_login (dateNow ev) (parseBody (body req)) (usersFile fs))
         else (case session_gate (dateNow ev) (authorization req) of
                 Inl unauthorized \<Rightarrow> Replied unauthorized fs
               | Inr userId \<Rightarrow>
                   if m = ''GET'' \<and> p = ''/api/expenses'' then
                     on_expenses fs (get_records userId (expensesFile fs))
                   else if m = ''POST'' \<and> p = ''/api/expenses'' then
                     on_expenses fs (post_expenses (dateIso ev) userId (parseBody (body req)) (expensesFile fs))
                   else if m = ''PUT'' \<and> startsWith p ''/api/expenses/'' then
                     on_expenses fs (updateById ''Expense not found'' userId (path_id p)
                                       (parseBody (body req)) (expensesFile fs))
                   else if m = ''DELETE'' \<and> startsWith p ''/api/expenses/'' then
                     on_expenses fs (deleteById ''Expense not found'' userId (path_id p) (expensesFile fs))
                   else if m = ''GET'' \<and> p = ''/api/summary'' then Outside
                   else if m = ''GET'' \<and> p = ''/api/advice'' then Outside
                   else if m = ''POST'' \<and> p = ''/api/ai-advice'' then Outside
                   else if m = ''GET'' \<and> p = ''/api/goals'' then
                     on_goals fs (get_records userId (goalsFile fs))
                   else if m = ''POST'' \<and> p = ''/api/goals'' then
                     on_goals fs (post_goals userId (parseBody (body req)) (goalsFile fs))
                   else if m = ''PUT'' \<and> startsWith p ''/api/goals/'' then
                     on_goals fs (updateById ''Goal not found'' userId (path_id p)
                                    (parseBody (body req)) (goalsFile fs))
                   else if m = ''DELETE'' \<and> startsWith p ''/api/goals/'' then
                     on_goals fs (deleteById ''Goal not found'' userId (path_id p) (goalsFile fs))
                   else if m = ''GET'' \<and> p = ''/api/profile'' then Outside
                   else if m = ''PUT'' \<and> p = ''/api/profile'' then Outside
                   else Replied (Response 404 (error_body ''API route not found'')) fs))"

section \<open>Notions of the statements\<close>

text \<open>
  A collection as \<open>readJson\<close> returns it: every record is its own JSON view (no property is
  \<^verbatim>\<open>undefined\<close>, no number is \<^verbatim>\<open>NaN\<close> or infinite). The empty collection is one, and so
  is everything \<open>writeJson\<close> leaves behind (\<open>stored_writeJson\<close>).
\<close>

definition stored :: "obj list \<Rightarrow> bool" where
  "stored records = (\<forall>r \<in> set records. file_obj r = r)"

text \<open>The identifiers of the records of a collection are the natural numbers \<open>ns\<close>, in storage order.\<close>

definition ids_are :: "nat list \<Rightarrow> obj list \<Rightarrow> bool" where
  "ids_are ns records = (map (\<lambda>r. field r ''id'') records = map (\<lambda>n. JNum (Fin (of_nat n))) ns)"

text \<open>
  The collection after a list of requests to one creating route, sent one after the
  other, each of which is answered with 201; \<open>None\<close> when one of them is not.
\<close>

fun created :: "response \<Rightarrow> bool" where
  "created (Response st b) = (st = 201)"
| "created (NoBody st) = False"

fun create_all :: "('b \<Rightarrow> obj list \<Rightarrow> (obj list) result) \<Rightarrow> 'b list \<Rightarrow> obj list \<Rightarrow> obj list option" where
  "create_all h [] records = Some records"
| "create_all h (b # bs) records =
     (case h b records of
        TypeError \<Rightarrow> None
      | Reply rsp records' \<Rightarrow> if created rsp then create_all h bs records' else None)"


section \<open>Properties\<close>

subsection \<open>Comparison and search\<close>

lemma strict_eq_imp_eq: "strict_eq a b \<Longrightarrow> a = b"
  by (cases a; cases b) auto

lemma findIndex_None: "findIndex p xs = None \<longleftrightarrow> (\<forall>x \<in> set xs. \<not> p x)"
  by (induction xs) (auto split: option.splits)

lemma findIndex_Some: "findIndex p xs = Some i \<Longrightarrow> i < length xs \<and> p (xs ! i)"
  by (induction xs arbitrary: i) (auto split: option.splits if_splits)

subsection \<open>Splitting, digests and Base64\<close>

lemma split_not_Nil: "split c s \<noteq> []"
  by (induction s) (auto simp: Let_def)

lemma split_no_sep: "c \<notin> set s \<Longrightarrow> split c s = [s]"
  by (induction s) (auto simp: Let_def)

lemma split_append_sep: "c \<notin> set a \<Longrightarrow> split c (a @ c # b) = a # split c b"
  by (induction a) (auto simp: Let_def)

lemma length_split: "length (split c s) = Suc (length (filter (\<lambda>x. x = c) s))"
proof (induction s)
  case Nil
  show ?case by simp
next
  case (Cons x xs)
  have "length (tl (split c xs)) = length (split c xs) - 1" by simp
  with Cons split_not_Nil [of c xs] show ?case
    by (cases "split c xs") (auto simp: Let_def)
qed

lemma hex_digit_of_char: "n < 16 \<Longrightarrow> of_char (hex_digit n) = (if n < 10 then 48 + n else 87 + n)"
  by (simp add: hex_digit_def)

lemma hex_digit_not_dot: "n < 16 \<Longrightarrow> hex_digit n \<noteq> CHR ''.''"
proof
  assume "n < 16" and "hex_digit n = CHR ''.''"
  then have "(if n < 10 then 48 + n else 87 + n) = (of_char (CHR ''.'') :: nat)"
    using hex_digit_of_char [of n] by simp
  then show False by (simp split: if_splits)
qed

lemma hex32_no_dot: "CHR ''.'' \<notin> set (hex32 w)"
proof
  assume "CHR ''.'' \<in> set (hex32 w)"
  then obtain i where "hex_digit (unat w div 16 ^ i mod 16) = CHR ''.''"
    by (auto simp: hex32_def)
  then show False
    using hex_digit_not_dot [of "unat w div 16 ^ i mod 16"] by simp
qed

lemma sha256_hex_no_dot: "CHR ''.'' \<notin> set (sha256_hex s)"
  by (auto simp: sha256_hex_def hex32_no_dot)

lemma b64_char_of_char:
  "n < 64 \<Longrightarrow> (of_char (b64_char n) :: nat) =
     (if n < 26 then 65 + n else if n < 52 then 71 + n else if n < 62 then n - 4 else if n = 62 then 43 else 47)"
  by (simp add: b64_char_def)

lemma b64_char_plain: "n < 64 \<Longrightarrow> b64_char n \<noteq> CHR ''.'' \<and> b64_char n \<noteq> CHR ''=''"
proof -
  assume n: "n < 64"
  have "(of_char (b64_char n) :: nat) \<noteq> 46 \<and> (of_char (b64_char n) :: nat) \<noteq> 61"
    using n by (auto simp: b64_char_of_char)
  then show ?thesis by auto
qed

lemma unbase64_b64_char: "n < 64 \<Longrightarrow> unbase64 (b64_char n) = Some n"
proof -
  assume n: "n < 64"
  have e: "b64_char n = c \<longleftrightarrow> (of_char (b64_char n) :: nat) = of_char c" for c
    by simp
  have c: "b64_char n = CHR ''+'' \<longleftrightarrow> n = 62" "b64_char n = CHR ''/'' \<longleftrightarrow> n = 63"
    "b64_char n \<noteq> CHR ''-''" "b64_char n \<noteq> CHR ''_''"
    using n unfolding e by (auto simp: b64_char_of_char)
  show ?thesis
    using n c by (auto simp: unbase64_def Let_def b64_char_of_char)
qed


lemma sextet_bounds:
  fixes x y z :: nat
  assumes "x < 256" "y < 256" "z < 256"
  shows "x div 4 < 64" "(x mod 4) * 16 + y div 16 < 64" "(y mod 16) * 4 + z div 64 < 64" "z mod 64 < 64"
    "(x mod 4) * 16 < 64" "(y mod 16) * 4 < 64"
  using assms by auto

lemma group_bytes_1:
  fixes x y :: nat
  assumes "y < 256"
  shows "(x div 4) * 4 + ((x mod 4) * 16 + y div 16) div 16 = x"
proof -
  have "y div 16 < 16" using assms by auto
  then have "((x mod 4) * 16 + y div 16) div 16 = x mod 4" by simp
  then show ?thesis by simp
qed

lemma group_bytes_2:
  fixes x y z :: nat
  assumes "y < 256" "z < 256"
  shows "(((x mod 4) * 16 + y div 16) mod 16) * 16 + ((y mod 16) * 4 + z div 64) div 4 = y"
proof -
  have a: "y div 16 < 16" using assms by auto
  have b: "z div 64 < 4" using assms by auto
  have "((x mod 4) * 16 + y div 16) mod 16 = y div 16" using a by simp
  moreover have "((y mod 16) * 4 + z div 64) div 4 = y mod 16" using b by simp
  ultimately show ?thesis by simp
qed

lemma group_bytes_3:
  fixes y z :: nat
  assumes "z < 256"
  shows "(((y mod 16) * 4 + z div 64) mod 4) * 64 + z mod 64 = z"
proof -
  have b: "z div 64 < 4" using assms by auto
  then have "((y mod 16) * 4 + z div 64) mod 4 = z div 64" by simp
  then show ?thesis by simp
qed

lemma base64_encode_chars:
  "set (base64_encode s) \<subseteq> insert (CHR ''='') (b64_char ` {..<64})"
proof (induction s rule: base64_encode.induct)
  case (1 a b c r)
  note bd = sextet_bounds [of "of_char a" "of_char b" "of_char c", OF nat_of_char_less_256 nat_of_char_less_256 nat_of_char_less_256]
  have "set (base64_encode r) \<subseteq> insert (CHR ''='') (b64_char ` {..<64})"
    using 1 by simp
  with bd show ?case
    by (simp add: Let_def)
next
  case (2 a b)
  note bd = sextet_bounds [of "of_char a" "of_char b" 0, OF nat_of_char_less_256 nat_of_char_less_256]
  from bd show ?case
    by (simp add: Let_def)
next
  case (3 a)
  note bd = sextet_bounds [of "of_char a" 0 0, OF nat_of_char_less_256]
  from bd show ?case
    by (simp add: Let_def)
next
  case 4
  then show ?case by simp
qed

lemma base64_encode_no_dot: "CHR ''.'' \<notin> set (base64_encode s)"
proof
  assume "CHR ''.'' \<in> set (base64_encode s)"
  with base64_encode_chars [of s] have "CHR ''.'' \<in> insert (CHR ''='') (b64_char ` {..<64})"
    by blast
  then obtain n where "n < 64" and "b64_char n = CHR ''.''"
    by auto
  with b64_char_plain [of n] show False
    by simp
qed

lemma decode_group:
  assumes "p < 64" "q < 64" "r < 64" "s < 64"
  shows "List.map_filter unbase64 (takeWhile (\<lambda>c. c \<noteq> CHR ''='') (b64_char p # b64_char q # b64_char r # b64_char s # cs))
         = p # q # r # s # List.map_filter unbase64 (takeWhile (\<lambda>c. c \<noteq> CHR ''='') cs)"
  using assms b64_char_plain [of p] b64_char_plain [of q] b64_char_plain [of r] b64_char_plain [of s]
    unbase64_b64_char [of p] unbase64_b64_char [of q] unbase64_b64_char [of r] unbase64_b64_char [of s]
  by (simp add: List.map_filter_simps)

lemma decode_group_3:
  assumes "p < 64" "q < 64" "r < 64"
  shows "List.map_filter unbase64 (takeWhile (\<lambda>c. c \<noteq> CHR ''='') [b64_char p, b64_char q, b64_char r, CHR ''=''])
         = [p, q, r]"
  using assms b64_char_plain [of p] b64_char_plain [of q] b64_char_plain [of r]
    unbase64_b64_char [of p] unbase64_b64_char [of q] unbase64_b64_char [of r]
  by (simp add: List.map_filter_simps)

lemma decode_group_2:
  assumes "p < 64" "q < 64"
  shows "List.map_filter unbase64 (takeWhile (\<lambda>c. c \<noteq> CHR ''='') [b64_char p, b64_char q, CHR ''='', CHR ''=''])
         = [p, q]"
  using assms b64_char_plain [of p] b64_char_plain [of q]
    unbase64_b64_char [of p] unbase64_b64_char [of q]
  by (simp add: List.map_filter_simps)

lemma base64_roundtrip: "base64_decode (base64_encode s) = s"
proof (induction s rule: base64_encode.induct)
  case (1 a b c r)
  let ?x = "of_char a :: nat" and ?y = "of_char b :: nat" and ?z = "of_char c :: nat"
  note bd = sextet_bounds [of ?x ?y ?z, OF nat_of_char_less_256 nat_of_char_less_256 nat_of_char_less_256]
  have ih: "sextets_bytes (List.map_filter unbase64 (takeWhile (\<lambda>c. c \<noteq> CHR ''='') (base64_encode r))) = r"
    using 1 by (simp add: base64_decode_def)
  have "base64_decode (base64_encode (a # b # c # r)) =
        sextets_bytes (?x div 4 # ((?x mod 4) * 16 + ?y div 16) # ((?y mod 16) * 4 + ?z div 64) # (?z mod 64) #
          List.map_filter unbase64 (takeWhile (\<lambda>c. c \<noteq> CHR ''='') (base64_encode r)))"
    unfolding base64_decode_def base64_encode.simps Let_def
    by (simp only: decode_group [OF bd(1) bd(2) bd(3) bd(4)])
  also have "\<dots> = a # b # c # r"
    using group_bytes_1 [of ?y ?x] group_bytes_2 [of ?y ?z ?x] group_bytes_3 [of ?z ?y]
    by (simp add: ih)
  finally show ?case .
next
  case (2 a b)
  let ?x = "of_char a :: nat" and ?y = "of_char b :: nat"
  note bd = sextet_bounds [of ?x ?y 0, OF nat_of_char_less_256 nat_of_char_less_256]
  have "base64_decode (base64_encode [a, b]) =
        sextets_bytes [?x div 4, (?x mod 4) * 16 + ?y div 16, (?y mod 16) * 4]"
    unfolding base64_decode_def base64_encode.simps Let_def
    by (simp only: decode_group_3 [OF bd(1) bd(2) bd(6)])
  also have "\<dots> = [a, b]"
    using group_bytes_1 [of ?y ?x] group_bytes_2 [of ?y 0 ?x]
    by simp
  finally show ?case .
next
  case (3 a)
  let ?x = "of_char a :: nat"
  note bd = sextet_bounds [of ?x 0 0, OF nat_of_char_less_256]
  have "base64_decode (base64_encode [a]) = sextets_bytes [?x div 4, (?x mod 4) * 16]"
    unfolding base64_decode_def base64_encode.simps Let_def
    by (simp only: decode_group_2 [OF bd(1) bd(5)])
  also have "\<dots> = [a]"
    using group_bytes_1 [of 0 ?x]
    by simp
  finally show ?case .
next
  case 4
  show ?case by (simp add: base64_decode_def List.map_filter_simps)
qed

subsection \<open>Decimal digits\<close>

lemma nat_digits_all_digits: "c \<in> set (nat_digits n) \<Longrightarrow> is_digit c"
proof (induction n rule: nat_digits.induct)
  case (1 n)
  show ?case
  proof (cases "n < 10")
    case True
    with "1.prems" show ?thesis
      by (subst (asm) nat_digits.simps) (auto simp: is_digit_def digit_char_def)
  next
    case False
    have "n mod 10 < 10" by simp
    then have "is_digit (digit_char (n mod 10))"
      by (auto simp: is_digit_def digit_char_def)
    with False "1.prems" "1.IH" show ?thesis
      by (subst (asm) nat_digits.simps) auto
  qed
qed

lemma nat_digits_not_Nil: "nat_digits n \<noteq> []"
  by (subst nat_digits.simps) simp

lemma digits_val_snoc: "digits_val (ds @ [c]) = 10 * digits_val ds + digit_val c"
  by (simp add: digits_val_def)

lemma digit_val_digit_char: "d < 10 \<Longrightarrow> digit_val (digit_char d) = d"
  by (simp add: digit_val_def digit_char_def)

lemma digits_val_nat_digits: "digits_val (nat_digits n) = n"
proof (induction n rule: nat_digits.induct)
  case (1 n)
  show ?case
  proof (cases "n < 10")
    case True
    then show ?thesis
      by (subst nat_digits.simps) (simp add: digits_val_def digit_val_digit_char)
  next
    case False
    with "1.IH" show ?thesis
      by (subst nat_digits.simps) (simp add: digits_val_snoc digit_val_digit_char)
  qed
qed

lemma nat_digits_leading:
  "hd (nat_digits n) = CHR ''0'' \<Longrightarrow> length (nat_digits n) = 1"
proof (induction n rule: nat_digits.induct)
  case (1 n)
  show ?case
  proof (cases "n < 10")
    case True
    then show ?thesis
      by (subst nat_digits.simps) simp
  next
    case False
    then have pos: "\<not> n div 10 < 10 \<or> 0 < n div 10" by auto
    have h: "hd (nat_digits n) = hd (nat_digits (n div 10))"
      using False nat_digits_not_Nil [of "n div 10"]
      by (subst nat_digits.simps) simp
    with "1.prems" have "hd (nat_digits (n div 10)) = CHR ''0''" by simp
    with "1.IH" False have l: "length (nat_digits (n div 10)) = 1" by simp
    then obtain c where c: "nat_digits (n div 10) = [c]"
      by (cases "nat_digits (n div 10)") auto
    have "digits_val [c] = n div 10"
      using digits_val_nat_digits [of "n div 10"] c by simp
    moreover have "c = CHR ''0''"
      using c \<open>hd (nat_digits (n div 10)) = CHR ''0''\<close> by simp
    ultimately have "n div 10 = 0"
      by (simp add: digits_val_def digit_val_def)
    with False show ?thesis by auto
  qed
qed

subsection \<open>Parsing what \<open>stringify\<close> writes for a token payload\<close>

lemma separator_facts:
  assumes "c = CHR '','' \<or> c = CHR ''}''"
  shows "\<not> is_digit c" "c \<noteq> CHR ''.''" "c \<noteq> CHR ''e''" "c \<noteq> CHR ''E''" "\<not> is_ws c"
  using assms by (auto simp: is_digit_def is_ws_def)

lemma scan_decimal_digits:
  assumes "c = CHR '','' \<or> c = CHR ''}''"
  shows "scan_decimal (nat_digits k @ c # r) = (nat_digits k, False, [], 0, c # r)"
proof -
  have d: "\<And>x. x \<in> set (nat_digits k) \<Longrightarrow> is_digit x"
    by (rule nat_digits_all_digits)
  have t: "takeWhile is_digit (nat_digits k @ c # r) = nat_digits k"
    using d separator_facts(1) [OF assms] by (simp add: takeWhile_append2)
  have dr: "dropWhile is_digit (nat_digits k @ c # r) = c # r"
    using d separator_facts(1) [OF assms] by (simp add: dropWhile_append2)
  have e: "scan_exp (c # r) = (0, c # r)"
    using separator_facts [OF assms] by (simp add: scan_exp_def)
  show ?thesis
    using separator_facts [OF assms] by (simp add: scan_decimal_def t dr e)
qed

lemma decimal_value_int: "decimal_value ds [] 0 = of_nat (digits_val ds)"
  by (simp add: decimal_value_def pow10_def digits_val_def)

lemma parse_number_nat:
  assumes "c = CHR '','' \<or> c = CHR ''}''"
  shows "parse_number (nat_digits k @ c # r) = Some (JNum (Fin (of_nat k)), c # r)"
proof -
  obtain c0 t where ct: "nat_digits k = c0 # t"
    using nat_digits_not_Nil [of k] by (cases "nat_digits k") auto
  have "is_digit c0"
    using nat_digits_all_digits [of c0 k] ct by simp
  then have nm: "c0 \<noteq> CHR ''-''"
    by (auto simp: is_digit_def)
  have lead: "\<not> (hd (nat_digits k) = CHR ''0'' \<and> length (nat_digits k) > 1)"
    using nat_digits_leading [of k] by auto
  have "parse_number (nat_digits k @ c # r) =
        (case scan_decimal (nat_digits k @ c # r) of (ip, dot, fp, e, r') \<Rightarrow>
           if ip = [] \<or> (hd ip = CHR ''0'' \<and> length ip > 1) \<or> (dot \<and> fp = []) then None
           else Some (JNum (Fin (1 * decimal_value ip fp e)), r'))"
    using nm by (simp add: parse_number_def ct)
  also have "\<dots> = Some (JNum (Fin (of_nat k)), c # r)"
    using lead nat_digits_not_Nil [of k]
    by (simp add: scan_decimal_digits [OF assms] decimal_value_int digits_val_nat_digits)
  finally show ?thesis .
qed

lemma parse_number_neg:
  assumes "c = CHR '','' \<or> c = CHR ''}''"
  shows "parse_number (CHR ''-'' # nat_digits k @ c # r) = Some (JNum (Fin (- of_nat k)), c # r)"
proof -
  have lead: "\<not> (hd (nat_digits k) = CHR ''0'' \<and> length (nat_digits k) > 1)"
    using nat_digits_leading [of k] by auto
  show ?thesis
    using lead nat_digits_not_Nil [of k]
    by (simp add: parse_number_def scan_decimal_digits [OF assms] decimal_value_int digits_val_nat_digits)
qed

text \<open>The text of an integer: an optional sign and the decimal digits.\<close>

lemma num_to_str_int:
  "num_to_str (Fin (of_int n)) = (if n < 0 then CHR ''-'' # nat_digits (nat (- n)) else nat_digits (nat n))"
  by (simp add: num_to_str_def Let_def)

lemma parse_number_int:
  assumes "c = CHR '','' \<or> c = CHR ''}''"
  shows "parse_number (num_to_str (Fin (of_int n)) @ c # r) = Some (JNum (Fin (of_int n)), c # r)"
proof (cases "n < 0")
  case True
  then have "- rat_of_nat (nat (- n)) = of_int n" by simp
  with True show ?thesis
    by (simp add: num_to_str_int parse_number_neg [OF assms])
next
  case False
  then have "rat_of_nat (nat n) = of_int n" by simp
  with False show ?thesis
    by (simp add: num_to_str_int parse_number_nat [OF assms])
qed

lemma num_to_str_int_head:
  obtains c0 t where "num_to_str (Fin (of_int n)) = c0 # t" and "is_digit c0 \<or> c0 = CHR ''-''"
proof (cases "n < 0")
  case True
  then show ?thesis
    using that by (simp add: num_to_str_int)
next
  case False
  obtain c0 t where ct: "nat_digits (nat n) = c0 # t"
    using nat_digits_not_Nil [of "nat n"] by (cases "nat_digits (nat n)") auto
  have "is_digit c0"
    using nat_digits_all_digits [of c0 "nat n"] ct by simp
  with False ct that show ?thesis
    by (simp add: num_to_str_int)
qed

lemma skip_ws_nonws: "\<not> is_ws c \<Longrightarrow> skip_ws (c # s) = c # s"
  by (simp add: skip_ws_def)

lemma parse_value_number:
  assumes "is_digit c0 \<or> c0 = CHR ''-''"
  shows "parse_value (c0 # t) = parse_number (c0 # t)"
proof -
  have n: "(of_char c0 :: nat) = 45 \<or> (48 \<le> (of_char c0 :: nat) \<and> (of_char c0 :: nat) \<le> 57)"
    using assms by (auto simp: is_digit_def)
  have e: "c0 = c \<longleftrightarrow> (of_char c0 :: nat) = of_char c" for c
    by simp
  have ws: "skip_ws (c0 # t) = c0 # t"
    using n by (auto simp: skip_ws_def is_ws_def)
  have ne: "c0 \<noteq> CHR ''{''" "c0 \<noteq> CHR ''[''" "c0 \<noteq> CHR 0x22" "c0 \<noteq> CHR ''t''" "c0 \<noteq> CHR ''f''" "c0 \<noteq> CHR ''n''"
    using n unfolding e by auto
  have tk: "take 4 (c0 # t) \<noteq> ''true''" "take 5 (c0 # t) \<noteq> ''false''" "take 4 (c0 # t) \<noteq> ''null''"
    using ne by auto
  show ?thesis
    by (subst parse_value.simps) (simp add: ws ne tk del: take_Cons_numeral)
qed

lemma parse_value_int:
  assumes "c = CHR '','' \<or> c = CHR ''}''"
  shows "parse_value (num_to_str (Fin (of_int n)) @ c # r) = Some (JNum (Fin (of_int n)), c # r)"
proof -
  obtain c0 t where ct: "num_to_str (Fin (of_int n)) = c0 # t" and h: "is_digit c0 \<or> c0 = CHR ''-''"
    by (rule num_to_str_int_head)
  have "parse_value (num_to_str (Fin (of_int n)) @ c # r) = parse_number (num_to_str (Fin (of_int n)) @ c # r)"
    using parse_value_number [OF h, of "t @ c # r"] by (simp add: ct)
  then show ?thesis
    by (simp add: parse_number_int [OF assms])
qed

text \<open>A string literal leaves less input than it was given.\<close>

lemma parse_chars_shorter:
  "parse_chars acc s = Some (us, rest) \<Longrightarrow> length rest < length s"
proof (induction acc s rule: parse_chars.induct)
  case (1 acc)
  then show ?case by simp
next
  case (2 acc c r)
  show ?case
  proof (cases "c = CHR 0x22")
    case True
    with "2.prems" show ?thesis by simp
  next
    case q: False
    show ?thesis
    proof (cases "c = CHR 0x5C")
      case True
      show ?thesis
      proof (cases r)
        case Nil
        with "2.prems" q True show ?thesis by simp
      next
        case (Cons e r')
        show ?thesis
        proof (cases "e = CHR ''u''")
          case u: True
          then obtain n where n: "hex4_val (take 4 r') = Some n"
            and p: "parse_chars (Unit n # acc) (drop 4 r') = Some (us, rest)"
            using "2.prems" q True Cons by (auto split: option.splits)
          have "length rest < length (drop 4 r')"
            using "2.IH"(1) [OF q True Cons u n p] .
          with Cons show ?thesis by simp
        next
          case nu: False
          then obtain x where x: "unescape e = Some x"
            and p: "parse_chars (Raw x # acc) r' = Some (us, rest)"
            using "2.prems" q True Cons by (auto split: option.splits)
          have "length rest < length r'"
            using "2.IH"(2) [OF q True Cons nu x p] .
          with Cons show ?thesis by simp
        qed
      qed
    next
      case b: False
      have c32: "\<not> (of_char c :: nat) < 32"
        using "2.prems" q b by (auto split: if_splits)
      have p: "parse_chars (Raw c # acc) r = Some (us, rest)"
        using "2.prems" q b c32 by simp
      have "length rest < length r"
        using "2.IH"(3) [OF q b c32 p] .
      then show ?thesis by simp
    qed
  qed
qed

text \<open>One member of an object whose value is an integer, followed by a comma or by the closing brace.\<close>

lemma parse_members_int:
  assumes "c = CHR '','' \<or> c = CHR ''}''"
    and key: "parse_string ks = Some (k, CHR '':'' # num_to_str (Fin (of_int n)) @ c # r)"
  shows "parse_members acc (CHR 0x22 # ks) =
          (if c = CHR '','' then
             (if length r < Suc (length ks) then parse_members (AList.update k (JNum (Fin (of_int n))) acc) r else None)
           else Some (JObj (AList.update k (JNum (Fin (of_int n))) acc), r))"
proof -
  have ws1: "skip_ws (CHR 0x22 # ks) = CHR 0x22 # ks"
    by (simp add: skip_ws_nonws is_ws_def)
  have ws2: "skip_ws (CHR '':'' # t) = CHR '':'' # t" for t
    by (simp add: skip_ws_nonws is_ws_def)
  have ws3: "skip_ws (c # r) = c # r"
    using separator_facts(5) [OF assms(1)] by (simp add: skip_ws_nonws)
  have pv: "parse_value (num_to_str (Fin (of_int n)) @ c # r) = Some (JNum (Fin (of_int n)), c # r)"
    by (rule parse_value_int [OF assms(1)])
  have len: "length (num_to_str (Fin (rat_of_int n)) @ c # r) < Suc (length ks)"
  proof -
    obtain us where "parse_chars [] ks = Some (us, CHR '':'' # num_to_str (Fin (of_int n)) @ c # r)"
      using key by (auto simp: parse_string_def split: option.splits)
    then have "length (CHR '':'' # num_to_str (Fin (of_int n)) @ c # r) < length ks"
      by (rule parse_chars_shorter)
    then show ?thesis by simp
  qed
  show ?thesis
    using assms(1) len
    by (subst parse_members.simps) (auto simp: ws1 ws2 ws3 key pv)
qed

lemma parse_string_userId:
  "parse_string (''userId'' @ CHR 0x22 # t) = Some (''userId'', t)"
  by (simp add: parse_string_def)

lemma parse_string_exp:
  "parse_string (''exp'' @ CHR 0x22 # t) = Some (''exp'', t)"
  by (simp add: parse_string_def)

text \<open>
  \<^verbatim>\<open>JSON.parse\<close> reads the payload of \<open>generateToken\<close> back, for an integer user
  identifier and an integer expiry.
\<close>

lemma payload_roundtrip:
  "JSON_parse (stringify (JObj [(''userId'', JNum (Fin (of_int n))), (''exp'', JNum (Fin (of_int e)))]))
   = Some (JObj [(''userId'', JNum (Fin (of_int n))), (''exp'', JNum (Fin (of_int e)))])"
proof -
  let ?ne = "num_to_str (Fin (of_int e))" and ?nn = "num_to_str (Fin (of_int n))"
  let ?r2 = "CHR 0x22 # ''exp'' @ CHR 0x22 # CHR '':'' # ?ne @ ''}''"
  let ?r1 = "CHR 0x22 # ''userId'' @ CHR 0x22 # CHR '':'' # ?nn @ CHR '','' # ?r2"
  have st: "stringify (JObj [(''userId'', JNum (Fin (of_int n))), (''exp'', JNum (Fin (of_int e)))]) = CHR ''{'' # ?r1"
    by (simp add: quote_def quote_char_def Let_def)
  have m2: "parse_members [(''userId'', JNum (Fin (of_int n)))] ?r2
            = Some (JObj [(''userId'', JNum (Fin (of_int n))), (''exp'', JNum (Fin (of_int e)))], [])"
    using parse_members_int [of "CHR ''}''" "''exp'' @ CHR 0x22 # CHR '':'' # ?ne @ ''}''" "''exp''" e "[]"
        "[(''userId'', JNum (Fin (of_int n)))]"] parse_string_exp [of "CHR '':'' # ?ne @ ''}''"]
    by simp
  have m1: "parse_members [] ?r1 = parse_members [(''userId'', JNum (Fin (of_int n)))] ?r2"
    using parse_members_int [of "CHR '',''" "''userId'' @ CHR 0x22 # CHR '':'' # ?nn @ CHR '','' # ?r2" "''userId''" n ?r2 "[]"]
      parse_string_userId [of "CHR '':'' # ?nn @ CHR '','' # ?r2"]
    by simp
  have "parse_value (CHR ''{'' # ?r1) = parse_members [] ?r1"
    by (subst parse_value.simps) (simp add: skip_ws_nonws is_ws_def)
  with m1 m2 have "parse_value (CHR ''{'' # ?r1)
      = Some (JObj [(''userId'', JNum (Fin (of_int n))), (''exp'', JNum (Fin (of_int e)))], [])"
    by simp
  then show ?thesis
    unfolding JSON_parse_def st by (simp add: skip_ws_def)
qed

subsection \<open>Stored collections\<close>

lemma file_val_undefined: "file_val v = JUndefined \<longleftrightarrow> v = JUndefined"
  by (cases v) (auto split: jsnum.splits)

lemma file_val_idem: "file_val (file_val v) = file_val v"
proof (induction v)
  case (JNum x)
  then show ?case by (cases x) auto
next
  case (JArr xs)
  have "(if (if x = JUndefined then JNull else file_val x) = JUndefined then JNull
         else file_val (if x = JUndefined then JNull else file_val x))
        = (if x = JUndefined then JNull else file_val x)" if "x \<in> set xs" for x
    using JArr [OF that] by (simp add: file_val_undefined)
  then show ?case by simp
next
  case (JObj fs)
  have f: "filter (\<lambda>kv. snd kv \<noteq> JUndefined)
             (map (\<lambda>kv. (fst kv, file_val (snd kv))) (filter (\<lambda>kv. snd kv \<noteq> JUndefined) fs))
           = map (\<lambda>kv. (fst kv, file_val (snd kv))) (filter (\<lambda>kv. snd kv \<noteq> JUndefined) fs)"
    by (simp add: filter_map o_def file_val_undefined)
  have "file_val (file_val (snd kv)) = file_val (snd kv)" if "kv \<in> set fs" for kv
    using JObj [OF that] by (cases kv) auto
  then show ?case
    by (simp add: f)
qed simp_all

lemma file_obj_idem: "file_obj (file_obj r) = file_obj r"
  using file_val_idem [of "JObj r"] by (simp add: file_obj_def)

lemma stored_Nil: "stored []"
  by (simp add: stored_def)

lemma stored_writeJson: "stored (writeJson data)"
  by (simp add: stored_def writeJson_def file_obj_idem)

lemma writeJson_stored: "stored records \<Longrightarrow> writeJson records = records"
  by (simp add: stored_def writeJson_def map_idI)

lemma stored_sublist: "stored records \<Longrightarrow> stored (take i records @ drop (Suc i) records)"
  by (auto simp: stored_def dest: in_set_takeD in_set_dropD)

text \<open>A property that is there stays there in the JSON view, with the JSON view of its value.\<close>

lemma map_of_file_obj:
  "map_of r k = None \<or> field r k \<noteq> JUndefined \<Longrightarrow>
   map_of (file_obj r) k = (case map_of r k of None \<Rightarrow> None | Some v \<Rightarrow> Some (file_val v))"
  by (induction r) (auto simp: file_obj_def field_def split: option.splits if_splits)

lemma field_file_obj:
  "map_of r k = None \<or> field r k \<noteq> JUndefined \<Longrightarrow> field (file_obj r) k = file_val (field r k)"
  using map_of_file_obj [of r k] by (auto simp: field_def split: option.splits)

lemma map_of_spread:
  assumes "map_of b k = None"
  shows "map_of (spread a b) k = map_of a k"
proof -
  have "k \<notin> fst ` set b \<Longrightarrow> map_of (foldl (\<lambda>acc kv. AList.update (fst kv) (snd kv) acc) a b) k = map_of a k" for a
  proof (induction b arbitrary: a)
    case Nil
    show ?case by simp
  next
    case (Cons kv b)
    then show ?case
      by (cases kv) (simp add: update_conv')
  qed
  with assms show ?thesis
    by (simp add: spread_def map_of_eq_None_iff)
qed

lemma field_spread: "map_of b k = None \<Longrightarrow> field (spread a b) k = field a k"
  by (simp add: field_def map_of_spread)

lemma stored_values:
  assumes "stored records" and "r \<in> set records"
  shows "map_of r k = None \<or> field r k \<noteq> JUndefined" and "file_val (field r k) = field r k"
proof -
  have fr: "file_obj r = r"
    using assms by (simp add: stored_def)
  have "length (filter (\<lambda>kv. snd kv \<noteq> JUndefined) r) = length r"
    using fr by (metis file_obj_def length_map)
  then have all: "\<forall>kv \<in> set r. snd kv \<noteq> JUndefined"
    using length_filter_less [of _ r "\<lambda>kv. snd kv \<noteq> JUndefined"] by fastforce
  show d: "map_of r k = None \<or> field r k \<noteq> JUndefined"
  proof (cases "map_of r k")
    case None
    then show ?thesis by simp
  next
    case (Some v)
    then have "(k, v) \<in> set r" by (rule map_of_SomeD)
    with all have "v \<noteq> JUndefined" by auto
    with Some show ?thesis by (simp add: field_def)
  qed
  from field_file_obj [OF d] fr show "file_val (field r k) = field r k"
    by simp
qed


lemma filter_remove_nth:
  assumes "i < length xs" and "\<not> P (xs ! i)"
  shows "filter P (take i xs @ drop (Suc i) xs) = filter P xs"
proof -
  have "filter P xs = filter P (take i xs @ xs ! i # drop (Suc i) xs)"
    using assms(1) by (simp add: id_take_nth_drop [symmetric])
  also have "\<dots> = filter P (take i xs @ drop (Suc i) xs)"
    using assms(2) by simp
  finally show ?thesis by simp
qed

lemma deleteById_cases:
  "(findIndex (\<lambda>e. strict_eq (field e ''id'') (JNum rid) \<and> strict_eq (field e ''userId'') A) records = None \<and>
      deleteById msg A rid records = Reply (Response 404 (error_body msg)) records) \<or>
   (\<exists>i. findIndex (\<lambda>e. strict_eq (field e ''id'') (JNum rid) \<and> strict_eq (field e ''userId'') A) records = Some i \<and>
      i < length records \<and> strict_eq (field (records ! i) ''id'') (JNum rid) \<and>
      strict_eq (field (records ! i) ''userId'') A \<and>
      deleteById msg A rid records =
        Reply (Response 200 (JObj (records ! i))) (writeJson (take i records @ drop (Suc i) records)))"
proof (cases "findIndex (\<lambda>e. strict_eq (field e ''id'') (JNum rid) \<and> strict_eq (field e ''userId'') A) records")
  case None
  then show ?thesis by (simp add: deleteById_def)
next
  case (Some i)
  with findIndex_Some [OF Some] show ?thesis
    by (simp add: deleteById_def Let_def)
qed


lemma updateById_cases:
  "(findIndex (\<lambda>e. strict_eq (field e ''id'') (JNum rid) \<and> strict_eq (field e ''userId'') A) records = None \<and>
      updateById msg A rid updates records = Reply (Response 404 (error_body msg)) records) \<or>
   (\<exists>i. findIndex (\<lambda>e. strict_eq (field e ''id'') (JNum rid) \<and> strict_eq (field e ''userId'') A) records = Some i \<and>
      i < length records \<and> strict_eq (field (records ! i) ''id'') (JNum rid) \<and>
      strict_eq (field (records ! i) ''userId'') A \<and>
      updateById msg A rid updates records =
        Reply (Response 200 (JObj (spread (records ! i) (own_props updates))))
          (writeJson (records[i := spread (records ! i) (own_props updates)])))"
proof (cases "findIndex (\<lambda>e. strict_eq (field e ''id'') (JNum rid) \<and> strict_eq (field e ''userId'') A) records")
  case None
  then show ?thesis by (simp add: updateById_def)
next
  case (Some i)
  with findIndex_Some [OF Some] show ?thesis
    by (simp add: updateById_def Let_def)
qed

lemma update_keeps_field:
  assumes st: "stored records" and i: "i < length records" and k: "map_of ups k = None"
  shows "map (\<lambda>e. field e k) (writeJson (records[i := spread (records ! i) ups])) = map (\<lambda>e. field e k) records"
proof (rule nth_equalityI)
  show "length (map (\<lambda>e. field e k) (writeJson (records[i := spread (records ! i) ups]))) = length (map (\<lambda>e. field e k) records)"
    by (simp add: writeJson_def)
next
  fix j
  assume "j < length (map (\<lambda>e. field e k) (writeJson (records[i := spread (records ! i) ups])))"
  then have j: "j < length records"
    by (simp add: writeJson_def)
  then have rj: "records ! j \<in> set records"
    by simp
  show "map (\<lambda>e. field e k) (writeJson (records[i := spread (records ! i) ups])) ! j = map (\<lambda>e. field e k) records ! j"
  proof (cases "j = i")
    case True
    let ?new = "spread (records ! i) ups"
    have m: "map_of ?new k = map_of (records ! i) k"
      using k by (rule map_of_spread)
    then have f: "field ?new k = field (records ! i) k"
      by (simp add: field_def)
    have "map_of ?new k = None \<or> field ?new k \<noteq> JUndefined"
      using stored_values(1) [OF st rj, of k] True m f by simp
    then have "field (file_obj ?new) k = file_val (field ?new k)"
      by (rule field_file_obj)
    also have "\<dots> = field (records ! i) k"
      using stored_values(2) [OF st rj, of k] True f by simp
    finally show ?thesis
      using True j by (simp add: writeJson_def)
  next
    case False
    have "file_obj (records ! j) = records ! j"
      using st rj by (simp add: stored_def)
    with False j show ?thesis
      by (simp add: writeJson_def)
  qed
qed

lemma distinct_remove_nth: "distinct ys \<Longrightarrow> distinct (take i ys @ drop (Suc i) ys)"
  using set_take_disj_set_drop_if_distinct [of ys i "Suc i"] by simp

lemma ids_are_length: "ids_are ns records \<Longrightarrow> length ns = length records"
  by (metis ids_are_def length_map)

lemma ids_are_nth: "ids_are ns records \<Longrightarrow> j < length records \<Longrightarrow> field (records ! j) ''id'' = JNum (Fin (of_nat (ns ! j)))"
proof -
  assume a: "ids_are ns records" and j: "j < length records"
  then have "map (\<lambda>r. field r ''id'') records ! j = map (\<lambda>n. JNum (Fin (of_nat n))) ns ! j"
    by (simp add: ids_are_def)
  with j ids_are_length [OF a] show ?thesis by simp
qed

lemma nextId_ids:
  assumes "ids_are ns records"
  shows "nextId records = JNum (Fin (of_nat (if ns = [] then 1 else last ns + 1)))"
proof (cases "records = []")
  case True
  with ids_are_length [OF assms] show ?thesis
    by (simp add: nextId_def)
next
  case False
  with ids_are_length [OF assms] have ne: "ns \<noteq> []" by auto
  have "field (last records) ''id'' = JNum (Fin (of_nat (last ns)))"
    using ids_are_nth [OF assms, of "length records - 1"] False ne ids_are_length [OF assms]
    by (simp add: last_conv_nth)
  with False ne show ?thesis
    by (simp add: nextId_def js_add_def add.commute)
qed

lemma ids_are_append:
  assumes a: "ids_are ns records" and f: "field new ''id'' = nextId records"
  shows "ids_are (ns @ [if ns = [] then 1 else last ns + 1]) (writeJson (records @ [new]))"
proof -
  have old: "field (file_obj r) ''id'' = field r ''id''" if h: "r \<in> set records" for r
  proof -
    obtain j where "j < length records" "records ! j = r"
      using h by (auto simp: in_set_conv_nth)
    then have v: "field r ''id'' = JNum (Fin (of_nat (ns ! j)))"
      using ids_are_nth [OF a, of j] by simp
    then have "field (file_obj r) ''id'' = file_val (field r ''id'')"
      by (intro field_file_obj) simp
    with v show ?thesis by simp
  qed
  have nw: "field new ''id'' = JNum (Fin (of_nat (if ns = [] then 1 else last ns + 1)))"
    using f nextId_ids [OF a] by simp
  then have "field (file_obj new) ''id'' = file_val (field new ''id'')"
    by (intro field_file_obj) simp
  with nw have nw': "field (file_obj new) ''id'' = JNum (Fin (of_nat (if ns = [] then 1 else last ns + 1)))"
    by simp
  have "map (\<lambda>r. field r ''id'') (writeJson records) = map (\<lambda>r. field r ''id'') records"
    using old by (simp add: writeJson_def)
  with a nw' show ?thesis
    by (simp add: ids_are_def writeJson_def)
qed

text \<open>A request that creates a record appends one whose identifier is \<open>nextId\<close> of the collection.\<close>

lemma post_expenses_created:
  assumes "post_expenses d u parsed records = Reply rsp records'" and "created rsp"
  shows "\<exists>new. records' = writeJson (records @ [new]) \<and> field new ''id'' = nextId records"
  using assms
  by (auto simp: post_expenses_def Let_def field_def error_body_def split: option.splits if_splits)

lemma post_goals_created:
  assumes "post_goals u parsed records = Reply rsp records'" and "created rsp"
  shows "\<exists>new. records' = writeJson (records @ [new]) \<and> field new ''id'' = nextId records"
  using assms
  by (auto simp: post_goals_def Let_def field_def error_body_def split: option.splits if_splits)

lemma post_register_created:
  assumes "post_register salt parsed records = Reply rsp records'" and "created rsp"
  shows "\<exists>new. records' = writeJson (records @ [new]) \<and> field new ''id'' = nextId records"
  using assms
  by (auto simp: post_register_def Let_def field_def error_body_def split: option.splits if_splits)

lemma sorted_last_Max:
  assumes "sorted ns" and "ns \<noteq> []"
  shows "Max (set ns) = (last ns :: nat)"
proof (rule Max_eqI)
  show "finite (set ns)" by simp
  show "last ns \<in> set ns" using assms(2) by simp
  fix y
  assume "y \<in> set ns"
  then obtain i where i: "i < length ns" "ns ! i = y"
    by (auto simp: in_set_conv_nth)
  then have "ns ! i \<le> ns ! (length ns - 1)"
    using assms(1) by (intro sorted_nth_mono) auto
  with i assms(2) show "y \<le> last ns"
    by (simp add: last_conv_nth)
qed


subsection \<open>Tokens\<close>

lemma length_hex32: "length (hex32 w) = 8"
  by (simp add: hex32_def)

lemma length_sha256_hex: "length (sha256_hex s) = 64"
proof -
  obtain a b c d e f g h where
    "sha_blocks (sha_H0 ! 0, sha_H0 ! 1, sha_H0 ! 2, sha_H0 ! 3, sha_H0 ! 4, sha_H0 ! 5, sha_H0 ! 6, sha_H0 ! 7)
       (be_words (sha_pad s)) = (a, b, c, d, e, f, g, h)"
    by (metis prod_cases3)
  then show ?thesis
    by (simp add: sha256_hex_def sha256_def length_hex32)
qed

lemma generateToken_parts:
  "generateToken T uid =
     base64_encode (stringify (JObj [(''userId'', uid), (''exp'', JNum (Fin (of_int (T + 86400000))))])) @ ''.'' @
     sha256_hex (base64_encode (stringify (JObj [(''userId'', uid), (''exp'', JNum (Fin (of_int (T + 86400000))))])) @ SECRET)"
  by (simp add: generateToken_def Let_def)

lemma verifyToken_parts: "length (split (CHR ''.'') tok) \<noteq> 2 \<Longrightarrow> verifyToken t tok = JNull"
  by (simp add: verifyToken_def Let_def)

lemma verifyToken_signed:
  assumes "CHR ''.'' \<notin> set b"
  shows "verifyToken t (b @ ''.'' @ sha256_hex (b @ SECRET)) =
           (case JSON_parse (base64_decode b) of
              None \<Rightarrow> JNull
            | Some payload \<Rightarrow>
                (case get_prop payload ''exp'' of
                   None \<Rightarrow> JNull
                 | Some expiry \<Rightarrow> if js_less_num expiry (Fin (of_int t)) then JNull else payload))"
proof -
  have "split (CHR ''.'') (b @ ''.'' @ sha256_hex (b @ SECRET)) = [b, sha256_hex (b @ SECRET)]"
    using assms sha256_hex_no_dot [of "b @ SECRET"]
    by (simp add: split_append_sep split_no_sep)
  then show ?thesis
    by (simp add: verifyToken_def Let_def)
qed

lemma verifyToken_wrong_signature:
  assumes "CHR ''.'' \<notin> set b" and "sg \<noteq> sha256_hex (b @ SECRET)"
  shows "verifyToken t (b @ ''.'' @ sg) = JNull"
proof (cases "CHR ''.'' \<in> set sg")
  case True
  then have "filter (\<lambda>x. x = CHR ''.'') sg \<noteq> []"
    by (simp add: filter_empty_conv)
  then have "length (filter (\<lambda>x. x = CHR ''.'') sg) \<noteq> 0"
    by simp
  then have "length (split (CHR ''.'') (b @ ''.'' @ sg)) \<noteq> 2"
    by (simp add: length_split)
  then show ?thesis
    by (rule verifyToken_parts)
next
  case False
  then have "split (CHR ''.'') (b @ ''.'' @ sg) = [b, sg]"
    using assms(1) by (simp add: split_append_sep split_no_sep)
  with assms(2) show ?thesis
    by (simp add: verifyToken_def Let_def)
qed

lemma verify_generate:
  "verifyToken t (generateToken T (JNum (Fin (of_int n)))) =
     (if t \<le> T + 86400000
      then JObj [(''userId'', JNum (Fin (of_int n))), (''exp'', JNum (Fin (of_int (T + 86400000))))]
      else JNull)"
proof -
  let ?p = "JObj [(''userId'', JNum (Fin (of_int n))), (''exp'', JNum (Fin (of_int (T + 86400000))))]"
  let ?b = "base64_encode (stringify ?p)"
  have "verifyToken t (?b @ ''.'' @ sha256_hex (?b @ SECRET)) =
          (case JSON_parse (base64_decode ?b) of
              None \<Rightarrow> JNull
            | Some payload \<Rightarrow>
                (case get_prop payload ''exp'' of
                   None \<Rightarrow> JNull
                 | Some expiry \<Rightarrow> if js_less_num expiry (Fin (of_int t)) then JNull else payload))"
    by (rule verifyToken_signed) (rule base64_encode_no_dot)
  also have "JSON_parse (base64_decode ?b) = Some ?p"
    by (simp only: base64_roundtrip payload_roundtrip)
  finally show ?thesis
    by (auto simp: generateToken_parts field_def js_less_num_def to_number_def)
qed

subsection \<open>The session gate\<close>

lemma hex32_chars: "set (hex32 w) \<subseteq> hex_digit ` {..<16}"
  by (auto simp: hex32_def)

lemma sha256_hex_chars: "set (sha256_hex s) \<subseteq> hex_digit ` {..<16}"
  using hex32_chars by (auto simp: sha256_hex_def)

lemma space_len_0:
  assumes "c \<notin> hd ` set ws" and "[] \<notin> set ws"
  shows "space_len ws (c # s) = 0"
proof (cases "find (\<lambda>w. take (length w) (c # s) = w) ws")
  case None
  then show ?thesis by (simp add: space_len_def)
next
  case (Some w)
  then have w: "w \<in> set ws" and t: "take (length w) (c # s) = w"
    by (auto simp: find_Some_iff)
  from w assms(2) have "w \<noteq> []" by auto
  with t have "hd w = c"
    by (cases w) auto
  with w assms(1) show ?thesis by auto
qed

lemma strip_id: "c \<notin> hd ` set ws \<Longrightarrow> [] \<notin> set ws \<Longrightarrow> strip ws (c # s) = c # s"
  by (simp add: space_len_0)

lemma js_spaces_heads:
  "[] \<notin> set js_spaces" "[] \<notin> set (map rev js_spaces)"
  "c \<in> hd ` set js_spaces \<Longrightarrow> (of_char c :: nat) < 48 \<or> 128 \<le> (of_char c :: nat)"
  "c \<in> hd ` set (map rev js_spaces) \<Longrightarrow> (of_char c :: nat) < 48 \<or> 128 \<le> (of_char c :: nat)"
  by (auto simp: js_spaces_def)

text \<open>A string that neither begins nor ends with a byte of white space is its own trim.\<close>

lemma trim_id:
  assumes "s \<noteq> []"
    and "48 \<le> (of_char (hd s) :: nat) \<and> (of_char (hd s) :: nat) < 128"
    and "48 \<le> (of_char (last s) :: nat) \<and> (of_char (last s) :: nat) < 128"
  shows "trim s = s"
proof -
  obtain c t where s: "s = c # t"
    using assms(1) by (cases s) auto
  have "c \<notin> hd ` set js_spaces"
    using js_spaces_heads(3) [of c] assms(2) s by auto
  then have a: "strip js_spaces s = s"
    using js_spaces_heads(1) by (simp add: s strip_id del: strip.simps)
  obtain d u where r: "rev s = d # u"
    using assms(1) by (cases "rev s") auto
  then have "d = last s"
    by (metis last_rev list.sel(1) rev_rev_ident)
  then have "d \<notin> hd ` set (map rev js_spaces)"
    using js_spaces_heads(4) [of d] assms(3) by auto
  then have "strip (map rev js_spaces) (rev s) = rev s"
    using js_spaces_heads(2) by (simp add: r strip_id del: strip.simps)
  with a show ?thesis
    by (simp add: trim_def)
qed

lemma hex_digit_range: "n < 16 \<Longrightarrow> 48 \<le> (of_char (hex_digit n) :: nat) \<and> (of_char (hex_digit n) :: nat) < 128"
  by (simp add: hex_digit_of_char)

lemma b64_char_30: "b64_char 30 = CHR ''e''"
  by code_simp

lemma base64_encode_head: "base64_encode (CHR ''{'' # r) = CHR ''e'' # tl (base64_encode (CHR ''{'' # r))"
proof (cases r)
  case Nil
  then show ?thesis by (simp add: Let_def b64_char_30)
next
  case (Cons b r')
  then show ?thesis
    by (cases r') (simp_all add: Let_def b64_char_30)
qed

lemma bearer_issued: "bearer (Some (''Bearer '' @ generateToken T uid)) = generateToken T uid"
proof -
  let ?p = "JObj [(''userId'', uid), (''exp'', JNum (Fin (of_int (T + 86400000))))]"
  let ?b = "base64_encode (stringify ?p)"
  let ?sg = "sha256_hex (?b @ SECRET)"
  obtain r where "stringify ?p = CHR ''{'' # r"
    by simp
  then obtain b' where b: "?b = CHR ''e'' # b'"
    using base64_encode_head [of r] by simp
  have "?sg \<noteq> []"
    using length_sha256_hex [of "?b @ SECRET"] by auto
  then have "last ?sg \<in> set ?sg"
    by simp
  then obtain n where "n < 16" "last ?sg = hex_digit n"
    using sha256_hex_chars [of "?b @ SECRET"] by auto
  then have l: "48 \<le> (of_char (last ?sg) :: nat) \<and> (of_char (last ?sg) :: nat) < 128"
    by (simp add: hex_digit_range)
  have tk: "generateToken T uid = CHR ''e'' # b' @ ''.'' @ ?sg"
    using generateToken_parts [of T uid] b by simp
  have "48 \<le> (of_char (last (generateToken T uid)) :: nat) \<and> (of_char (last (generateToken T uid)) :: nat) < 128"
    using l \<open>?sg \<noteq> []\<close> by (simp add: tk)
  moreover have "48 \<le> (of_char (hd (generateToken T uid)) :: nat) \<and> (of_char (hd (generateToken T uid)) :: nat) < 128"
    by (simp add: tk)
  moreover have "generateToken T uid \<noteq> []"
    by (simp add: tk)
  ultimately have "trim (generateToken T uid) = generateToken T uid"
    by (intro trim_id)
  then show ?thesis
    by (simp add: bearer_def)
qed

lemma gate_rejects: "\<not> truthy (verifyToken t (bearer a)) \<Longrightarrow> session_gate t a = Inl (Response 401 (error_body ''Unauthorized''))"
  by (simp add: session_gate_def)

lemma handleApi_gate:
  assumes "startsWith (pathname req) ''/api''" and "httpMethod req \<noteq> ''OPTIONS''"
    and "\<not> (httpMethod req = ''POST'' \<and> pathname req = ''/api/register'')"
    and "\<not> (httpMethod req = ''POST'' \<and> pathname req = ''/api/login'')"
    and "session_gate (dateNow ev) (authorization req) = Inl r"
  shows "handleApi ev fs req = Replied r fs"
  using assms by (auto simp: handleApi_def Let_def)


subsection \<open>Isolation between users (C4)\<close>

text \<open>
  Three requests lead to a collection in which two records of different owners have the
  same identifier: user 1 and user 2 each create an expense, then user 1 sends
  \<^verbatim>\<open>PUT /api/expenses/1\<close> with the body \<^verbatim>\<open>{"id":2}\<close>.
\<close>

lemma shared_identifier_reachable:
  "post_expenses d (JNum (Fin 1)) (JObj [(''category'', JStr ''food''), (''amount'', JNum (Fin 3))]) []
     = Reply (Response 201 (JObj [(''id'', JNum (Fin 1)), (''userId'', JNum (Fin 1)), (''category'', JStr ''food''),
                                  (''amount'', JNum (Fin 3)), (''date'', JStr d)]))
         [[(''id'', JNum (Fin 1)), (''userId'', JNum (Fin 1)), (''category'', JStr ''food''),
           (''amount'', JNum (Fin 3)), (''date'', JStr d)]]"
  "post_expenses d (JNum (Fin 2)) (JObj [(''category'', JStr ''rent''), (''amount'', JNum (Fin 9))])
       [[(''id'', JNum (Fin 1)), (''userId'', JNum (Fin 1)), (''category'', JStr ''food''),
         (''amount'', JNum (Fin 3)), (''date'', JStr d)]]
     = Reply (Response 201 (JObj [(''id'', JNum (Fin 2)), (''userId'', JNum (Fin 2)), (''category'', JStr ''rent''),
                                  (''amount'', JNum (Fin 9)), (''date'', JStr d)]))
         [[(''id'', JNum (Fin 1)), (''userId'', JNum (Fin 1)), (''category'', JStr ''food''),
           (''amount'', JNum (Fin 3)), (''date'', JStr d)],
          [(''id'', JNum (Fin 2)), (''userId'', JNum (Fin 2)), (''category'', JStr ''rent''),
           (''amount'', JNum (Fin 9)), (''date'', JStr d)]]"
  "updateById ''Expense not found'' (JNum (Fin 1)) (Fin 1) (JObj [(''id'', JNum (Fin 2))])
       [[(''id'', JNum (Fin 1)), (''userId'', JNum (Fin 1)), (''category'', JStr ''food''),
         (''amount'', JNum (Fin 3)), (''date'', JStr d)],
        [(''id'', JNum (Fin 2)), (''userId'', JNum (Fin 2)), (''category'', JStr ''rent''),
         (''amount'', JNum (Fin 9)), (''date'', JStr d)]]
     = Reply (Response 200 (JObj [(''id'', JNum (Fin 2)), (''userId'', JNum (Fin 1)), (''category'', JStr ''food''),
                                  (''amount'', JNum (Fin 3)), (''date'', JStr d)]))
         [[(''id'', JNum (Fin 2)), (''userId'', JNum (Fin 1)), (''category'', JStr ''food''),
           (''amount'', JNum (Fin 3)), (''date'', JStr d)],
          [(''id'', JNum (Fin 2)), (''userId'', JNum (Fin 2)), (''category'', JStr ''rent''),
           (''amount'', JNum (Fin 9)), (''date'', JStr d)]]"
  by (simp_all add: post_expenses_def updateById_def field_def nextId_def to_number_def writeJson_def
        file_obj_def spread_def js_add_def Let_def)

text \<open>
  Claim C4, as stated, fails in that collection: the identifier 2 is the identifier of a
  record of user 2, and the \<^verbatim>\<open>DELETE\<close> of user 1 for it is answered with 200, not with
  404, and changes the stored collection (it removes the record of user 1 that has the
  same identifier; the record of user 2 stays).
\<close>

theorem C4_counterexample:
  "deleteById ''Expense not found'' (JNum (Fin 1)) (Fin 2)
       [[(''id'', JNum (Fin 2)), (''userId'', JNum (Fin 1)), (''category'', JStr ''food''),
         (''amount'', JNum (Fin 3)), (''date'', JStr ''2024-05-01T10:00:00.000Z'')],
        [(''id'', JNum (Fin 2)), (''userId'', JNum (Fin 2)), (''category'', JStr ''rent''),
         (''amount'', JNum (Fin 9)), (''date'', JStr ''2024-05-01T10:00:00.000Z'')]]
     = Reply (Response 200 (JObj [(''id'', JNum (Fin 2)), (''userId'', JNum (Fin 1)), (''category'', JStr ''food''),
                                  (''amount'', JNum (Fin 3)), (''date'', JStr ''2024-05-01T10:00:00.000Z'')]))
         [[(''id'', JNum (Fin 2)), (''userId'', JNum (Fin 2)), (''category'', JStr ''rent''),
           (''amount'', JNum (Fin 9)), (''date'', JStr ''2024-05-01T10:00:00.000Z'')]]"
  by (simp add: deleteById_def field_def writeJson_def file_obj_def Let_def)

text \<open>
  Claim C4, amended. For users \<open>A\<close> and \<open>B\<close>, any collection and any identifier:
  \<^enum> if \<open>A \<noteq> B\<close>, the list of \<open>A\<close> contains no record whose owner is \<open>B\<close>;
  \<^enum> the delete of \<open>A\<close> always replies (it does not throw);
  \<^enum> it replies with the not-found reply and leaves the collection as it is exactly when
    no record of the collection has that identifier and the owner \<open>A\<close>;
  \<^enum> if \<open>A \<noteq> B\<close> and the collection is one that \<open>readJson\<close> returns, then whatever the
    reply is, the records owned by \<open>B\<close> are the same before and after, in the same order;
  \<^enum> in particular, if \<open>A \<noteq> B\<close> and the identifiers of the collection are pairwise
    distinct, the delete of \<open>A\<close> for the identifier of a record owned by \<open>B\<close> is answered
    with the not-found reply and leaves the collection as it is.
\<close>

theorem C4_isolation:
  "(A \<noteq> B \<longrightarrow> (\<forall>e \<in> set (list_records A records). field e ''userId'' \<noteq> B)) \<and>
   (\<exists>rsp records'. deleteById msg A rid records = Reply rsp records') \<and>
   ((deleteById msg A rid records = Reply (Response 404 (error_body msg)) records) =
      (\<forall>e \<in> set records. \<not> (strict_eq (field e ''id'') (JNum rid) \<and> strict_eq (field e ''userId'') A))) \<and>
   (A \<noteq> B \<and> stored records \<longrightarrow>
      (\<forall>rsp records'. deleteById msg A rid records = Reply rsp records' \<longrightarrow>
         filter (\<lambda>e. field e ''userId'' = B) records' = filter (\<lambda>e. field e ''userId'' = B) records)) \<and>
   (A \<noteq> B \<and> r \<in> set records \<and> field r ''userId'' = B \<and> field r ''id'' = JNum rid \<and>
    distinct (map (\<lambda>e. field e ''id'') records) \<longrightarrow>
      deleteById msg A rid records = Reply (Response 404 (error_body msg)) records)"
proof -
  let ?P = "\<lambda>e. strict_eq (field e ''id'') (JNum rid) \<and> strict_eq (field e ''userId'') A"
  note dc = deleteById_cases [of rid A records msg]
  have c1: "A \<noteq> B \<longrightarrow> (\<forall>e \<in> set (list_records A records). field e ''userId'' \<noteq> B)"
    by (auto simp: list_records_def dest: strict_eq_imp_eq)
  have c2: "\<exists>rsp records'. deleteById msg A rid records = Reply rsp records'"
    using dc by auto
  have c3: "(deleteById msg A rid records = Reply (Response 404 (error_body msg)) records) =
      (\<forall>e \<in> set records. \<not> ?P e)"
  proof (cases "findIndex ?P records")
    case None
    with dc findIndex_None [of ?P records] show ?thesis by auto
  next
    case (Some i)
    then have "\<not> (\<forall>e \<in> set records. \<not> ?P e)"
      using findIndex_None [of ?P records] by simp
    with dc Some show ?thesis by auto
  qed
  have c4: "filter (\<lambda>e. field e ''userId'' = B) records' = filter (\<lambda>e. field e ''userId'' = B) records"
    if ab: "A \<noteq> B" and st: "stored records" and d: "deleteById msg A rid records = Reply rsp records'"
    for rsp records'
    using dc
  proof (elim disjE exE conjE)
    assume "deleteById msg A rid records = Reply (Response 404 (error_body msg)) records"
    with d show ?thesis by simp
  next
    fix i
    assume i: "i < length records" and o: "strict_eq (field (records ! i) ''userId'') A"
      and e: "deleteById msg A rid records =
        Reply (Response 200 (JObj (records ! i))) (writeJson (take i records @ drop (Suc i) records))"
    from o ab have "field (records ! i) ''userId'' \<noteq> B"
      by (auto dest: strict_eq_imp_eq)
    then have "filter (\<lambda>e. field e ''userId'' = B) (take i records @ drop (Suc i) records)
               = filter (\<lambda>e. field e ''userId'' = B) records"
      using i by (intro filter_remove_nth) simp_all
    moreover have "records' = take i records @ drop (Suc i) records"
      using d e writeJson_stored [OF stored_sublist [OF st, of i]] by simp
    ultimately show ?thesis by simp
  qed
  have c5: "deleteById msg A rid records = Reply (Response 404 (error_body msg)) records"
    if h: "A \<noteq> B \<and> r \<in> set records \<and> field r ''userId'' = B \<and> field r ''id'' = JNum rid \<and>
           distinct (map (\<lambda>e. field e ''id'') records)"
  proof -
    have "\<not> ?P e" if "e \<in> set records" for e
    proof
      assume p: "?P e"
      then have "field e ''id'' = field r ''id''"
        using h by (auto dest: strict_eq_imp_eq)
      with h that have "e = r"
        by (meson distinct_map inj_onD)
      with p h show False
        by (auto dest: strict_eq_imp_eq)
    qed
    with c3 show ?thesis by simp
  qed
  from c1 c2 c3 c4 c5 show ?thesis
    by blast
qed

text \<open>
  The statement at work: in a collection with distinct identifiers user 1 lists only the
  own record and cannot delete the record 2 of user 2; in the collection of the
  counterexample, where the identifier 2 is shared, the delete of user 1 is answered
  with 200 and the record of user 2 is still there.
\<close>

theorem C4_isolation_witness:
  "list_records (JNum (Fin 1))
       [[(''id'', JNum (Fin 1)), (''userId'', JNum (Fin 1))], [(''id'', JNum (Fin 2)), (''userId'', JNum (Fin 2))]]
     = [[(''id'', JNum (Fin 1)), (''userId'', JNum (Fin 1))]] \<and>
   deleteById ''Expense not found'' (JNum (Fin 1)) (Fin 2)
       [[(''id'', JNum (Fin 1)), (''userId'', JNum (Fin 1))], [(''id'', JNum (Fin 2)), (''userId'', JNum (Fin 2))]]
     = Reply (Response 404 (error_body ''Expense not found''))
         [[(''id'', JNum (Fin 1)), (''userId'', JNum (Fin 1))], [(''id'', JNum (Fin 2)), (''userId'', JNum (Fin 2))]] \<and>
   stored [[(''id'', JNum (Fin 2)), (''userId'', JNum (Fin 1))], [(''id'', JNum (Fin 2)), (''userId'', JNum (Fin 2))]] \<and>
   deleteById ''Expense not found'' (JNum (Fin 1)) (Fin 2)
       [[(''id'', JNum (Fin 2)), (''userId'', JNum (Fin 1))], [(''id'', JNum (Fin 2)), (''userId'', JNum (Fin 2))]]
     = Reply (Response 200 (JObj [(''id'', JNum (Fin 2)), (''userId'', JNum (Fin 1))]))
         [[(''id'', JNum (Fin 2)), (''userId'', JNum (Fin 2))]] \<and>
   filter (\<lambda>e. field e ''userId'' = JNum (Fin 2)) [[(''id'', JNum (Fin 2)), (''userId'', JNum (Fin 2))]]
     = filter (\<lambda>e. field e ''userId'' = JNum (Fin 2))
         [[(''id'', JNum (Fin 2)), (''userId'', JNum (Fin 1))], [(''id'', JNum (Fin 2)), (''userId'', JNum (Fin 2))]]"
  using C4_isolation [of "JNum (Fin 1)" "JNum (Fin 2)"
      "[[(''id'', JNum (Fin 1)), (''userId'', JNum (Fin 1))], [(''id'', JNum (Fin 2)), (''userId'', JNum (Fin 2))]]"
      "''Expense not found''" "Fin 2" "[(''id'', JNum (Fin 2)), (''userId'', JNum (Fin 2))]"]
    C4_isolation [of "JNum (Fin 1)" "JNum (Fin 2)"
      "[[(''id'', JNum (Fin 2)), (''userId'', JNum (Fin 1))], [(''id'', JNum (Fin 2)), (''userId'', JNum (Fin 2))]]"
      "''Expense not found''" "Fin 2" "[(''id'', JNum (Fin 2)), (''userId'', JNum (Fin 2))]"]
  by (simp add: list_records_def field_def stored_def file_obj_def deleteById_def writeJson_def Let_def)

subsection \<open>The expiry of a token (C1)\<close>

text \<open>
  Claim C1, as stated, fails at the boundary: a token issued at the instant
  \<open>1700000000000\<close> and verified exactly 24 hours later is accepted. The guard of
  \<open>verifyToken\<close> is \<^verbatim>\<open>payload.exp < Date.now()\<close>, which does not reject an expiry equal to
  the current time.
\<close>

theorem C1_counterexample:
  "verifyToken (1700000000000 + 86400000) (generateToken 1700000000000 (JNum (Fin 1)))
     = JObj [(''userId'', JNum (Fin 1)), (''exp'', JNum (Fin 1700086400000))]"
  using verify_generate [of "1700000000000 + 86400000" 1700000000000 1] by simp

text \<open>
  Claim C1, amended: a token issued by \<open>generateToken\<close> at the instant \<open>T\<close> (for an integer
  user identifier) is accepted by \<open>verifyToken\<close> at the instant \<open>t\<close> exactly when
  \<open>t \<le> T + 24 h\<close>: it is rejected at \<open>T + 24 h + \<epsilon>\<close>, accepted at \<open>T + 24 h - \<epsilon>\<close>, and
  accepted at exactly \<open>T + 24 h\<close>. Instants are integers, in milliseconds.
\<close>

theorem C1_expiry_boundary:
  "verifyToken t (generateToken T (JNum (Fin (of_int n)))) =
     (if t \<le> T + 24 * 60 * 60 * 1000
      then JObj [(''userId'', JNum (Fin (of_int n))), (''exp'', JNum (Fin (of_int (T + 24 * 60 * 60 * 1000))))]
      else JNull)"
  using verify_generate [of t T n] by simp

theorem C1_expiry_boundary_witness:
  "verifyToken 1700086400001 (generateToken 1700000000000 (JNum (Fin 1))) = JNull \<and>
   verifyToken 1700086399999 (generateToken 1700000000000 (JNum (Fin 1)))
     = JObj [(''userId'', JNum (Fin 1)), (''exp'', JNum (Fin 1700086400000))] \<and>
   verifyToken 1700086400000 (generateToken 1700000000000 (JNum (Fin 1)))
     = JObj [(''userId'', JNum (Fin 1)), (''exp'', JNum (Fin 1700086400000))]"
  using C1_expiry_boundary [of 1700086400001 1700000000000 1]
    C1_expiry_boundary [of 1700086399999 1700000000000 1]
    C1_expiry_boundary [of 1700086400000 1700000000000 1]
  by simp


subsection \<open>The next identifier (C2)\<close>

lemma upt_from_one: "[1..<Suc k] @ [if [1..<Suc k] = [] then 1 else last [1..<Suc k] + 1] = [1..<Suc (Suc k)]"
  by (cases k) simp_all

lemma create_all_ids:
  assumes H: "\<And>b rs rsp rs'. h b rs = Reply rsp rs' \<Longrightarrow> created rsp \<Longrightarrow>
                \<exists>new. rs' = writeJson (rs @ [new]) \<and> field new ''id'' = nextId rs"
  shows "ids_are [1..<Suc k] records \<Longrightarrow> create_all h bs records = Some records' \<Longrightarrow>
         ids_are [1..<Suc (k + length bs)] records'"
proof (induction bs arbitrary: k records)
  case Nil
  then show ?case by simp
next
  case (Cons b bs)
  from Cons.prems(2) obtain rsp rs where r: "h b records = Reply rsp rs" and c: "created rsp"
    and rest: "create_all h bs rs = Some records'"
    by (auto split: result.splits if_splits)
  from H [OF r c] obtain new where n: "rs = writeJson (records @ [new])" "field new ''id'' = nextId records"
    by blast
  have "ids_are ([1..<Suc k] @ [if [1..<Suc k] = [] then 1 else last [1..<Suc k] + 1]) rs"
    unfolding n(1) using Cons.prems(1) n(2) by (rule ids_are_append)
  then have "ids_are [1..<Suc (Suc k)] rs"
    by (simp only: upt_from_one)
  from Cons.IH [OF this rest] show ?case
    by simp
qed

lemma ids_are_Nil: "ids_are [] []"
  by (simp add: ids_are_def)

text \<open>
  A collection with the identifiers 10 and 2, in this order, is reached by two creations
  and a \<^verbatim>\<open>PUT /api/expenses/1\<close> with the body \<^verbatim>\<open>{"id":10}\<close>.
\<close>

lemma unordered_identifiers_reachable:
  "updateById ''Expense not found'' (JNum (Fin 1)) (Fin 1) (JObj [(''id'', JNum (Fin 10))])
       [[(''id'', JNum (Fin 1)), (''userId'', JNum (Fin 1)), (''category'', JStr ''food''),
         (''amount'', JNum (Fin 3)), (''date'', JStr d)],
        [(''id'', JNum (Fin 2)), (''userId'', JNum (Fin 1)), (''category'', JStr ''rent''),
         (''amount'', JNum (Fin 9)), (''date'', JStr d)]]
     = Reply (Response 200 (JObj [(''id'', JNum (Fin 10)), (''userId'', JNum (Fin 1)), (''category'', JStr ''food''),
                                  (''amount'', JNum (Fin 3)), (''date'', JStr d)]))
         [[(''id'', JNum (Fin 10)), (''userId'', JNum (Fin 1)), (''category'', JStr ''food''),
           (''amount'', JNum (Fin 3)), (''date'', JStr d)],
          [(''id'', JNum (Fin 2)), (''userId'', JNum (Fin 1)), (''category'', JStr ''rent''),
           (''amount'', JNum (Fin 9)), (''date'', JStr d)]]"
  by (simp add: updateById_def field_def writeJson_def file_obj_def spread_def Let_def)

text \<open>
  Claim C2, as stated, fails in that collection: the maximum identifier is 10, and the
  next creation assigns 3, one plus the identifier of the last record.
\<close>

theorem C2_counterexample:
  "post_expenses ''2024-05-02T10:00:00.000Z'' (JNum (Fin 1))
       (JObj [(''category'', JStr ''fuel''), (''amount'', JNum (Fin 7))])
       [[(''id'', JNum (Fin 10)), (''userId'', JNum (Fin 1)), (''category'', JStr ''food''),
         (''amount'', JNum (Fin 3)), (''date'', JStr ''2024-05-01T10:00:00.000Z'')],
        [(''id'', JNum (Fin 2)), (''userId'', JNum (Fin 1)), (''category'', JStr ''rent''),
         (''amount'', JNum (Fin 9)), (''date'', JStr ''2024-05-01T10:00:00.000Z'')]]
     = Reply (Response 201 (JObj [(''id'', JNum (Fin 3)), (''userId'', JNum (Fin 1)), (''category'', JStr ''fuel''),
                                  (''amount'', JNum (Fin 7)), (''date'', JStr ''2024-05-02T10:00:00.000Z'')]))
         [[(''id'', JNum (Fin 10)), (''userId'', JNum (Fin 1)), (''category'', JStr ''food''),
           (''amount'', JNum (Fin 3)), (''date'', JStr ''2024-05-01T10:00:00.000Z'')],
          [(''id'', JNum (Fin 2)), (''userId'', JNum (Fin 1)), (''category'', JStr ''rent''),
           (''amount'', JNum (Fin 9)), (''date'', JStr ''2024-05-01T10:00:00.000Z'')],
          [(''id'', JNum (Fin 3)), (''userId'', JNum (Fin 1)), (''category'', JStr ''fuel''),
           (''amount'', JNum (Fin 7)), (''date'', JStr ''2024-05-02T10:00:00.000Z'')]]"
  by (simp add: post_expenses_def field_def nextId_def to_number_def writeJson_def file_obj_def js_add_def Let_def)

text \<open>
  Claim C2, amended. In each collection (users, expenses, goals) the identifier assigned
  on insert is 1 if the collection is empty and one plus the identifier of the last
  record of the collection otherwise; this is one plus the maximum identifier when the
  identifiers are in ascending order. Consequently, \<open>N\<close> creations in a row on an
  initially empty collection, each answered with 201, assign the identifiers \<open>1..N\<close> in
  this order. (Identifiers are natural numbers below \<open>2\<^sup>5\<^sup>3\<close>, the range in which the
  sum of the code is the exact sum.)
\<close>

theorem C2_next_identifier:
  "nextId [] = JNum (Fin 1) \<and>
   (ids_are ns records \<and> ns \<noteq> [] \<and> last ns < 9007199254740992 \<longrightarrow>
      nextId records = JNum (Fin (of_nat (last ns + 1)))) \<and>
   (ids_are ns records \<and> ns \<noteq> [] \<and> sorted ns \<and> last ns < 9007199254740992 \<longrightarrow>
      nextId records = JNum (Fin (of_nat (Max (set ns) + 1)))) \<and>
   (post_expenses d A parsed records = Reply rsp records' \<and> created rsp \<longrightarrow>
      (\<exists>new. records' = writeJson (records @ [new]) \<and> field new ''id'' = nextId records)) \<and>
   (post_goals A parsed records = Reply rsp records' \<and> created rsp \<longrightarrow>
      (\<exists>new. records' = writeJson (records @ [new]) \<and> field new ''id'' = nextId records)) \<and>
   (post_register salt parsed records = Reply rsp records' \<and> created rsp \<longrightarrow>
      (\<exists>new. records' = writeJson (records @ [new]) \<and> field new ''id'' = nextId records)) \<and>
   (length bodies < 9007199254740992 \<and> create_all (post_expenses d A) bodies [] = Some expenses \<longrightarrow>
      ids_are [1..<Suc (length bodies)] expenses) \<and>
   (length bodies < 9007199254740992 \<and> create_all (post_goals A) bodies [] = Some goals \<longrightarrow>
      ids_are [1..<Suc (length bodies)] goals) \<and>
   (length salted < 9007199254740992 \<and>
    create_all (\<lambda>sb. post_register (fst sb) (snd sb)) salted [] = Some users \<longrightarrow>
      ids_are [1..<Suc (length salted)] users)"
proof (intro conjI impI)
  show "nextId [] = JNum (Fin 1)"
    by (simp add: nextId_def)
  show "nextId records = JNum (Fin (of_nat (last ns + 1)))"
    if "ids_are ns records \<and> ns \<noteq> [] \<and> last ns < 9007199254740992"
    using that nextId_ids [of ns records] by simp
  show "nextId records = JNum (Fin (of_nat (Max (set ns) + 1)))"
    if "ids_are ns records \<and> ns \<noteq> [] \<and> sorted ns \<and> last ns < 9007199254740992"
    using that nextId_ids [of ns records] sorted_last_Max [of ns] by simp
  show "\<exists>new. records' = writeJson (records @ [new]) \<and> field new ''id'' = nextId records"
    if "post_expenses d A parsed records = Reply rsp records' \<and> created rsp"
    using that post_expenses_created by blast
  show "\<exists>new. records' = writeJson (records @ [new]) \<and> field new ''id'' = nextId records"
    if "post_goals A parsed records = Reply rsp records' \<and> created rsp"
    using that post_goals_created by blast
  show "\<exists>new. records' = writeJson (records @ [new]) \<and> field new ''id'' = nextId records"
    if "post_register salt parsed records = Reply rsp records' \<and> created rsp"
    using that post_register_created by blast
  show "ids_are [1..<Suc (length bodies)] expenses"
    if "length bodies < 9007199254740992 \<and> create_all (post_expenses d A) bodies [] = Some expenses"
    using create_all_ids [of "post_expenses d A" 0 "[]" bodies expenses] that post_expenses_created ids_are_Nil
    by auto
  show "ids_are [1..<Suc (length bodies)] goals"
    if "length bodies < 9007199254740992 \<and> create_all (post_goals A) bodies [] = Some goals"
    using create_all_ids [of "post_goals A" 0 "[]" bodies goals] that post_goals_created ids_are_Nil
    by auto
  show "ids_are [1..<Suc (length salted)] users"
    if "length salted < 9007199254740992 \<and> create_all (\<lambda>sb. post_register (fst sb) (snd sb)) salted [] = Some users"
    using create_all_ids [of "\<lambda>sb. post_register (fst sb) (snd sb)" 0 "[]" salted users] that post_register_created
      ids_are_Nil
    by auto
qed


text \<open>
  The statement at work: after the records 1 and 2 the next identifier is 3, and two
  creations in a row on the empty collection give the identifiers 1 and 2.
\<close>

theorem C2_next_identifier_witness:
  "nextId [[(''id'', JNum (Fin 1)), (''userId'', JNum (Fin 1))], [(''id'', JNum (Fin 2)), (''userId'', JNum (Fin 1))]]
     = JNum (Fin 3) \<and>
   create_all (post_expenses ''2024-05-01T10:00:00.000Z'' (JNum (Fin 1)))
       [JObj [(''category'', JStr ''food''), (''amount'', JNum (Fin 3))],
        JObj [(''category'', JStr ''rent''), (''amount'', JNum (Fin 9))]] []
     = Some [[(''id'', JNum (Fin 1)), (''userId'', JNum (Fin 1)), (''category'', JStr ''food''),
              (''amount'', JNum (Fin 3)), (''date'', JStr ''2024-05-01T10:00:00.000Z'')],
             [(''id'', JNum (Fin 2)), (''userId'', JNum (Fin 1)), (''category'', JStr ''rent''),
              (''amount'', JNum (Fin 9)), (''date'', JStr ''2024-05-01T10:00:00.000Z'')]] \<and>
   map (\<lambda>r. field r ''id'')
       [[(''id'', JNum (Fin 1)), (''userId'', JNum (Fin 1)), (''category'', JStr ''food''),
         (''amount'', JNum (Fin 3)), (''date'', JStr ''2024-05-01T10:00:00.000Z'')],
        [(''id'', JNum (Fin 2)), (''userId'', JNum (Fin 1)), (''category'', JStr ''rent''),
         (''amount'', JNum (Fin 9)), (''date'', JStr ''2024-05-01T10:00:00.000Z'')]]
     = [JNum (Fin 1), JNum (Fin 2)]"
proof -
  let ?two = "[[(''id'', JNum (Fin 1)), (''userId'', JNum (Fin 1))], [(''id'', JNum (Fin 2)), (''userId'', JNum (Fin 1))]]"
  let ?bodies = "[JObj [(''category'', JStr ''food''), (''amount'', JNum (Fin 3))],
                  JObj [(''category'', JStr ''rent''), (''amount'', JNum (Fin 9))]]"
  let ?recs = "[[(''id'', JNum (Fin 1)), (''userId'', JNum (Fin 1)), (''category'', JStr ''food''),
                 (''amount'', JNum (Fin 3)), (''date'', JStr ''2024-05-01T10:00:00.000Z'')],
                [(''id'', JNum (Fin 2)), (''userId'', JNum (Fin 1)), (''category'', JStr ''rent''),
                 (''amount'', JNum (Fin 9)), (''date'', JStr ''2024-05-01T10:00:00.000Z'')]]"
  have i: "ids_are [1, 2] ?two"
    by (simp add: ids_are_def field_def)
  have c: "create_all (post_expenses ''2024-05-01T10:00:00.000Z'' (JNum (Fin 1))) ?bodies [] = Some ?recs"
    by (simp add: post_expenses_def field_def nextId_def to_number_def writeJson_def file_obj_def js_add_def Let_def)
  note t = C2_next_identifier [where ns = "[1, 2]" and records = ?two and d = "''2024-05-01T10:00:00.000Z''"
      and A = "JNum (Fin 1)" and bodies = ?bodies and expenses = ?recs]
  have w1: "nextId ?two = JNum (Fin (of_nat (Max (set [1, 2]) + 1)))"
    using t i by simp
  have w2: "ids_are [1..<Suc (length ?bodies)] ?recs"
    using t c by simp
  from w1 c w2 show ?thesis
    by (simp add: ids_are_def upt_rec)
qed

subsection \<open>Identifiers and owners under the operations (C3)\<close>

lemma post_expenses_cases:
  assumes "post_expenses d u parsed records = Reply rsp records'"
  shows "records' = records \<or> created rsp"
  using assms
  by (auto simp: post_expenses_def Let_def error_body_def split: option.splits if_splits)

lemma post_goals_cases:
  assumes "post_goals u parsed records = Reply rsp records'"
  shows "records' = records \<or> created rsp"
  using assms
  by (auto simp: post_goals_def Let_def error_body_def split: option.splits if_splits)

lemma post_register_cases:
  assumes "post_register salt parsed records = Reply rsp records'"
  shows "records' = records \<or> created rsp"
  using assms
  by (auto simp: post_register_def Let_def error_body_def split: option.splits if_splits)

lemma ids_are_distinct:
  assumes "ids_are ns records" and "sorted_wrt (<) ns"
  shows "distinct (map (\<lambda>e. field e ''id'') records)"
proof -
  have "distinct ns"
    using assms(2) strict_sorted_iff by blast
  moreover have "inj_on (\<lambda>n :: nat. JNum (Fin (of_nat n))) (set ns)"
    by (simp add: inj_on_def)
  ultimately have "distinct (map (\<lambda>n. JNum (Fin (of_nat n))) ns)"
    by (simp add: distinct_map)
  with assms(1) show ?thesis
    by (simp add: ids_are_def)
qed

lemma sorted_wrt_next: "sorted_wrt (<) ns \<Longrightarrow> sorted_wrt (<) (ns @ [if ns = [] then 1 else last ns + (1::nat)])"
proof (cases "ns = []")
  case True
  then show ?thesis by simp
next
  case False
  assume s: "sorted_wrt (<) ns"
  have "x < last ns + 1" if "x \<in> set ns" for x
  proof -
    have "sorted ns"
      using s strict_sorted_iff by blast
    then have "Max (set ns) = last ns"
      using False by (rule sorted_last_Max)
    with that have "x \<le> last ns"
      by (metis List.finite_set Max_ge)
    then show ?thesis by simp
  qed
  with s False show ?thesis
    by (simp add: sorted_wrt_append)
qed

lemma created_keeps:
  assumes st: "stored records" and i: "ids_are ns records" and s: "sorted_wrt (<) ns"
    and c: "records' = records \<or> created rsp"
    and n: "created rsp \<Longrightarrow> \<exists>new. records' = writeJson (records @ [new]) \<and> field new ''id'' = nextId records"
  shows "(\<exists>ns'. ids_are ns' records' \<and> sorted_wrt (<) ns') \<and> distinct (map (\<lambda>e. field e ''id'') records') \<and>
         take (length records) records' = records"
proof (cases "created rsp")
  case True
  from n [OF True] obtain new where new: "records' = writeJson (records @ [new])" "field new ''id'' = nextId records"
    by blast
  let ?ns = "ns @ [if ns = [] then 1 else last ns + 1]"
  have a: "ids_are ?ns records'"
    unfolding new(1) using i new(2) by (rule ids_are_append)
  have b: "sorted_wrt (<) ?ns"
    using s by (rule sorted_wrt_next)
  have "records' = records @ [file_obj new]"
    using writeJson_stored [OF st] by (simp add: new(1) writeJson_def)
  with a b ids_are_distinct [OF a b] show ?thesis
    by auto
next
  case False
  with c have "records' = records" by simp
  with i s ids_are_distinct [OF i s] show ?thesis
    by auto
qed

text \<open>
  Claim C3, as stated, fails: the merge of \<open>updateById\<close> takes every field of the body,
  the identifier and the owner included. User 1 sends \<^verbatim>\<open>PUT /api/expenses/1\<close> with the
  body \<^verbatim>\<open>{"id":2,"userId":2}\<close>; afterwards two records have the identifier 2, and the
  record of user 1 belongs to user 2.
\<close>

theorem C3_counterexample:
  "updateById ''Expense not found'' (JNum (Fin 1)) (Fin 1) (JObj [(''id'', JNum (Fin 2)), (''userId'', JNum (Fin 2))])
       [[(''id'', JNum (Fin 1)), (''userId'', JNum (Fin 1)), (''category'', JStr ''food''),
         (''amount'', JNum (Fin 3)), (''date'', JStr ''2024-05-01T10:00:00.000Z'')],
        [(''id'', JNum (Fin 2)), (''userId'', JNum (Fin 2)), (''category'', JStr ''rent''),
         (''amount'', JNum (Fin 9)), (''date'', JStr ''2024-05-01T10:00:00.000Z'')]]
     = Reply (Response 200 (JObj [(''id'', JNum (Fin 2)), (''userId'', JNum (Fin 2)), (''category'', JStr ''food''),
                                  (''amount'', JNum (Fin 3)), (''date'', JStr ''2024-05-01T10:00:00.000Z'')]))
         [[(''id'', JNum (Fin 2)), (''userId'', JNum (Fin 2)), (''category'', JStr ''food''),
           (''amount'', JNum (Fin 3)), (''date'', JStr ''2024-05-01T10:00:00.000Z'')],
          [(''id'', JNum (Fin 2)), (''userId'', JNum (Fin 2)), (''category'', JStr ''rent''),
           (''amount'', JNum (Fin 9)), (''date'', JStr ''2024-05-01T10:00:00.000Z'')]]"
  by (simp add: updateById_def field_def writeJson_def file_obj_def spread_def Let_def)

text \<open>
  Claim C3, amended. On a collection as read from its file:
  \<^enum> an update whose body has no field \<^verbatim>\<open>id\<close> and no field \<^verbatim>\<open>userId\<close> leaves the identifier
    and the owner of every record as they are, so pairwise distinct identifiers stay
    pairwise distinct, and the record of a 200 reply has the identifier of the request and
    the caller as its owner;
  \<^enum> a delete leaves the collection as it is or removes one record, so pairwise distinct
    identifiers stay pairwise distinct and no record changes;
  \<^enum> a creation (of an expense, a goal or a user) in a collection whose identifiers are
    natural numbers below \<open>2\<^sup>5\<^sup>3\<close> in strictly ascending order leaves the records there
    as they are and gives a collection whose identifiers are again natural numbers in
    strictly ascending order, hence pairwise distinct.
\<close>

theorem C3_identifiers_and_owners:
  "(stored records \<and> map_of (own_props updates) ''id'' = None \<and> map_of (own_props updates) ''userId'' = None \<and>
    updateById msg A rid updates records = Reply rsp records' \<longrightarrow>
      map (\<lambda>e. field e ''id'') records' = map (\<lambda>e. field e ''id'') records \<and>
      map (\<lambda>e. field e ''userId'') records' = map (\<lambda>e. field e ''userId'') records \<and>
      (distinct (map (\<lambda>e. field e ''id'') records) \<longrightarrow> distinct (map (\<lambda>e. field e ''id'') records')) \<and>
      (\<forall>changed. rsp = Response 200 (JObj changed) \<longrightarrow>
         strict_eq (field changed ''id'') (JNum rid) \<and> strict_eq (field changed ''userId'') A)) \<and>
   (stored records \<and> deleteById msg A rid records = Reply rsp records' \<longrightarrow>
      (records' = records \<or> (\<exists>i < length records. records' = take i records @ drop (Suc i) records)) \<and>
      (distinct (map (\<lambda>e. field e ''id'') records) \<longrightarrow> distinct (map (\<lambda>e. field e ''id'') records'))) \<and>
   (stored records \<and> ids_are ns records \<and> sorted_wrt (<) ns \<and> (\<forall>n \<in> set ns. n < 9007199254740992) \<and>
    (post_expenses d A parsed records = Reply rsp records' \<or>
     post_goals A parsed records = Reply rsp records' \<or>
     post_register salt parsed records = Reply rsp records') \<longrightarrow>
      (\<exists>ns'. ids_are ns' records' \<and> sorted_wrt (<) ns') \<and>
      distinct (map (\<lambda>e. field e ''id'') records') \<and>
      take (length records) records' = records)"
proof (intro conjI impI allI)
  assume h: "stored records \<and> map_of (own_props updates) ''id'' = None \<and> map_of (own_props updates) ''userId'' = None \<and>
    updateById msg A rid updates records = Reply rsp records'"
  note uc = updateById_cases [of rid A records msg updates]
  show a: "map (\<lambda>e. field e ''id'') records' = map (\<lambda>e. field e ''id'') records"
    using uc h update_keeps_field [of records _ "own_props updates" "''id''"] by auto
  show "map (\<lambda>e. field e ''userId'') records' = map (\<lambda>e. field e ''userId'') records"
    using uc h update_keeps_field [of records _ "own_props updates" "''userId''"] by auto
  show "distinct (map (\<lambda>e. field e ''id'') records')" if "distinct (map (\<lambda>e. field e ''id'') records)"
    using a that by simp
  fix changed
  assume r: "rsp = Response 200 (JObj changed)"
  from uc h r obtain i where i: "strict_eq (field (records ! i) ''id'') (JNum rid)"
      "strict_eq (field (records ! i) ''userId'') A" "changed = spread (records ! i) (own_props updates)"
    by (auto simp: error_body_def)
  with h show "strict_eq (field changed ''id'') (JNum rid)" "strict_eq (field changed ''userId'') A"
    by (simp_all add: field_spread)
next
  assume h: "stored records \<and> deleteById msg A rid records = Reply rsp records'"
  note dc = deleteById_cases [of rid A records msg]
  show a: "records' = records \<or> (\<exists>i < length records. records' = take i records @ drop (Suc i) records)"
    using dc h writeJson_stored [OF stored_sublist, of records] by auto
  show "distinct (map (\<lambda>e. field e ''id'') records')" if "distinct (map (\<lambda>e. field e ''id'') records)"
    using a
  proof (elim disjE exE conjE)
    assume "records' = records"
    with that show ?thesis by simp
  next
    fix i
    assume "records' = take i records @ drop (Suc i) records"
    then have "map (\<lambda>e. field e ''id'') records' =
        take i (map (\<lambda>e. field e ''id'') records) @ drop (Suc i) (map (\<lambda>e. field e ''id'') records)"
      by (simp add: take_map drop_map)
    with distinct_remove_nth [OF that, of i] show ?thesis
      by simp
  qed
next
  assume h: "stored records \<and> ids_are ns records \<and> sorted_wrt (<) ns \<and> (\<forall>n \<in> set ns. n < 9007199254740992) \<and>
    (post_expenses d A parsed records = Reply rsp records' \<or>
     post_goals A parsed records = Reply rsp records' \<or>
     post_register salt parsed records = Reply rsp records')"
  then have c: "records' = records \<or> created rsp"
    using post_expenses_cases post_goals_cases post_register_cases by blast
  have n: "\<exists>new. records' = writeJson (records @ [new]) \<and> field new ''id'' = nextId records" if "created rsp"
    using h that post_expenses_created post_goals_created post_register_created by blast
  from h have "stored records" "ids_are ns records" "sorted_wrt (<) ns"
    by simp_all
  from created_keeps [OF this c n]
  show "\<exists>ns'. ids_are ns' records' \<and> sorted_wrt (<) ns'" "distinct (map (\<lambda>e. field e ''id'') records')"
    "take (length records) records' = records"
    by simp_all
qed


text \<open>
  The statement at work, on a collection of two records: user 1 changes the category of
  record 1, deletes record 1, and creates a record.
\<close>

theorem C3_identifiers_and_owners_witness:
  "updateById ''Expense not found'' (JNum (Fin 1)) (Fin 1) (JObj [(''category'', JStr ''fuel'')])
       [[(''id'', JNum (Fin 1)), (''userId'', JNum (Fin 1)), (''category'', JStr ''food'')],
        [(''id'', JNum (Fin 2)), (''userId'', JNum (Fin 2)), (''category'', JStr ''rent'')]]
     = Reply (Response 200 (JObj [(''id'', JNum (Fin 1)), (''userId'', JNum (Fin 1)), (''category'', JStr ''fuel'')]))
         [[(''id'', JNum (Fin 1)), (''userId'', JNum (Fin 1)), (''category'', JStr ''fuel'')],
          [(''id'', JNum (Fin 2)), (''userId'', JNum (Fin 2)), (''category'', JStr ''rent'')]] \<and>
   map (\<lambda>e. field e ''userId'')
       [[(''id'', JNum (Fin 1)), (''userId'', JNum (Fin 1)), (''category'', JStr ''fuel'')],
        [(''id'', JNum (Fin 2)), (''userId'', JNum (Fin 2)), (''category'', JStr ''rent'')]]
     = [JNum (Fin 1), JNum (Fin 2)] \<and>
   distinct (map (\<lambda>e. field e ''id'')
       [[(''id'', JNum (Fin 1)), (''userId'', JNum (Fin 1)), (''category'', JStr ''fuel'')],
        [(''id'', JNum (Fin 2)), (''userId'', JNum (Fin 2)), (''category'', JStr ''rent'')]]) \<and>
   deleteById ''Expense not found'' (JNum (Fin 1)) (Fin 1)
       [[(''id'', JNum (Fin 1)), (''userId'', JNum (Fin 1)), (''category'', JStr ''food'')],
        [(''id'', JNum (Fin 2)), (''userId'', JNum (Fin 2)), (''category'', JStr ''rent'')]]
     = Reply (Response 200 (JObj [(''id'', JNum (Fin 1)), (''userId'', JNum (Fin 1)), (''category'', JStr ''food'')]))
         [[(''id'', JNum (Fin 2)), (''userId'', JNum (Fin 2)), (''category'', JStr ''rent'')]] \<and>
   post_goals (JNum (Fin 1)) (JObj [(''title'', JStr ''bike''), (''target'', JNum (Fin 500))])
       [[(''id'', JNum (Fin 1)), (''userId'', JNum (Fin 1)), (''category'', JStr ''food'')],
        [(''id'', JNum (Fin 2)), (''userId'', JNum (Fin 2)), (''category'', JStr ''rent'')]]
     = Reply (Response 201 (JObj [(''id'', JNum (Fin 3)), (''userId'', JNum (Fin 1)), (''title'', JStr ''bike''),
                                  (''target'', JNum (Fin 500)), (''frequency'', JStr ''monthly'')]))
         [[(''id'', JNum (Fin 1)), (''userId'', JNum (Fin 1)), (''category'', JStr ''food'')],
          [(''id'', JNum (Fin 2)), (''userId'', JNum (Fin 2)), (''category'', JStr ''rent'')],
          [(''id'', JNum (Fin 3)), (''userId'', JNum (Fin 1)), (''title'', JStr ''bike''),
           (''target'', JNum (Fin 500)), (''frequency'', JStr ''monthly'')]] \<and>
   distinct (map (\<lambda>e. field e ''id'')
       [[(''id'', JNum (Fin 1)), (''userId'', JNum (Fin 1)), (''category'', JStr ''food'')],
        [(''id'', JNum (Fin 2)), (''userId'', JNum (Fin 2)), (''category'', JStr ''rent'')],
        [(''id'', JNum (Fin 3)), (''userId'', JNum (Fin 1)), (''title'', JStr ''bike''),
         (''target'', JNum (Fin 500)), (''frequency'', JStr ''monthly'')]])"
proof -
  let ?S = "[[(''id'', JNum (Fin 1)), (''userId'', JNum (Fin 1)), (''category'', JStr ''food'')],
             [(''id'', JNum (Fin 2)), (''userId'', JNum (Fin 2)), (''category'', JStr ''rent'')]]"
  let ?U = "[[(''id'', JNum (Fin 1)), (''userId'', JNum (Fin 1)), (''category'', JStr ''fuel'')],
             [(''id'', JNum (Fin 2)), (''userId'', JNum (Fin 2)), (''category'', JStr ''rent'')]]"
  let ?G = "[[(''id'', JNum (Fin 1)), (''userId'', JNum (Fin 1)), (''category'', JStr ''food'')],
             [(''id'', JNum (Fin 2)), (''userId'', JNum (Fin 2)), (''category'', JStr ''rent'')],
             [(''id'', JNum (Fin 3)), (''userId'', JNum (Fin 1)), (''title'', JStr ''bike''),
              (''target'', JNum (Fin 500)), (''frequency'', JStr ''monthly'')]]"
  let ?ru = "Response 200 (JObj [(''id'', JNum (Fin 1)), (''userId'', JNum (Fin 1)), (''category'', JStr ''fuel'')])"
  let ?rg = "Response 201 (JObj [(''id'', JNum (Fin 3)), (''userId'', JNum (Fin 1)), (''title'', JStr ''bike''),
                                  (''target'', JNum (Fin 500)), (''frequency'', JStr ''monthly'')])"
  have st: "stored ?S"
    by (simp add: stored_def file_obj_def)
  have ds: "distinct (map (\<lambda>e. field e ''id'') ?S)" "map (\<lambda>e. field e ''userId'') ?S = [JNum (Fin 1), JNum (Fin 2)]"
    by (simp_all add: field_def)
  have ia: "ids_are [1, 2] ?S" "sorted_wrt (<) [1, 2 :: nat]" "\<forall>n \<in> set [1, 2 :: nat]. n < 9007199254740992"
    by (simp_all add: ids_are_def field_def)
  have u: "updateById ''Expense not found'' (JNum (Fin 1)) (Fin 1) (JObj [(''category'', JStr ''fuel'')]) ?S = Reply ?ru ?U"
    by (simp add: updateById_def field_def writeJson_def file_obj_def spread_def Let_def)
  have m: "map_of (own_props (JObj [(''category'', JStr ''fuel'')])) ''id'' = None"
    "map_of (own_props (JObj [(''category'', JStr ''fuel'')])) ''userId'' = None"
    by simp_all
  have g: "post_goals (JNum (Fin 1)) (JObj [(''title'', JStr ''bike''), (''target'', JNum (Fin 500))]) ?S = Reply ?rg ?G"
    by (simp add: post_goals_def field_def nextId_def to_number_def writeJson_def file_obj_def js_add_def Let_def)
  have dl: "deleteById ''Expense not found'' (JNum (Fin 1)) (Fin 1) ?S
     = Reply (Response 200 (JObj [(''id'', JNum (Fin 1)), (''userId'', JNum (Fin 1)), (''category'', JStr ''food'')]))
         [[(''id'', JNum (Fin 2)), (''userId'', JNum (Fin 2)), (''category'', JStr ''rent'')]]"
    by (simp add: deleteById_def field_def writeJson_def file_obj_def Let_def)
  have w1: "map (\<lambda>e. field e ''userId'') ?U = map (\<lambda>e. field e ''userId'') ?S" "distinct (map (\<lambda>e. field e ''id'') ?U)"
    using C3_identifiers_and_owners [where records = ?S and updates = "JObj [(''category'', JStr ''fuel'')]"
        and msg = "''Expense not found''" and A = "JNum (Fin 1)" and rid = "Fin 1" and rsp = ?ru and records' = ?U]
      st m u ds(1)
    by blast+
  have w2: "distinct (map (\<lambda>e. field e ''id'') ?G)"
    using C3_identifiers_and_owners [where records = ?S and ns = "[1, 2]" and A = "JNum (Fin 1)"
        and parsed = "JObj [(''title'', JStr ''bike''), (''target'', JNum (Fin 500))]" and rsp = ?rg and records' = ?G]
      st ia g
    by blast
  from u w1 ds(2) dl g w2 show ?thesis
    by simp
qed

subsection \<open>Malformed tokens (C5)\<close>

lemma payload_without_expiry:
  "JSON_parse (base64_decode ''eyJ1c2VySWQiOjF9'') = Some (JObj [(''userId'', JNum (Fin 1))])"
  by code_simp

text \<open>
  Claim C5, as stated, fails for a payload that is well-formed JSON without an expiry: the
  payload segment \<^verbatim>\<open>eyJ1c2VySWQiOjF9\<close> is the Base64 text of \<^verbatim>\<open>{"userId":1}\<close>, and
  with the matching signature the token is accepted, at any instant. \<open>verifyToken\<close> makes
  no test on the shape of the payload: \<^verbatim>\<open>payload.exp\<close> is \<^verbatim>\<open>undefined\<close>, and
  \<^verbatim>\<open>undefined < Date.now()\<close> is false.
\<close>

theorem C5_counterexample:
  "verifyToken 1700000000000 (''eyJ1c2VySWQiOjF9'' @ ''.'' @ sha256_hex (''eyJ1c2VySWQiOjF9'' @ SECRET))
     = JObj [(''userId'', JNum (Fin 1))]"
proof -
  have "CHR ''.'' \<notin> set ''eyJ1c2VySWQiOjF9''"
    by simp
  from verifyToken_signed [OF this, of 1700000000000] show ?thesis
    by (simp add: payload_without_expiry field_def js_less_num_def to_number_def)
qed

text \<open>
  Claim C5, amended: \<open>verifyToken\<close> rejects every token that does not split into exactly
  two parts at the dots. When the signature matches, it rejects a token whose payload
  segment does not decode to JSON text or decodes to \<^verbatim>\<open>null\<close>, and a token whose
  \<^verbatim>\<open>exp\<close>, converted to a number, is less than the current time; every other decoded
  value is returned as the payload, in particular an object without \<^verbatim>\<open>exp\<close>.
  (The Base64 decoder itself never fails.)
\<close>

theorem C5_structural_rejection:
  "(length (split (CHR ''.'') tok) \<noteq> 2 \<longrightarrow> verifyToken t tok = JNull) \<and>
   (CHR ''.'' \<notin> set b \<longrightarrow>
      (JSON_parse (base64_decode b) = None \<longrightarrow> verifyToken t (b @ ''.'' @ sha256_hex (b @ SECRET)) = JNull) \<and>
      (JSON_parse (base64_decode b) = Some JNull \<longrightarrow> verifyToken t (b @ ''.'' @ sha256_hex (b @ SECRET)) = JNull) \<and>
      (\<forall>payload. JSON_parse (base64_decode b) = Some payload \<and> payload \<noteq> JNull \<and> payload \<noteq> JUndefined \<longrightarrow>
         verifyToken t (b @ ''.'' @ sha256_hex (b @ SECRET)) =
           (if js_less_num (case get_prop payload ''exp'' of Some expiry \<Rightarrow> expiry | None \<Rightarrow> JUndefined) (Fin (of_int t))
            then JNull else payload)) \<and>
      (\<forall>fs. JSON_parse (base64_decode b) = Some (JObj fs) \<and> map_of fs ''exp'' = None \<longrightarrow>
         verifyToken t (b @ ''.'' @ sha256_hex (b @ SECRET)) = JObj fs))"
proof (intro conjI impI allI)
  assume "length (split (CHR ''.'') tok) \<noteq> 2"
  then show "verifyToken t tok = JNull"
    by (rule verifyToken_parts)
next
  assume d: "CHR ''.'' \<notin> set b" and "JSON_parse (base64_decode b) = None"
  then show "verifyToken t (b @ ''.'' @ sha256_hex (b @ SECRET)) = JNull"
    using verifyToken_signed [OF d, of t] by simp
next
  assume d: "CHR ''.'' \<notin> set b" and "JSON_parse (base64_decode b) = Some JNull"
  then show "verifyToken t (b @ ''.'' @ sha256_hex (b @ SECRET)) = JNull"
    using verifyToken_signed [OF d, of t] by simp
next
  fix payload
  assume d: "CHR ''.'' \<notin> set b"
    and p: "JSON_parse (base64_decode b) = Some payload \<and> payload \<noteq> JNull \<and> payload \<noteq> JUndefined"
  then obtain x where "get_prop payload ''exp'' = Some x"
    by (cases payload) auto
  with d p show "verifyToken t (b @ ''.'' @ sha256_hex (b @ SECRET)) =
           (if js_less_num (case get_prop payload ''exp'' of Some expiry \<Rightarrow> expiry | None \<Rightarrow> JUndefined) (Fin (of_int t))
            then JNull else payload)"
    using verifyToken_signed [OF d, of t] by simp
next
  fix fs
  assume d: "CHR ''.'' \<notin> set b"
    and p: "JSON_parse (base64_decode b) = Some (JObj fs) \<and> map_of fs ''exp'' = None"
  then show "verifyToken t (b @ ''.'' @ sha256_hex (b @ SECRET)) = JObj fs"
    using verifyToken_signed [OF d, of t] by (simp add: field_def js_less_num_def to_number_def)
qed

theorem C5_structural_rejection_witness:
  "verifyToken 1700000000000 ''abc'' = JNull \<and>
   verifyToken 1700000000000 (''bnVsbA=='' @ ''.'' @ sha256_hex (''bnVsbA=='' @ SECRET)) = JNull \<and>
   verifyToken 1700000000000 (''e3VzZXI='' @ ''.'' @ sha256_hex (''e3VzZXI='' @ SECRET)) = JNull \<and>
   verifyToken 1700000000000 (''eyJ1c2VySWQiOjF9'' @ ''.'' @ sha256_hex (''eyJ1c2VySWQiOjF9'' @ SECRET))
     = JObj [(''userId'', JNum (Fin 1))]"
proof -
  have a: "length (split (CHR ''.'') ''abc'') \<noteq> 2"
    by simp
  have n: "JSON_parse (base64_decode ''bnVsbA=='') = Some JNull"
    by code_simp
  have g: "JSON_parse (base64_decode ''e3VzZXI='') = None"
    by code_simp
  have d: "CHR ''.'' \<notin> set ''bnVsbA==''" "CHR ''.'' \<notin> set ''e3VzZXI=''" "CHR ''.'' \<notin> set ''eyJ1c2VySWQiOjF9''"
    by simp_all
  have m: "map_of [(''userId'', JNum (Fin 1))] ''exp'' = None"
    by simp
  have w1: "verifyToken 1700000000000 ''abc'' = JNull"
    using C5_structural_rejection [of "''abc''" 1700000000000 "''bnVsbA==''"] a by blast
  have w2: "verifyToken 1700000000000 (''bnVsbA=='' @ ''.'' @ sha256_hex (''bnVsbA=='' @ SECRET)) = JNull"
    using C5_structural_rejection [of "''abc''" 1700000000000 "''bnVsbA==''"] n d(1) by blast
  have w3: "verifyToken 1700000000000 (''e3VzZXI='' @ ''.'' @ sha256_hex (''e3VzZXI='' @ SECRET)) = JNull"
    using C5_structural_rejection [of "''abc''" 1700000000000 "''e3VzZXI=''"] g d(2) by blast
  have w4: "verifyToken 1700000000000 (''eyJ1c2VySWQiOjF9'' @ ''.'' @ sha256_hex (''eyJ1c2VySWQiOjF9'' @ SECRET))
     = JObj [(''userId'', JNum (Fin 1))]"
    using C5_structural_rejection [of "''abc''" 1700000000000 "''eyJ1c2VySWQiOjF9''"] payload_without_expiry m d(3)
    by blast
  from w1 w2 w3 w4 show ?thesis
    by blast
qed

subsection \<open>Round trip and tampering (C6)\<close>

text \<open>
  Claim C6: for every integer user identifier \<open>n\<close> and every issuance instant \<open>T\<close>, the
  token of \<open>generateToken\<close> verified before its expiry gives a payload whose user identifier
  is \<open>n\<close>; and every issued token (for any user identifier) is a payload segment without
  a dot, a dot and a signature segment of 64 characters, and \<open>verifyToken\<close> rejects it at
  every instant once one character of the signature segment is replaced by another.
\<close>

theorem C6_roundtrip_and_tamper:
  "(t \<le> T + 24 * 60 * 60 * 1000 \<longrightarrow>
      get_prop (verifyToken t (generateToken T (JNum (Fin (of_int n))))) ''userId'' = Some (JNum (Fin (of_int n)))) \<and>
   (\<forall>b sg i c. generateToken T uid = b @ ''.'' @ sg \<and> CHR ''.'' \<notin> set b \<and> i < length sg \<and> c \<noteq> sg ! i \<longrightarrow>
      verifyToken t (b @ ''.'' @ sg[i := c]) = JNull) \<and>
   (\<exists>b sg. generateToken T uid = b @ ''.'' @ sg \<and> CHR ''.'' \<notin> set b \<and> length sg = 64)"
proof (intro conjI impI allI)
  assume "t \<le> T + 24 * 60 * 60 * 1000"
  then show "get_prop (verifyToken t (generateToken T (JNum (Fin (of_int n))))) ''userId'' = Some (JNum (Fin (of_int n)))"
    using verify_generate [of t T n] by (simp add: field_def)
next
  fix b sg i c
  assume h: "generateToken T uid = b @ ''.'' @ sg \<and> CHR ''.'' \<notin> set b \<and> i < length sg \<and> c \<noteq> sg ! i"
  let ?b = "base64_encode (stringify (JObj [(''userId'', uid), (''exp'', JNum (Fin (of_int (T + 86400000))))]))"
  have "?b @ ''.'' @ sha256_hex (?b @ SECRET) = b @ ''.'' @ sg"
    using h generateToken_parts [of T uid] by simp
  moreover have "CHR ''.'' \<notin> set ?b"
    by (rule base64_encode_no_dot)
  ultimately have "split (CHR ''.'') (b @ ''.'' @ sg) = ?b # split (CHR ''.'') (sha256_hex (?b @ SECRET))"
    by (metis append_Cons append_Nil split_append_sep)
  moreover have "split (CHR ''.'') (b @ ''.'' @ sg) = b # split (CHR ''.'') sg"
    using h by (simp add: split_append_sep)
  ultimately have b: "b = ?b"
    by simp
  with \<open>?b @ ''.'' @ sha256_hex (?b @ SECRET) = b @ ''.'' @ sg\<close> have sg: "sg = sha256_hex (b @ SECRET)"
    by simp
  have "sg[i := c] \<noteq> sg"
    using h by (metis nth_list_update_eq)
  with sg have "sg[i := c] \<noteq> sha256_hex (b @ SECRET)"
    by simp
  with h show "verifyToken t (b @ ''.'' @ sg[i := c]) = JNull"
    using verifyToken_wrong_signature [of b "sg[i := c]" t] by simp
next
  show "\<exists>b sg. generateToken T uid = b @ ''.'' @ sg \<and> CHR ''.'' \<notin> set b \<and> length sg = 64"
    using generateToken_parts [of T uid] base64_encode_no_dot length_sha256_hex by blast
qed


theorem C6_roundtrip_and_tamper_witness:
  "get_prop (verifyToken 1700000000001 (generateToken 1700000000000 (JNum (Fin 7)))) ''userId'' = Some (JNum (Fin 7)) \<and>
   verifyToken 1700000000001
     (base64_encode (stringify (JObj [(''userId'', JNum (Fin 7)), (''exp'', JNum (Fin 1700086400000))])) @ ''.'' @
      (sha256_hex (base64_encode (stringify (JObj [(''userId'', JNum (Fin 7)), (''exp'', JNum (Fin 1700086400000))])) @ SECRET))
        [0 := CHR ''.'']) = JNull"
proof -
  let ?b = "base64_encode (stringify (JObj [(''userId'', JNum (Fin 7)), (''exp'', JNum (Fin 1700086400000))]))"
  let ?sg = "sha256_hex (?b @ SECRET)"
  note c6 = C6_roundtrip_and_tamper [of 1700000000001 1700000000000 7 "JNum (Fin 7)"]
  have g: "generateToken 1700000000000 (JNum (Fin 7)) = ?b @ ''.'' @ ?sg"
    using generateToken_parts [of 1700000000000 "JNum (Fin 7)"] by simp
  have l: "0 < length ?sg"
    by (simp add: length_sha256_hex)
  then have "?sg ! 0 \<in> set ?sg"
    by simp
  then have ne: "CHR ''.'' \<noteq> ?sg ! 0"
    using sha256_hex_no_dot [of "?b @ SECRET"] by metis
  have d: "CHR ''.'' \<notin> set ?b"
    by (rule base64_encode_no_dot)
  have w1: "get_prop (verifyToken 1700000000001 (generateToken 1700000000000 (JNum (Fin 7)))) ''userId'' = Some (JNum (Fin 7))"
    using c6 by simp
  have w2: "verifyToken 1700000000001 (?b @ ''.'' @ ?sg[0 := CHR ''.'']) = JNull"
    using c6 g l ne d by blast
  from w1 w2 show ?thesis
    by blast
qed

subsection \<open>Passwords (C8)\<close>

lemma hashPassword_strings: "hashPassword (JStr p) (JStr s) = Some (sha256_hex (p @ s))"
  by (simp add: hashPassword_def js_add_def)

lemma hashPassword_salted: "\<exists>h. hashPassword pw (JStr s) = Some h"
  by (simp add: hashPassword_def js_add_def Let_def)

lemma nextId_defined: "nextId xs \<noteq> JUndefined"
  by (simp add: nextId_def js_add_def Let_def)

text \<open>
  There are infinitely many passwords and finitely many digests: under every salt two
  different passwords have the same digest.
\<close>

lemma digest_collision: "\<exists>p p'. p \<noteq> p' \<and> sha256_hex (p @ s) = sha256_hex (p' @ s)"
proof (rule ccontr)
  assume "\<not> (\<exists>p p'. p \<noteq> p' \<and> sha256_hex (p @ s) = sha256_hex (p' @ s))"
  then have "inj (\<lambda>p. sha256_hex (p @ s))"
    by (auto simp: inj_on_def)
  moreover have "finite (range (\<lambda>p. sha256_hex (p @ s)))"
  proof (rule finite_subset)
    show "range (\<lambda>p. sha256_hex (p @ s)) \<subseteq> {xs. set xs \<subseteq> (UNIV :: char set) \<and> length xs = 64}"
      by (auto simp: length_sha256_hex)
    show "finite {xs. set xs \<subseteq> (UNIV :: char set) \<and> length xs = 64}"
      by (rule finite_lists_length_eq) simp
  qed
  ultimately have "finite (UNIV :: string set)"
    by (rule finite_imageD [rotated])
  then show False
    using infinite_UNIV_listI by blast
qed

lemma find_append_new: "find P xs = None \<Longrightarrow> P y \<Longrightarrow> find P (xs @ [y]) = Some y"
  by (induction xs) (auto split: if_splits)

lemma register_then_find:
  assumes st: "stored users"
    and un: "get_prop parsed ''username'' = Some (JStr u)" and pw: "get_prop parsed ''password'' = Some (JStr p)"
    and reg: "post_register salt parsed users = Reply rsp users'"
    and cr: "created rsp"
  shows "users' = users @ [[(''id'', file_val (nextId users)), (''username'', JStr u), (''salt'', JStr salt),
                            (''hashed'', JStr (sha256_hex (p @ salt)))]]"
    and "find (\<lambda>x. strict_eq (field x ''username'') (JStr u)) users = None"
proof -
  from reg cr un pw have n: "\<not> list_ex (\<lambda>x. strict_eq (field x ''username'') (JStr u)) users"
    by (auto simp: post_register_def error_body_def split: if_splits)
  then show "find (\<lambda>x. strict_eq (field x ''username'') (JStr u)) users = None"
    by (simp add: find_None_iff list_ex_iff)
  from reg cr n un pw
  have "users' = writeJson (users @ [[(''id'', nextId users), (''username'', JStr u), (''salt'', JStr salt),
                            (''hashed'', JStr (sha256_hex (p @ salt)))]])"
    by (auto simp: post_register_def error_body_def hashPassword_strings split: if_splits)
  then show "users' = users @ [[(''id'', file_val (nextId users)), (''username'', JStr u), (''salt'', JStr salt),
                            (''hashed'', JStr (sha256_hex (p @ salt)))]]"
    using writeJson_stored [OF st] nextId_defined [of users] by (simp add: writeJson_def file_obj_def)
qed

lemma login_after_register:
  assumes st: "stored users"
    and un: "get_prop parsed ''username'' = Some (JStr u)" and pw: "get_prop parsed ''password'' = Some (JStr p)"
    and reg: "post_register salt parsed users = Reply rsp users'"
    and cr: "created rsp"
    and un': "get_prop parsed' ''username'' = Some (JStr u)" and pw': "get_prop parsed' ''password'' = Some q"
  shows "post_login now parsed' users' =
           (if hashPassword q (JStr salt) = hashPassword (JStr p) (JStr salt)
            then Reply (Response 200 (JObj [(''token'', JStr (generateToken now (field (last users') ''id'')))])) users'
            else Reply (Response 401 (error_body ''Invalid username or password'')) users')"
proof -
  obtain h where h: "hashPassword q (JStr salt) = Some h"
    using hashPassword_salted by blast
  note f = register_then_find(2) [OF st un pw reg cr]
  note e = register_then_find(1) [OF st un pw reg cr]
  have "find (\<lambda>x. strict_eq (field x ''username'') (JStr u)) users' =
          Some [(''id'', file_val (nextId users)), (''username'', JStr u), (''salt'', JStr salt),
                          (''hashed'', JStr (sha256_hex (p @ salt)))]"
    unfolding e using f by (rule find_append_new) (simp add: field_def)
  then show ?thesis
    using h un' pw' by (simp add: post_login_def field_def hashPassword_strings e)
qed

text \<open>
  Claim C8, as stated, fails: the digest is taken of the password followed by the salt,
  without a mark between the two, so the password \<^verbatim>\<open>a\<close> with the salt \<^verbatim>\<open>bc\<close> verifies
  against the digest derived from the password \<^verbatim>\<open>ab\<close> with the salt \<^verbatim>\<open>c\<close>, although
  salt and password both differ. And under every salt two different passwords have the
  same digest, since there are only finitely many digests: for a user registered with
  the one, the login with the other is accepted.
\<close>

theorem C8_counterexample:
  "hashPassword (JStr ''ab'') (JStr ''c'') = hashPassword (JStr ''a'') (JStr ''bc'') \<and>
   (\<forall>s. \<exists>p p'. p \<noteq> p' \<and> hashPassword (JStr p) (JStr s) = hashPassword (JStr p') (JStr s))"
  using digest_collision by (simp add: hashPassword_strings)

text \<open>
  Claim C8, amended. \<open>hashPassword\<close> of a password and a salt that are strings is the
  SHA-256 digest, in hexadecimal, of the password followed by the salt: it is determined
  by the two, and recomputing it with the same password and salt gives the same digest.
  With a salt that is a string it returns a digest for every password value (it does not
  throw), and two digests are equal exactly when the comparison of the login says so.
  When the two salts have the same length (the salts of registration all have 32
  characters), a different salt or a different password gives a different digested text.
  After a registration answered with 201 (for a username and a password that are strings,
  on a collection as read from the file), the login with the same username and password
  is answered with 200 and a token for the identifier of the new user, and the login with
  the same username and any other password value is answered, without throwing, with 401
  \<^verbatim>\<open>Invalid username or password\<close> unless its digest under the stored salt is the stored
  digest.
\<close>

theorem C8_password_roundtrip:
  "hashPassword (JStr p) (JStr s) = Some (sha256_hex (p @ s)) \<and>
   (\<exists>h. hashPassword q (JStr s) = Some h) \<and>
   (length s = length s' \<longrightarrow> (p @ s = p' @ s') = (p = p' \<and> s = s')) \<and>
   (stored users \<and> get_prop parsed ''username'' = Some (JStr u) \<and> get_prop parsed ''password'' = Some (JStr p) \<and>
    post_register salt parsed users = Reply rsp users' \<and> created rsp \<and>
    get_prop parsed' ''username'' = Some (JStr u) \<longrightarrow>
      (get_prop parsed' ''password'' = Some (JStr p) \<longrightarrow>
         post_login now parsed' users' =
           Reply (Response 200 (JObj [(''token'', JStr (generateToken now (field (last users') ''id'')))])) users') \<and>
      (get_prop parsed' ''password'' = Some q \<longrightarrow>
         post_login now parsed' users' =
           (if hashPassword q (JStr salt) = hashPassword (JStr p) (JStr salt)
            then Reply (Response 200 (JObj [(''token'', JStr (generateToken now (field (last users') ''id'')))])) users'
            else Reply (Response 401 (error_body ''Invalid username or password'')) users')))"
proof (intro conjI impI)
  show "hashPassword (JStr p) (JStr s) = Some (sha256_hex (p @ s))"
    by (rule hashPassword_strings)
  show "\<exists>h. hashPassword q (JStr s) = Some h"
    by (rule hashPassword_salted)
  show "(p @ s = p' @ s') = (p = p' \<and> s = s')" if "length s = length s'"
    using that by simp
next
  assume h: "stored users \<and> get_prop parsed ''username'' = Some (JStr u) \<and> get_prop parsed ''password'' = Some (JStr p) \<and>
    post_register salt parsed users = Reply rsp users' \<and> created rsp \<and>
    get_prop parsed' ''username'' = Some (JStr u)"
  {
    assume "get_prop parsed' ''password'' = Some (JStr p)"
    with h show "post_login now parsed' users' =
           Reply (Response 200 (JObj [(''token'', JStr (generateToken now (field (last users') ''id'')))])) users'"
      using login_after_register [of users parsed u p salt rsp users' parsed' "JStr p" now] by simp
  next
    assume "get_prop parsed' ''password'' = Some q"
    with h show "post_login now parsed' users' =
           (if hashPassword q (JStr salt) = hashPassword (JStr p) (JStr salt)
            then Reply (Response 200 (JObj [(''token'', JStr (generateToken now (field (last users') ''id'')))])) users'
            else Reply (Response 401 (error_body ''Invalid username or password'')) users')"
      using login_after_register [of users parsed u p salt rsp users' parsed' q now] by simp
  }
qed

text \<open>
  The statement at work: user \<^verbatim>\<open>ann\<close> registers with the password \<^verbatim>\<open>pw1\<close> on the empty
  collection and logs in with it.
\<close>

theorem C8_password_roundtrip_witness:
  "post_register ''00'' (JObj [(''username'', JStr ''ann''), (''password'', JStr ''pw1'')]) []
     = Reply (Response 201 (JObj [(''message'', JStr ''User registered successfully'')]))
         [[(''id'', JNum (Fin 1)), (''username'', JStr ''ann''), (''salt'', JStr ''00''),
           (''hashed'', JStr (sha256_hex ''pw100''))]] \<and>
   post_login 1700000000000 (JObj [(''username'', JStr ''ann''), (''password'', JStr ''pw1'')])
       [[(''id'', JNum (Fin 1)), (''username'', JStr ''ann''), (''salt'', JStr ''00''),
         (''hashed'', JStr (sha256_hex ''pw100''))]]
     = Reply (Response 200 (JObj [(''token'', JStr (generateToken 1700000000000 (JNum (Fin 1))))]))
         [[(''id'', JNum (Fin 1)), (''username'', JStr ''ann''), (''salt'', JStr ''00''),
           (''hashed'', JStr (sha256_hex ''pw100''))]] \<and>
   post_login 1700000000000 (JObj [(''username'', JStr ''ann''), (''password'', JStr ''pw2'')])
       [[(''id'', JNum (Fin 1)), (''username'', JStr ''ann''), (''salt'', JStr ''00''),
         (''hashed'', JStr (sha256_hex ''pw100''))]]
     = (if sha256_hex ''pw200'' = sha256_hex ''pw100''
        then Reply (Response 200 (JObj [(''token'', JStr (generateToken 1700000000000 (JNum (Fin 1))))]))
               [[(''id'', JNum (Fin 1)), (''username'', JStr ''ann''), (''salt'', JStr ''00''),
                 (''hashed'', JStr (sha256_hex ''pw100''))]]
        else Reply (Response 401 (error_body ''Invalid username or password''))
               [[(''id'', JNum (Fin 1)), (''username'', JStr ''ann''), (''salt'', JStr ''00''),
                 (''hashed'', JStr (sha256_hex ''pw100''))]])"
proof -
  let ?us = "[[(''id'', JNum (Fin 1)), (''username'', JStr ''ann''), (''salt'', JStr ''00''),
               (''hashed'', JStr (sha256_hex ''pw100''))]]"
  let ?reg = "JObj [(''username'', JStr ''ann''), (''password'', JStr ''pw1'')]"
  let ?rsp = "Response 201 (JObj [(''message'', JStr ''User registered successfully'')])"
  have r: "post_register ''00'' ?reg [] = Reply ?rsp ?us"
    by (simp add: post_register_def field_def hashPassword_strings nextId_def writeJson_def file_obj_def)
  have s: "stored []" "created ?rsp"
    by (simp_all add: stored_def)
  have g: "get_prop ?reg ''username'' = Some (JStr ''ann'')" "get_prop ?reg ''password'' = Some (JStr ''pw1'')"
    "get_prop (JObj [(''username'', JStr ''ann''), (''password'', JStr ''pw2'')]) ''username'' = Some (JStr ''ann'')"
    "get_prop (JObj [(''username'', JStr ''ann''), (''password'', JStr ''pw2'')]) ''password'' = Some (JStr ''pw2'')"
    by (simp_all add: field_def)
  have w1: "post_login 1700000000000 ?reg ?us
     = Reply (Response 200 (JObj [(''token'', JStr (generateToken 1700000000000 (field (last ?us) ''id'')))])) ?us"
    using C8_password_roundtrip [of "''pw1''" "''00''" "JStr ''pw2''" "''00''" "''pw1''" "[]" ?reg "''ann''" "''00''" ?rsp ?us
        ?reg 1700000000000] r s g
    by blast
  have w2: "post_login 1700000000000 (JObj [(''username'', JStr ''ann''), (''password'', JStr ''pw2'')]) ?us
     = (if hashPassword (JStr ''pw2'') (JStr ''00'') = hashPassword (JStr ''pw1'') (JStr ''00'')
        then Reply (Response 200 (JObj [(''token'', JStr (generateToken 1700000000000 (field (last ?us) ''id'')))])) ?us
        else Reply (Response 401 (error_body ''Invalid username or password'')) ?us)"
    using C8_password_roundtrip [of "''pw1''" "''00''" "JStr ''pw2''" "''00''" "''pw1''" "[]" ?reg "''ann''" "''00''" ?rsp ?us
        "JObj [(''username'', JStr ''ann''), (''password'', JStr ''pw2'')]" 1700000000000] r s g
    by blast
  from r w1 w2 show ?thesis
    by (simp add: field_def hashPassword_strings)
qed

subsection \<open>Uniform rejection at the session gate (C9)\<close>

text \<open>
  Claim C9: on every route behind the session gate (every request under \<^verbatim>\<open>/api\<close> other
  than \<^verbatim>\<open>OPTIONS\<close>, registration and login) and for every \<^verbatim>\<open>Authorization\<close> header, the
  request either passes the gate with the user identifier of the payload that
  \<open>verifyToken\<close> accepted, or is answered with the one reply 401 \<^verbatim>\<open>{"error":"Unauthorized"}\<close>
  and the files unchanged. A missing header, a token that is not two parts, a signature
  that does not match and an expired token all get this same reply.
\<close>

theorem C9_uniform_unauthorized:
  assumes "startsWith (pathname req) ''/api''" and "httpMethod req \<noteq> ''OPTIONS''"
    and "\<not> (httpMethod req = ''POST'' \<and> pathname req = ''/api/register'')"
    and "\<not> (httpMethod req = ''POST'' \<and> pathname req = ''/api/login'')"
  shows "(handleApi ev fs req = Replied (Response 401 (error_body ''Unauthorized'')) fs \<or>
          (\<exists>payload userId. verifyToken (dateNow ev) (bearer (authorization req)) = payload \<and> truthy payload \<and>
              get_prop payload ''userId'' = Some userId \<and>
              session_gate (dateNow ev) (authorization req) = Inr userId)) \<and>
         (authorization req = None \<longrightarrow>
            handleApi ev fs req = Replied (Response 401 (error_body ''Unauthorized'')) fs) \<and>
         (length (split (CHR ''.'') (bearer (authorization req))) \<noteq> 2 \<longrightarrow>
            handleApi ev fs req = Replied (Response 401 (error_body ''Unauthorized'')) fs) \<and>
         (\<forall>b sg. bearer (authorization req) = b @ ''.'' @ sg \<and> CHR ''.'' \<notin> set b \<and> sg \<noteq> sha256_hex (b @ SECRET) \<longrightarrow>
            handleApi ev fs req = Replied (Response 401 (error_body ''Unauthorized'')) fs) \<and>
         (\<forall>T n. bearer (authorization req) = generateToken T (JNum (Fin (of_int n))) \<and>
                 T + 24 * 60 * 60 * 1000 < dateNow ev \<longrightarrow>
            handleApi ev fs req = Replied (Response 401 (error_body ''Unauthorized'')) fs)"
proof -
  let ?tok = "bearer (authorization req)"
  let ?U = "Replied (Response 401 (error_body ''Unauthorized'')) fs"
  have rej: "handleApi ev fs req = ?U" if "verifyToken (dateNow ev) ?tok = JNull"
    using handleApi_gate [OF assms gate_rejects, of ev fs] that by simp
  have c1: "handleApi ev fs req = ?U \<or>
          (\<exists>payload userId. verifyToken (dateNow ev) ?tok = payload \<and> truthy payload \<and>
              get_prop payload ''userId'' = Some userId \<and>
              session_gate (dateNow ev) (authorization req) = Inr userId)"
  proof (cases "truthy (verifyToken (dateNow ev) ?tok)")
    case True
    then obtain u where "get_prop (verifyToken (dateNow ev) ?tok) ''userId'' = Some u"
      by (cases "verifyToken (dateNow ev) ?tok") auto
    with True show ?thesis
      by (simp add: session_gate_def)
  next
    case False
    then show ?thesis
      using handleApi_gate [OF assms gate_rejects, of ev fs] by simp
  qed
  have c2: "handleApi ev fs req = ?U" if "authorization req = None"
    using that by (intro rej) (simp add: bearer_def trim_def verifyToken_def)
  have c3: "handleApi ev fs req = ?U" if "length (split (CHR ''.'') ?tok) \<noteq> 2"
    using that by (intro rej verifyToken_parts)
  have c4: "handleApi ev fs req = ?U"
    if "?tok = b @ ''.'' @ sg \<and> CHR ''.'' \<notin> set b \<and> sg \<noteq> sha256_hex (b @ SECRET)" for b sg
    using that verifyToken_wrong_signature [of b sg "dateNow ev"] by (intro rej) simp
  have c5: "handleApi ev fs req = ?U"
    if "?tok = generateToken T (JNum (Fin (of_int n))) \<and> T + 24 * 60 * 60 * 1000 < dateNow ev" for T n
    using that verify_generate [of "dateNow ev" T n] by (intro rej) simp
  from c1 c2 c3 c4 c5 show ?thesis
    by blast
qed

text \<open>
  The statement at work, at the instant \<open>1700086400001\<close>: a request without the header, one with
  a token of one part, one with a signature that does not match, and one with a token
  issued 24 hours and a millisecond before.
\<close>

lemma bearer_abc: "bearer (Some ''Bearer abc'') = ''abc''" "bearer (Some ''Bearer ab.cd'') = ''ab.cd''"
  by code_simp+

theorem C9_uniform_unauthorized_witness:
  "handleApi \<lparr>dateNow = 1700086400001, dateIso = ''2023-11-15T22:13:20.001Z'', randomHex = ''00''\<rparr>
       \<lparr>usersFile = [], expensesFile = [], goalsFile = []\<rparr>
       \<lparr>httpMethod = ''GET'', pathname = ''/api/expenses'', authorization = None, body = []\<rparr>
     = Replied (Response 401 (error_body ''Unauthorized'')) \<lparr>usersFile = [], expensesFile = [], goalsFile = []\<rparr> \<and>
   handleApi \<lparr>dateNow = 1700086400001, dateIso = ''2023-11-15T22:13:20.001Z'', randomHex = ''00''\<rparr>
       \<lparr>usersFile = [], expensesFile = [], goalsFile = []\<rparr>
       \<lparr>httpMethod = ''GET'', pathname = ''/api/expenses'', authorization = Some ''Bearer abc'', body = []\<rparr>
     = Replied (Response 401 (error_body ''Unauthorized'')) \<lparr>usersFile = [], expensesFile = [], goalsFile = []\<rparr> \<and>
   handleApi \<lparr>dateNow = 1700086400001, dateIso = ''2023-11-15T22:13:20.001Z'', randomHex = ''00''\<rparr>
       \<lparr>usersFile = [], expensesFile = [], goalsFile = []\<rparr>
       \<lparr>httpMethod = ''DELETE'', pathname = ''/api/goals/1'', authorization = Some ''Bearer ab.cd'', body = []\<rparr>
     = Replied (Response 401 (error_body ''Unauthorized'')) \<lparr>usersFile = [], expensesFile = [], goalsFile = []\<rparr> \<and>
   handleApi \<lparr>dateNow = 1700086400001, dateIso = ''2023-11-15T22:13:20.001Z'', randomHex = ''00''\<rparr>
       \<lparr>usersFile = [], expensesFile = [], goalsFile = []\<rparr>
       \<lparr>httpMethod = ''POST'', pathname = ''/api/expenses'',
        authorization = Some (''Bearer '' @ generateToken 1700000000000 (JNum (Fin 1))), body = []\<rparr>
     = Replied (Response 401 (error_body ''Unauthorized'')) \<lparr>usersFile = [], expensesFile = [], goalsFile = []\<rparr>"
proof -
  let ?ev = "\<lparr>dateNow = 1700086400001, dateIso = ''2023-11-15T22:13:20.001Z'', randomHex = ''00''\<rparr>"
  let ?fs = "\<lparr>usersFile = [], expensesFile = [], goalsFile = []\<rparr>"
  let ?U = "Replied (Response 401 (error_body ''Unauthorized'')) ?fs"
  have w1: "handleApi ?ev ?fs \<lparr>httpMethod = ''GET'', pathname = ''/api/expenses'', authorization = None, body = []\<rparr> = ?U"
    using C9_uniform_unauthorized [of "\<lparr>httpMethod = ''GET'', pathname = ''/api/expenses'', authorization = None, body = []\<rparr>" ?ev ?fs]
    by (simp add: startsWith_def)
  have w2: "handleApi ?ev ?fs \<lparr>httpMethod = ''GET'', pathname = ''/api/expenses'', authorization = Some ''Bearer abc'', body = []\<rparr> = ?U"
    using C9_uniform_unauthorized [of "\<lparr>httpMethod = ''GET'', pathname = ''/api/expenses'', authorization = Some ''Bearer abc'', body = []\<rparr>" ?ev ?fs]
    by (simp add: startsWith_def bearer_abc)
  let ?r3 = "\<lparr>httpMethod = ''DELETE'', pathname = ''/api/goals/1'', authorization = Some ''Bearer ab.cd'', body = []\<rparr>"
  have ne: "''cd'' \<noteq> sha256_hex (''ab'' @ SECRET)"
  proof
    assume "''cd'' = sha256_hex (''ab'' @ SECRET)"
    then have "length ''cd'' = length (sha256_hex (''ab'' @ SECRET))"
      by (rule arg_cong)
    then show False
      by (simp only: length_sha256_hex) simp
  qed
  have h3: "startsWith (pathname ?r3) ''/api''" "httpMethod ?r3 \<noteq> ''OPTIONS''"
    "\<not> (httpMethod ?r3 = ''POST'' \<and> pathname ?r3 = ''/api/register'')"
    "\<not> (httpMethod ?r3 = ''POST'' \<and> pathname ?r3 = ''/api/login'')"
    by (simp_all add: startsWith_def)
  have b3: "bearer (authorization ?r3) = ''ab'' @ ''.'' @ ''cd''" "CHR ''.'' \<notin> set ''ab''"
    by (simp_all add: bearer_abc)
  from C9_uniform_unauthorized [OF h3, of ?ev ?fs]
  have "\<forall>b sg. bearer (authorization ?r3) = b @ ''.'' @ sg \<and> CHR ''.'' \<notin> set b \<and> sg \<noteq> sha256_hex (b @ SECRET) \<longrightarrow>
            handleApi ?ev ?fs ?r3 = ?U"
    by blast
  with b3 ne have w3: "handleApi ?ev ?fs ?r3 = ?U"
    by blast
  let ?r4 = "\<lparr>httpMethod = ''POST'', pathname = ''/api/expenses'',
        authorization = Some (''Bearer '' @ generateToken 1700000000000 (JNum (Fin 1))), body = []\<rparr>"
  have h4: "startsWith (pathname ?r4) ''/api''" "httpMethod ?r4 \<noteq> ''OPTIONS''"
    "\<not> (httpMethod ?r4 = ''POST'' \<and> pathname ?r4 = ''/api/register'')"
    "\<not> (httpMethod ?r4 = ''POST'' \<and> pathname ?r4 = ''/api/login'')"
    by (simp_all add: startsWith_def)
  have b4: "bearer (authorization ?r4) = generateToken 1700000000000 (JNum (Fin (of_int 1)))"
    "(1700000000000::int) + 24 * 60 * 60 * 1000 < dateNow ?ev"
    using bearer_issued [of 1700000000000 "JNum (Fin 1)"] by simp_all
  from C9_uniform_unauthorized [OF h4, of ?ev ?fs]
  have "\<forall>T n. bearer (authorization ?r4) = generateToken T (JNum (Fin (of_int n))) \<and>
                 T + 24 * 60 * 60 * 1000 < dateNow ?ev \<longrightarrow> handleApi ?ev ?fs ?r4 = ?U"
    by blast
  with b4 have w4: "handleApi ?ev ?fs ?r4 = ?U"
    by blast
  from w1 w2 w3 w4 show ?thesis
    by blast
qed

subsection \<open>Request bodies (C10)\<close>

lemma parse_empty_object: "JSON_parse ''{}'' = Some (JObj [])"
  by code_simp

lemma parseBody_unparsed: "raw = [] \<or> JSON_parse raw = None \<Longrightarrow> parseBody raw = JObj []"
  by (auto simp: parseBody_def parse_empty_object)

lemma not_json: "JSON_parse ''{bad'' = None"
  by code_simp

text \<open>
  Claim C10: \<open>parseBody\<close> gives a value for every body (the \<^verbatim>\<open>SyntaxError\<close> of
  \<^verbatim>\<open>JSON.parse\<close>, the \<open>None\<close> of \<open>JSON_parse\<close>, is caught), and a body that is empty or is
  not JSON text is parsed as the empty object. With such a body, registration is answered
  with 400 \<^verbatim>\<open>Username and password are required\<close> and leaves the files as they are, the
  creation of an expense or of a goal with the 400 of its missing fields, and the login
  with 401 \<^verbatim>\<open>Invalid username or password\<close>, when every stored user has a username. No
  one of them throws.
\<close>

theorem C10_parseBody_total:
  "(\<exists>parsed. parseBody raw = parsed) \<and>
   (raw = [] \<or> JSON_parse raw = None \<longrightarrow>
      parseBody raw = JObj [] \<and>
      post_register salt (parseBody raw) users
        = Reply (Response 400 (error_body ''Username and password are required'')) users \<and>
      ((\<forall>u \<in> set users. field u ''username'' \<noteq> JUndefined) \<longrightarrow>
         post_login now (parseBody raw) users
           = Reply (Response 401 (error_body ''Invalid username or password'')) users) \<and>
      post_expenses d userId (parseBody raw) expenses
        = Reply (Response 400 (error_body ''Category and amount are required'')) expenses \<and>
      post_goals userId (parseBody raw) goals
        = Reply (Response 400 (error_body ''Title and target are required'')) goals \<and>
      handleApi ev fs \<lparr>httpMethod = ''POST'', pathname = ''/api/register'', authorization = a, body = raw\<rparr>
        = Replied (Response 400 (error_body ''Username and password are required'')) fs \<and>
      ((\<forall>u \<in> set (usersFile fs). field u ''username'' \<noteq> JUndefined) \<longrightarrow>
         handleApi ev fs \<lparr>httpMethod = ''POST'', pathname = ''/api/login'', authorization = a, body = raw\<rparr>
           = Replied (Response 401 (error_body ''Invalid username or password'')) fs))"
proof (intro conjI impI)
  show "\<exists>parsed. parseBody raw = parsed"
    by simp
next
  assume h: "raw = [] \<or> JSON_parse raw = None"
  then show p: "parseBody raw = JObj []"
    by (rule parseBody_unparsed)
  show r: "post_register salt (parseBody raw) users
        = Reply (Response 400 (error_body ''Username and password are required'')) users"
    by (simp add: p post_register_def field_def)
  have l: "post_login t (JObj []) us = Reply (Response 401 (error_body ''Invalid username or password'')) us"
    if "\<forall>u \<in> set us. field u ''username'' \<noteq> JUndefined" for t us
  proof -
    have "find (\<lambda>u. strict_eq (field u ''username'') JUndefined) us = None"
    proof -
      have "\<not> strict_eq (field u ''username'') JUndefined" if "u \<in> set us" for u
        using \<open>\<forall>u \<in> set us. field u ''username'' \<noteq> JUndefined\<close> that
        by (cases "field u ''username''") auto
      then show ?thesis
        by (simp add: find_None_iff)
    qed
    then show ?thesis
      by (simp add: post_login_def field_def)
  qed
  show "post_expenses d userId (parseBody raw) expenses
        = Reply (Response 400 (error_body ''Category and amount are required'')) expenses"
    by (simp add: p post_expenses_def field_def)
  show "post_goals userId (parseBody raw) goals
        = Reply (Response 400 (error_body ''Title and target are required'')) goals"
    by (simp add: p post_goals_def field_def)
  show "handleApi ev fs \<lparr>httpMethod = ''POST'', pathname = ''/api/register'', authorization = a, body = raw\<rparr>
        = Replied (Response 400 (error_body ''Username and password are required'')) fs"
    by (simp add: handleApi_def startsWith_def on_users_def p post_register_def field_def)
  {
    assume "\<forall>u \<in> set users. field u ''username'' \<noteq> JUndefined"
    then show "post_login now (parseBody raw) users
           = Reply (Response 401 (error_body ''Invalid username or password'')) users"
      by (simp add: p l)
  next
    assume "\<forall>u \<in> set (usersFile fs). field u ''username'' \<noteq> JUndefined"
    then have "post_login (dateNow ev) (JObj []) (usersFile fs)
        = Reply (Response 401 (error_body ''Invalid username or password'')) (usersFile fs)"
      by (rule l)
    then show "handleApi ev fs \<lparr>httpMethod = ''POST'', pathname = ''/api/login'', authorization = a, body = raw\<rparr>
           = Replied (Response 401 (error_body ''Invalid username or password'')) fs"
      by (simp add: handleApi_def startsWith_def on_users_def p)
  }
qed

text \<open>
  The statement at work, for the body \<^verbatim>\<open>{bad\<close> and for the empty body.
\<close>

theorem C10_parseBody_total_witness:
  "parseBody ''{bad'' = JObj [] \<and> parseBody [] = JObj [] \<and>
   handleApi \<lparr>dateNow = 1700000000000, dateIso = ''2023-11-14T22:13:20.000Z'', randomHex = ''00''\<rparr>
       \<lparr>usersFile = [[(''id'', JNum (Fin 1)), (''username'', JStr ''ann''), (''salt'', JStr ''00''),
                       (''hashed'', JStr ''ff'')]],
        expensesFile = [], goalsFile = []\<rparr>
       \<lparr>httpMethod = ''POST'', pathname = ''/api/login'', authorization = None, body = ''{bad''\<rparr>
     = Replied (Response 401 (error_body ''Invalid username or password''))
         \<lparr>usersFile = [[(''id'', JNum (Fin 1)), (''username'', JStr ''ann''), (''salt'', JStr ''00''),
                         (''hashed'', JStr ''ff'')]],
          expensesFile = [], goalsFile = []\<rparr> \<and>
   handleApi \<lparr>dateNow = 1700000000000, dateIso = ''2023-11-14T22:13:20.000Z'', randomHex = ''00''\<rparr>
       \<lparr>usersFile = [], expensesFile = [], goalsFile = []\<rparr>
       \<lparr>httpMethod = ''POST'', pathname = ''/api/register'', authorization = None, body = ''{bad''\<rparr>
     = Replied (Response 400 (error_body ''Username and password are required''))
         \<lparr>usersFile = [], expensesFile = [], goalsFile = []\<rparr> \<and>
   post_expenses ''2023-11-14T22:13:20.000Z'' (JNum (Fin 1)) (parseBody []) []
     = Reply (Response 400 (error_body ''Category and amount are required'')) []"
proof -
  let ?ev = "\<lparr>dateNow = 1700000000000, dateIso = ''2023-11-14T22:13:20.000Z'', randomHex = ''00''\<rparr>"
  let ?fs = "\<lparr>usersFile = [[(''id'', JNum (Fin 1)), (''username'', JStr ''ann''), (''salt'', JStr ''00''),
                       (''hashed'', JStr ''ff'')]], expensesFile = [], goalsFile = []\<rparr>"
  let ?f0 = "\<lparr>usersFile = [], expensesFile = [], goalsFile = []\<rparr>"
  have u: "\<forall>u \<in> set (usersFile ?fs). field u ''username'' \<noteq> JUndefined"
    by (simp add: field_def)
  note a = C10_parseBody_total [of "''{bad''" "''00''" "[]" 1700000000000 "''2023-11-14T22:13:20.000Z''"
      "JNum (Fin 1)" "[]" "[]" ?ev ?fs None]
  note b = C10_parseBody_total [of "''{bad''" "''00''" "[]" 1700000000000 "''2023-11-14T22:13:20.000Z''"
      "JNum (Fin 1)" "[]" "[]" ?ev ?f0 None]
  note c = C10_parseBody_total [of "[]" "''00''" "[]" 1700000000000 "''2023-11-14T22:13:20.000Z''"
      "JNum (Fin 1)" "[]" "[]" ?ev ?f0 None]
  from a not_json u have w1: "parseBody ''{bad'' = JObj []"
    and w2: "handleApi ?ev ?fs \<lparr>httpMethod = ''POST'', pathname = ''/api/login'', authorization = None, body = ''{bad''\<rparr>
     = Replied (Response 401 (error_body ''Invalid username or password'')) ?fs"
    by blast+
  from b not_json have w3: "handleApi ?ev ?f0 \<lparr>httpMethod = ''POST'', pathname = ''/api/register'', authorization = None, body = ''{bad''\<rparr>
     = Replied (Response 400 (error_body ''Username and password are required'')) ?f0"
    by blast
  from c have w4: "parseBody [] = JObj []"
    and w5: "post_expenses ''2023-11-14T22:13:20.000Z'' (JNum (Fin 1)) (parseBody []) []
     = Reply (Response 400 (error_body ''Category and amount are required'')) []"
    by blast+
  from w1 w2 w3 w4 w5 show ?thesis
    by blast
qed

subsection \<open>Validation of a new expense (C7)\<close>

text \<open>
  Claim C7 does not hold of the server: \<^verbatim>\<open>POST /api/expenses\<close> with the body
  \<^verbatim>\<open>{"category":"food","amount":-5}\<close> is answered with 201, and the record with the
  amount \<open>-5\<close> is stored. The only test on the amount is \<^verbatim>\<open>!amount\<close>.
\<close>

theorem C7_negative_amount_stored:
  "post_expenses d (JNum (Fin 1)) (JObj [(''category'', JStr ''food''), (''amount'', JNum (Fin (- 5)))]) []
     = Reply (Response 201 (JObj [(''id'', JNum (Fin 1)), (''userId'', JNum (Fin 1)), (''category'', JStr ''food''),
                                  (''amount'', JNum (Fin (- 5))), (''date'', JStr d)]))
         [[(''id'', JNum (Fin 1)), (''userId'', JNum (Fin 1)), (''category'', JStr ''food''),
           (''amount'', JNum (Fin (- 5))), (''date'', JStr d)]]"
  by (simp add: post_expenses_def field_def nextId_def to_number_def writeJson_def file_obj_def Let_def)

theorem C7_negative_amount_stored_witness:
  "post_expenses ''2024-05-01T10:00:00.000Z'' (JNum (Fin 1))
       (JObj [(''category'', JStr ''food''), (''amount'', JNum (Fin (- 5)))]) []
     = Reply (Response 201 (JObj [(''id'', JNum (Fin 1)), (''userId'', JNum (Fin 1)), (''category'', JStr ''food''),
                                  (''amount'', JNum (Fin (- 5))), (''date'', JStr ''2024-05-01T10:00:00.000Z'')]))
         [[(''id'', JNum (Fin 1)), (''userId'', JNum (Fin 1)), (''category'', JStr ''food''),
           (''amount'', JNum (Fin (- 5))), (''date'', JStr ''2024-05-01T10:00:00.000Z'')]]"
  using C7_negative_amount_stored [of "''2024-05-01T10:00:00.000Z''"] by simp

end
